theory Spec2Isabelle
  imports Main
begin

section \<open>BookArchive: the persistence layer of the book catalogue\<close>

text \<open>
  A shallow embedding of \<^verbatim>\<open>BookArchive.cpp\<close> and of the teardown paths of
  \<^verbatim>\<open>main.cpp\<close>. The SQLite library is the environment: what its calls return is
  a parameter of the model (the record \<open>sqlite\<close> and, for \<^verbatim>\<open>sqlite3_step\<close>, a script
  of outcomes), and every call the program makes is appended to a trace of events held
  in the state, so that the order of calls, the locks held around them and the text
  handed to the store can be stated. Console output is not modelled.
\<close>

subsection \<open>Constants\<close>

text \<open>The result codes of \<^verbatim>\<open>sqlite3.h\<close> (not part of the repository), with their values there.\<close>

definition SQLITE_OK :: int where "SQLITE_OK = 0"
definition SQLITE_BUSY :: int where "SQLITE_BUSY = 5"
definition SQLITE_ROW :: int where "SQLITE_ROW = 100"
definition SQLITE_DONE :: int where "SQLITE_DONE = 101"

text \<open>\<^verbatim>\<open>#define SQLITE_MAX_RETRIES 5\<close>\<close>

definition SQLITE_MAX_RETRIES :: nat where "SQLITE_MAX_RETRIES = 5"

text \<open>\<^verbatim>\<open>SIGINT\<close> and \<^verbatim>\<open>SIGTERM\<close> of \<^verbatim>\<open>csignal\<close>, with their POSIX values.\<close>

definition SIGINT :: int where "SIGINT = 2"
definition SIGTERM :: int where "SIGTERM = 15"

subsection \<open>Data\<close>

datatype LogLevel = INFO | DEBUG | ERROR

text \<open>\<^verbatim>\<open>struct Book\<close>; the field \<^verbatim>\<open>id\<close> is \<open>id_field\<close> here.\<close>

record Book =
  id_field :: int
  title :: string
  author :: string

text \<open>
  The fifth argument of \<^verbatim>\<open>sqlite3_bind_text\<close>: with \<open>SQLITE_TRANSIENT\<close> the library
  copies the text before the call returns, with \<open>SQLITE_STATIC\<close> it keeps the caller's
  pointer.
\<close>

datatype destructor = SQLITE_STATIC | SQLITE_TRANSIENT

text \<open>
  One answer of \<^verbatim>\<open>sqlite3_step\<close>: its result code and, for a row, what the three
  column readers of \<^verbatim>\<open>executeQuery\<close> return on it (\<open>None\<close> is the null pointer
  \<^verbatim>\<open>sqlite3_column_text\<close> gives for an SQL NULL).
\<close>

record step_outcome =
  rc :: int
  column_int_0 :: int
  column_text_1 :: "string option"
  column_text_2 :: "string option"

text \<open>
  The calls the program makes, in the order it makes them. A statement handle is a
  number, \<open>0\<close> the null pointer. \<open>Cache_*\<close> are the operations on
  \<^verbatim>\<open>stmt_cache_mutex\<close>, \<open>Db_*\<close> those on \<^verbatim>\<open>db_mutex\<close>; \<open>Prepare\<close> carries the
  result code and the handle the library returned.
\<close>

datatype event =
    Log LogLevel string
  | Cache_lock_shared | Cache_unlock_shared | Cache_lock | Cache_unlock
  | Db_lock_shared | Db_unlock_shared | Db_lock | Db_unlock
  | Open_log
  | Open_db string
  | Exec string
  | Prepare string int nat
  | Reset nat
  | Clear_bindings nat
  | Bind_text nat nat string destructor
  | Step nat
  | Sleep_ms nat
  | Finalize nat
  | Close_db
  | Close_log
  | Throw string

text \<open>
  The members of \<^verbatim>\<open>class BookArchive\<close> the modelled functions read or write.
  \<open>db\<close> says whether the connection pointer is non-null, \<open>log_file_is_open\<close> whether the
  log stream is open. \<open>stmt_cache\<close> is the \<^verbatim>\<open>unordered_map\<close> from SQL text to handle,
  as an association list with one pair per key; the list's order stands for the map's
  unspecified iteration order. \<open>trace\<close> is the sequence of calls made so far.
\<close>

record BookArchive =
  db :: bool
  db_filename :: string
  log_file_is_open :: bool
  current_log_level :: LogLevel
  stmt_cache :: "(string \<times> nat) list"
  trace :: "event list"

text \<open>
  The environment. \<open>prepare_v2 k sql\<close> is what the \<open>k\<close>-th call of
  \<^verbatim>\<open>sqlite3_prepare_v2\<close> (counted from 0) returns on \<open>sql\<close>: result code and handle.
  \<open>bind_text stmt i v\<close> is the result code of binding \<open>v\<close> at position \<open>i\<close>.
  \<open>exec_rc\<close> and \<open>exec_errmsg\<close> answer \<^verbatim>\<open>sqlite3_exec\<close>, \<open>open_rc\<close>
  \<^verbatim>\<open>sqlite3_open\<close>, \<open>errmsg\<close> \<^verbatim>\<open>sqlite3_errmsg\<close>.
\<close>

record sqlite =
  open_rc :: int
  exec_rc :: "string \<Rightarrow> int"
  exec_errmsg :: "string \<Rightarrow> string"
  prepare_v2 :: "nat \<Rightarrow> string \<Rightarrow> int \<times> nat"
  bind_text :: "nat \<Rightarrow> nat \<Rightarrow> string \<Rightarrow> int"
  errmsg :: string

subsection \<open>Helpers: the trace, \<^verbatim>\<open>std::to_string\<close>, \<^verbatim>\<open>log\<close>\<close>

definition emit :: "event \<Rightarrow> BookArchive \<Rightarrow> BookArchive" where
  "emit e st = st\<lparr>trace := trace st @ [e]\<rparr>"

definition digit_char :: "nat \<Rightarrow> char" where
  "digit_char d = ''0123456789'' ! d"

fun to_string_nat :: "nat \<Rightarrow> string" where
  "to_string_nat n =
     (if n < 10 then [digit_char n] else to_string_nat (n div 10) @ [digit_char (n mod 10)])"

declare to_string_nat.simps [simp del]

definition to_string :: "int \<Rightarrow> string" where
  "to_string i = (if i < 0 then CHR ''-'' # to_string_nat (nat (- i)) else to_string_nat (nat i))"

text \<open>
  \<^verbatim>\<open>BookArchive::log\<close>. The trace records the call with its level and message. Whether
  the line reaches the file is decided by \<open>log_writes\<close>, the three early returns of the
  source: the level is below the current one (the enumeration's order is INFO, DEBUG,
  ERROR), the build is a release build and the level is not ERROR, or the file is not
  open.
\<close>

definition log :: "LogLevel \<Rightarrow> string \<Rightarrow> BookArchive \<Rightarrow> BookArchive" where
  "log level message st = emit (Log level message) st"

fun level_index :: "LogLevel \<Rightarrow> nat" where
  "level_index INFO = 0"
| "level_index DEBUG = 1"
| "level_index ERROR = 2"

definition log_writes :: "bool \<Rightarrow> LogLevel \<Rightarrow> bool \<Rightarrow> LogLevel \<Rightarrow> bool" where
  "log_writes debug_mode current is_open level =
     (if level_index level < level_index current then False
      else if \<not> debug_mode \<and> level \<noteq> ERROR then False
      else if \<not> is_open then False
      else True)"

subsection \<open>\<^verbatim>\<open>executeSQLWithParams\<close> and \<^verbatim>\<open>executeQuery\<close>: binding and stepping\<close>

definition busy_message :: "nat \<Rightarrow> string" where
  "busy_message retries =
     ''Database busy, retrying... ('' @ to_string_nat (retries + 1) @ ''/''
       @ to_string_nat SQLITE_MAX_RETRIES @ '')''"

text \<open>
  The binding loop of both functions, from index \<open>i\<close> on: \<open>Inl\<close> is the early return
  after a failed bind, with the state after the error was logged.
\<close>

fun bind_params :: "sqlite \<Rightarrow> nat \<Rightarrow> nat \<Rightarrow> string list \<Rightarrow> BookArchive \<Rightarrow> BookArchive + BookArchive" where
  "bind_params env stmt i [] st = Inr st"
| "bind_params env stmt i (p # ps) st =
     (let st1 = emit (Bind_text stmt (i + 1) p SQLITE_TRANSIENT) st in
      if bind_text env stmt (i + 1) p \<noteq> SQLITE_OK
      then Inl (log ERROR (''Failed to bind parameter '' @ to_string_nat (i + 1) @ '': '' @ errmsg env) st1)
      else bind_params env stmt (i + 1) ps st1)"

text \<open>
  The \<^verbatim>\<open>while\<close> loop of \<^verbatim>\<open>executeSQLWithParams\<close>, run inside the exclusive lock. The
  script lists the answers of the successive \<^verbatim>\<open>sqlite3_step\<close> calls; \<open>None\<close> means the
  script ended before the loop did. The result is the last code read.
\<close>

fun executeSQLWithParams_loop :: "nat \<Rightarrow> step_outcome list \<Rightarrow> nat \<Rightarrow> BookArchive \<Rightarrow> (int \<times> BookArchive) option" where
  "executeSQLWithParams_loop stmt [] retries st = None"
| "executeSQLWithParams_loop stmt (r # script) retries st =
     (let st1 = emit (Step stmt) st in
      if rc r = SQLITE_BUSY \<and> retries < SQLITE_MAX_RETRIES
      then executeSQLWithParams_loop stmt script (retries + 1)
             (emit (Sleep_ms (10 * 2 ^ retries)) (log DEBUG (busy_message retries) st1))
      else Some (rc r, st1))"

text \<open>The row marshalling of \<^verbatim>\<open>executeQuery\<close>: a null text pointer becomes the empty string.\<close>

definition book_of_row :: "step_outcome \<Rightarrow> Book" where
  "book_of_row r =
     \<lparr>id_field = column_int_0 r,
      title = (case column_text_1 r of Some t \<Rightarrow> t | None \<Rightarrow> ''''),
      author = (case column_text_2 r of Some a \<Rightarrow> a | None \<Rightarrow> '''')\<rparr>"

text \<open>
  The \<^verbatim>\<open>while (true)\<close> loop of \<^verbatim>\<open>executeQuery\<close>. Each step is taken inside its own
  shared lock; \<open>retries\<close> is the counter declared before the loop.
\<close>

fun executeQuery_loop :: "sqlite \<Rightarrow> nat \<Rightarrow> step_outcome list \<Rightarrow> nat \<Rightarrow> Book list \<Rightarrow> BookArchive \<Rightarrow> (Book list \<times> BookArchive) option" where
  "executeQuery_loop env stmt [] retries results st = None"
| "executeQuery_loop env stmt (r # script) retries results st =
     (let st1 = emit Db_unlock_shared (emit (Step stmt) (emit Db_lock_shared st)) in
      if rc r = SQLITE_ROW
      then executeQuery_loop env stmt script retries (results @ [book_of_row r]) st1
      else if rc r = SQLITE_BUSY \<and> retries < SQLITE_MAX_RETRIES
      then executeQuery_loop env stmt script (retries + 1) results
             (emit (Sleep_ms (10 * 2 ^ retries)) (log DEBUG (busy_message retries) st1))
      else if rc r = SQLITE_DONE
      then Some (results, st1)
      else Some (results, log ERROR (''Failed to execute query: '' @ errmsg env) st1))"


subsection \<open>The statement cache\<close>

fun is_prepare :: "event \<Rightarrow> bool" where
  "is_prepare (Prepare sql code stmt) = True"
| "is_prepare e = False"

definition prepare_calls :: "event list \<Rightarrow> nat" where
  "prepare_calls tr = length (filter is_prepare tr)"

text \<open>
  \<^verbatim>\<open>getPreparedStatement\<close> is two critical sections. The first looks the text up under
  the shared lock of the cache.
\<close>

definition find_shared :: "string \<Rightarrow> BookArchive \<Rightarrow> nat option \<times> BookArchive" where
  "find_shared sql st =
     (let st1 = emit Cache_lock_shared st
      in (map_of (stmt_cache st1) sql, emit Cache_unlock_shared st1))"

text \<open>
  The second, entered after a miss, takes the exclusive lock, looks the text up again,
  and only when it is still absent prepares it; the handle is stored when
  \<^verbatim>\<open>sqlite3_prepare_v2\<close> returned \<open>SQLITE_OK\<close>, otherwise the error is logged and the
  null pointer returned.
\<close>

definition find_or_prepare :: "sqlite \<Rightarrow> string \<Rightarrow> BookArchive \<Rightarrow> nat \<times> BookArchive" where
  "find_or_prepare env sql st =
     (let st1 = emit Cache_lock st in
      case map_of (stmt_cache st1) sql of
        Some stmt \<Rightarrow> (stmt, emit Cache_unlock st1)
      | None \<Rightarrow>
          (let (code, stmt) = prepare_v2 env (prepare_calls (trace st1)) sql;
               st2 = emit (Prepare sql code stmt) st1
           in if code \<noteq> SQLITE_OK
              then (0, emit Cache_unlock
                         (log ERROR (''Failed to prepare statement: '' @ errmsg env
                                       @ '' for SQL: '' @ sql) st2))
              else (stmt, emit Cache_unlock (st2\<lparr>stmt_cache := (sql, stmt) # stmt_cache st2\<rparr>))))"

definition getPreparedStatement :: "sqlite \<Rightarrow> string \<Rightarrow> BookArchive \<Rightarrow> nat \<times> BookArchive" where
  "getPreparedStatement env sql st =
     (case find_shared sql st of
        (Some stmt, st1) \<Rightarrow> (stmt, st1)
      | (None, st1) \<Rightarrow> find_or_prepare env sql st1)"

text \<open>\<^verbatim>\<open>cleanupStatements\<close>: every non-null handle is finalized, then the map is cleared.\<close>

fun finalize_all :: "(string \<times> nat) list \<Rightarrow> BookArchive \<Rightarrow> BookArchive" where
  "finalize_all [] st = st"
| "finalize_all ((sql, stmt) # rest) st =
     finalize_all rest (if stmt \<noteq> 0 then emit (Finalize stmt) st else st)"

definition cleanupStatements :: "BookArchive \<Rightarrow> BookArchive" where
  "cleanupStatements st =
     (let st1 = emit Cache_lock st;
          st2 = finalize_all (stmt_cache st1) st1
      in emit Cache_unlock (st2\<lparr>stmt_cache := []\<rparr>))"

text \<open>
  Concurrent callers of \<^verbatim>\<open>getPreparedStatement\<close>. Each critical section is atomic (the
  first only reads the map, the second excludes every other holder), so an execution of
  several threads is an interleaving of their sections: a schedule names, step by step,
  the thread that runs its next section. A thread is the text it asks for and where it
  stands.
\<close>

datatype pc = Entry | Missed | Returned nat

fun thread_step :: "sqlite \<Rightarrow> string \<times> pc \<Rightarrow> BookArchive \<Rightarrow> (string \<times> pc) \<times> BookArchive" where
  "thread_step env (sql, Entry) st =
     (case find_shared sql st of
        (Some stmt, st1) \<Rightarrow> ((sql, Returned stmt), st1)
      | (None, st1) \<Rightarrow> ((sql, Missed), st1))"
| "thread_step env (sql, Missed) st =
     (let (stmt, st1) = find_or_prepare env sql st in ((sql, Returned stmt), st1))"
| "thread_step env (sql, Returned stmt) st = ((sql, Returned stmt), st)"

fun run_threads :: "sqlite \<Rightarrow> nat list \<Rightarrow> (string \<times> pc) list \<Rightarrow> BookArchive \<Rightarrow> (string \<times> pc) list \<times> BookArchive" where
  "run_threads env [] threads st = (threads, st)"
| "run_threads env (t # schedule) threads st =
     (if t < length threads
      then (let (th, st1) = thread_step env (threads ! t) st
            in run_threads env schedule (threads[t := th]) st1)
      else run_threads env schedule threads st)"

text \<open>The texts \<^verbatim>\<open>sqlite3_prepare_v2\<close> was called on, and those it compiled.\<close>

fun prepared_texts :: "event list \<Rightarrow> string list" where
  "prepared_texts [] = []"
| "prepared_texts (Prepare sql code stmt # tr) = sql # prepared_texts tr"
| "prepared_texts (e # tr) = prepared_texts tr"

fun compiled_texts :: "event list \<Rightarrow> string list" where
  "compiled_texts [] = []"
| "compiled_texts (Prepare sql code stmt # tr) =
     (if code = SQLITE_OK then sql # compiled_texts tr else compiled_texts tr)"
| "compiled_texts (e # tr) = compiled_texts tr"

subsection \<open>The two execution functions\<close>

text \<open>
  Both functions begin with the same lines, written out twice in the source: fetch the
  statement and return early without one, reset it, clear its bindings, bind every
  parameter and return early when a bind fails. \<open>Inl\<close> is the early return, \<open>Inr\<close>
  the handle and the state with which the stepping starts.
\<close>

definition reset_and_bind :: "sqlite \<Rightarrow> string \<Rightarrow> string list \<Rightarrow> BookArchive \<Rightarrow> BookArchive + nat \<times> BookArchive" where
  "reset_and_bind env sql params st =
     (let (stmt, st1) = getPreparedStatement env sql st
      in if stmt = 0 then Inl st1
         else
           (let st2 = emit (Clear_bindings stmt) (emit (Reset stmt) st1) in
            case bind_params env stmt 0 params st2 of
              Inl st3 \<Rightarrow> Inl st3
            | Inr st3 \<Rightarrow> Inr (stmt, st3)))"

definition executeSQLWithParams :: "sqlite \<Rightarrow> string \<Rightarrow> string list \<Rightarrow> step_outcome list \<Rightarrow> BookArchive \<Rightarrow> (bool \<times> BookArchive) option" where
  "executeSQLWithParams env sql params script st =
     (case reset_and_bind env sql params
             (log DEBUG (''Executing SQL: '' @ sql @ '' with ''
                           @ to_string_nat (length params) @ '' parameters'') st) of
        Inl st3 \<Rightarrow> Some (False, st3)
      | Inr (stmt, st3) \<Rightarrow>
          (case executeSQLWithParams_loop stmt script 0 (emit Db_lock st3) of
             None \<Rightarrow> None
           | Some (code, st4) \<Rightarrow>
               (let st5 = emit Db_unlock st4
                in if code \<noteq> SQLITE_DONE
                   then Some (False, log ERROR (''Failed to execute SQL: '' @ errmsg env) st5)
                   else Some (True, st5))))"

definition executeQuery :: "sqlite \<Rightarrow> string \<Rightarrow> string list \<Rightarrow> step_outcome list \<Rightarrow> BookArchive \<Rightarrow> (Book list \<times> BookArchive) option" where
  "executeQuery env sql params script st =
     (case reset_and_bind env sql params (log DEBUG (''Executing query: '' @ sql) st) of
        Inl st3 \<Rightarrow> Some ([], st3)
      | Inr (stmt, st3) \<Rightarrow>
          (case executeQuery_loop env stmt script 0 [] st3 of
             None \<Rightarrow> None
           | Some (results, st4) \<Rightarrow>
               Some (results,
                     if results \<noteq> []
                     then log DEBUG (''Query returned '' @ to_string_nat (length results)
                                       @ '' results'') st4
                     else log DEBUG ''Query returned no results'' st4)))"

subsection \<open>Record operations\<close>

definition quote :: string where
  "quote = [CHR 0x27]"

definition addBook_sql :: string where
  "addBook_sql = ''INSERT INTO books (id, title, author) VALUES (?, ?, ?);''"

definition deleteBook_sql :: string where
  "deleteBook_sql = ''DELETE FROM books WHERE id = ?;''"

definition updateBook_sql :: string where
  "updateBook_sql = ''UPDATE books SET title = ?, author = ? WHERE id = ?;''"

definition searchBook_sql :: string where
  "searchBook_sql = ''SELECT * FROM books WHERE title LIKE ? OR author LIKE ? ORDER BY id;''"

definition displayBooks_sql :: string where
  "displayBooks_sql = ''SELECT * FROM books ORDER BY id;''"

definition addBook :: "sqlite \<Rightarrow> int \<Rightarrow> string \<Rightarrow> string \<Rightarrow> step_outcome list \<Rightarrow> BookArchive \<Rightarrow> (bool \<times> BookArchive) option" where
  "addBook env id_arg title_arg author_arg script st =
     (let st0 = log INFO (''Adding book: ID='' @ to_string id_arg @ '', Title='' @ quote @ title_arg
                            @ quote @ '', Author='' @ quote @ author_arg @ quote) st;
          params = [to_string id_arg, title_arg, author_arg]
      in case executeSQLWithParams env addBook_sql params script st0 of
           None \<Rightarrow> None
         | Some (ok, st1) \<Rightarrow>
             if \<not> ok then Some (False, log ERROR ''Failed to add book'' st1) else Some (True, st1))"

definition deleteBook :: "sqlite \<Rightarrow> int \<Rightarrow> step_outcome list \<Rightarrow> BookArchive \<Rightarrow> (bool \<times> BookArchive) option" where
  "deleteBook env id_arg script st =
     (let st0 = log INFO (''Deleting book with ID: '' @ to_string id_arg) st;
          params = [to_string id_arg]
      in case executeSQLWithParams env deleteBook_sql params script st0 of
           None \<Rightarrow> None
         | Some (ok, st1) \<Rightarrow>
             if \<not> ok then Some (False, log ERROR ''Failed to delete book'' st1) else Some (True, st1))"

definition updateBook :: "sqlite \<Rightarrow> int \<Rightarrow> string \<Rightarrow> string \<Rightarrow> step_outcome list \<Rightarrow> BookArchive \<Rightarrow> (bool \<times> BookArchive) option" where
  "updateBook env id_arg newTitle newAuthor script st =
     (let st0 = log INFO (''Updating book: ID='' @ to_string id_arg @ '', New Title='' @ quote
                            @ newTitle @ quote @ '', New Author='' @ quote @ newAuthor @ quote) st;
          params = [newTitle, newAuthor, to_string id_arg]
      in case executeSQLWithParams env updateBook_sql params script st0 of
           None \<Rightarrow> None
         | Some (ok, st1) \<Rightarrow>
             if \<not> ok then Some (False, log ERROR ''Failed to update book'' st1) else Some (True, st1))"

definition searchBook :: "sqlite \<Rightarrow> string \<Rightarrow> step_outcome list \<Rightarrow> BookArchive \<Rightarrow> (Book list \<times> BookArchive) option" where
  "searchBook env keyword script st =
     (let st0 = log INFO (''Searching for books with keyword: '' @ quote @ keyword @ quote) st;
          searchPattern = ''%'' @ keyword @ ''%'';
          params = [searchPattern, searchPattern]
      in executeQuery env searchBook_sql params script st0)"

text \<open>\<^verbatim>\<open>displayBooks\<close> prints the records it read; the model returns them.\<close>

definition displayBooks :: "sqlite \<Rightarrow> step_outcome list \<Rightarrow> BookArchive \<Rightarrow> (Book list \<times> BookArchive) option" where
  "displayBooks env script st =
     executeQuery env displayBooks_sql [] script (log INFO ''Displaying all books'' st)"

subsection \<open>Construction and teardown\<close>

definition pragmas :: "string list" where
  "pragmas =
     [''PRAGMA foreign_keys = ON;'',
      ''PRAGMA journal_mode = WAL;'',
      ''PRAGMA synchronous = NORMAL;'',
      ''PRAGMA cache_size = 1000;'',
      ''PRAGMA temp_store = MEMORY;'']"

definition createTableSQL :: string where
  "createTableSQL =
     ''CREATE TABLE IF NOT EXISTS books ('' @ ''id INTEGER PRIMARY KEY, '' @ ''title TEXT NOT NULL, ''
       @ ''author TEXT NOT NULL, '' @ ''created_at TIMESTAMP DEFAULT CURRENT_TIMESTAMP);''"

definition createIndexSQL :: string where
  "createIndexSQL = ''CREATE INDEX IF NOT EXISTS idx_books_title_author ON books(title, author);''"

text \<open>The \<^verbatim>\<open>for\<close> loop over the pragmas: a failure is logged and the loop goes on.\<close>

fun set_pragmas :: "sqlite \<Rightarrow> string list \<Rightarrow> BookArchive \<Rightarrow> BookArchive" where
  "set_pragmas env [] st = st"
| "set_pragmas env (pragma # rest) st =
     (let st1 = emit (Exec pragma) st
      in set_pragmas env rest
           (if exec_rc env pragma \<noteq> SQLITE_OK
            then log ERROR (''Failed to set pragma: '' @ exec_errmsg env pragma) st1
            else st1))"

text \<open>
  \<^verbatim>\<open>initializeDatabase\<close>. The lock guard is released at each return.
  \<^verbatim>\<open>sqlite3_open\<close> stores a handle in \<open>db\<close> whether it succeeds or not (it leaves the
  pointer null only when it cannot allocate the handle, a case the model does not have);
  after a failed open the source closes that handle and does not reset the pointer, so
  \<open>db\<close> stays set.
\<close>

definition initializeDatabase :: "sqlite \<Rightarrow> BookArchive \<Rightarrow> bool \<times> BookArchive" where
  "initializeDatabase env st =
     (let st1 = (emit (Open_db (db_filename st)) (emit Db_lock st))\<lparr>db := True\<rparr> in
      if open_rc env \<noteq> SQLITE_OK
      then (False, emit Db_unlock
                     (emit Close_db (log ERROR (''Cannot open database: '' @ errmsg env) st1)))
      else
        (let st2 = set_pragmas env pragmas st1;
             st3 = emit (Exec createTableSQL) st2
         in if exec_rc env createTableSQL \<noteq> SQLITE_OK
            then (False, emit Db_unlock
                           (log ERROR (''Failed to create table: '' @ exec_errmsg env createTableSQL) st3))
            else
              (let st4 = emit (Exec createIndexSQL) st3;
                   st5 = (if exec_rc env createIndexSQL \<noteq> SQLITE_OK
                          then log ERROR (''Failed to create index: ''
                                            @ exec_errmsg env createIndexSQL) st4
                          else st4)
               in (True, emit Db_unlock st5))))"

fun logLevelToString :: "LogLevel \<Rightarrow> string" where
  "logLevelToString DEBUG = ''DEBUG''"
| "logLevelToString INFO = ''INFO''"
| "logLevelToString ERROR = ''ERROR''"

text \<open>
  What C++ does to the members when the constructor throws: the destructor of the class
  does not run, the one of the \<^verbatim>\<open>std::ofstream\<close> member does and closes the file.
\<close>

definition member_destructors :: "BookArchive \<Rightarrow> BookArchive" where
  "member_destructors st =
     (if log_file_is_open st then (emit Close_log st)\<lparr>log_file_is_open := False\<rparr> else st)"

text \<open>
  The constructor; \<open>log_opens\<close> says whether the log file could be opened. \<open>Inl\<close> is
  the \<^verbatim>\<open>std::runtime_error\<close> thrown when \<^verbatim>\<open>initializeDatabase\<close> fails, with the state
  the abandoned object was left in (its trace is the trace of the process).
\<close>

definition BookArchive_constructor :: "sqlite \<Rightarrow> bool \<Rightarrow> string \<Rightarrow> LogLevel \<Rightarrow> BookArchive + BookArchive" where
  "BookArchive_constructor env log_opens db_file log_level =
     (let st = \<lparr>db = False, db_filename = db_file, log_file_is_open = log_opens,
                current_log_level = log_level, stmt_cache = [], trace = [Open_log]\<rparr>;
          (ok, st1) = initializeDatabase env st
      in if \<not> ok
         then Inl (member_destructors
                     (emit (Throw (''Failed to initialize database: '' @ db_file)) st1))
         else Inr (log INFO (''Book Archive initialized with database: '' @ db_file
                               @ '' and logging level: '' @ logLevelToString log_level)
                     (log INFO ''********************************************************'' st1)))"

text \<open>The destructor \<^verbatim>\<open>~BookArchive\<close>.\<close>

definition BookArchive_destructor :: "BookArchive \<Rightarrow> BookArchive" where
  "BookArchive_destructor st =
     (let st1 = cleanupStatements (log INFO ''Shutting down Book Archive'' st);
          st2 = (if db st1 then (emit Close_db st1)\<lparr>db := False\<rparr> else st1)
      in if log_file_is_open st2 then (emit Close_log st2)\<lparr>log_file_is_open := False\<rparr> else st2)"

text \<open>
  \<^verbatim>\<open>signalHandler\<close> of \<^verbatim>\<open>main.cpp\<close>, installed for SIGINT and SIGTERM; \<open>g_archive\<close>
  is the global pointer. \<open>Some (c, a)\<close>: the process exits with code \<open>c\<close>, \<open>a\<close> being
  the archive after its destructor ran, if there was one; \<open>None\<close>: the handler returns.
\<close>

definition signalHandler :: "int \<Rightarrow> BookArchive option \<Rightarrow> (int \<times> BookArchive option) option" where
  "signalHandler signal g_archive =
     (if signal = SIGINT \<or> signal = SIGTERM
      then Some (0, case g_archive of
                      Some a \<Rightarrow> Some (BookArchive_destructor a)
                    | None \<Rightarrow> None)
      else None)"

text \<open>
  The \<^verbatim>\<open>try\<close> block of \<^verbatim>\<open>main\<close> and its handler. The command loop \<^verbatim>\<open>run\<close> is a
  parameter: it returns, or throws, leaving the archive in some state. The result is the
  exit code and the last state of the archive object. When the constructor throws,
  \<^verbatim>\<open>g_archive\<close> was never assigned and the handler deletes nothing.
\<close>

datatype run_result = Run_returns BookArchive | Run_throws string BookArchive

definition main_try :: "sqlite \<Rightarrow> bool \<Rightarrow> string \<Rightarrow> LogLevel \<Rightarrow> (BookArchive \<Rightarrow> run_result) \<Rightarrow> int \<times> BookArchive" where
  "main_try env log_opens db_file log_level run =
     (case BookArchive_constructor env log_opens db_file log_level of
        Inl st \<Rightarrow> (1, st)
      | Inr st \<Rightarrow>
          (case run st of
             Run_returns st1 \<Rightarrow> (0, BookArchive_destructor st1)
           | Run_throws msg st1 \<Rightarrow> (1, BookArchive_destructor (emit (Throw msg) st1))))"

subsection \<open>Observations on traces, and sample values\<close>

fun step_calls :: "event list \<Rightarrow> nat" where
  "step_calls [] = 0"
| "step_calls (Step stmt # tr) = Suc (step_calls tr)"
| "step_calls (e # tr) = step_calls tr"

fun sleeps :: "event list \<Rightarrow> nat list" where
  "sleeps [] = []"
| "sleeps (Sleep_ms d # tr) = d # sleeps tr"
| "sleeps (e # tr) = sleeps tr"

fun logged_errors :: "event list \<Rightarrow> string list" where
  "logged_errors [] = []"
| "logged_errors (Log ERROR message # tr) = message # logged_errors tr"
| "logged_errors (e # tr) = logged_errors tr"

fun executed :: "event list \<Rightarrow> string list" where
  "executed [] = []"
| "executed (Exec sql # tr) = sql # executed tr"
| "executed (e # tr) = executed tr"

fun bound_values :: "event list \<Rightarrow> (nat \<times> string) list" where
  "bound_values [] = []"
| "bound_values (Bind_text stmt i v d # tr) = (i, v) # bound_values tr"
| "bound_values (e # tr) = bound_values tr"

text \<open>
  The SQL text handed to the store, by \<^verbatim>\<open>sqlite3_prepare_v2\<close> or by
  \<^verbatim>\<open>sqlite3_exec\<close>, in the order of the calls.
\<close>

fun sql_texts :: "event list \<Rightarrow> string list" where
  "sql_texts [] = []"
| "sql_texts (Prepare sql code stmt # tr) = sql # sql_texts tr"
| "sql_texts (Exec sql # tr) = sql # sql_texts tr"
| "sql_texts (e # tr) = sql_texts tr"

text \<open>
  What a call handed to the store between two states: \<open>sent\<close> is the SQL text.
  \<open>passes_only sql params\<close> says that the later trace extends the earlier one, that
  the only text handed over in between is \<open>sql\<close> (prepared once when the cache did not
  have it, otherwise no text at all), and that the values bound in between are the first
  so many of \<open>params\<close>, each at its position counted from 1.
\<close>

definition sent :: "BookArchive \<Rightarrow> BookArchive \<Rightarrow> string list" where
  "sent st st' = sql_texts (drop (length (trace st)) (trace st'))"

definition passes_only :: "string \<Rightarrow> string list \<Rightarrow> BookArchive \<Rightarrow> BookArchive \<Rightarrow> bool" where
  "passes_only sql params st st' =
     (let bound = bound_values (drop (length (trace st)) (trace st'))
      in take (length (trace st)) (trace st') = trace st
         \<and> sent st st' = (if map_of (stmt_cache st) sql = None then [sql] else [])
         \<and> bound = take (length bound) (zip [1..<Suc (length params)] params))"

fun loop_event :: "event \<Rightarrow> bool" where
  "loop_event (Step stmt) = True"
| "loop_event (Sleep_ms d) = True"
| "loop_event (Log level message) = True"
| "loop_event e = False"

text \<open>
  The discipline of a scan on \<^verbatim>\<open>db_mutex\<close>: the shared lock is taken, one step is made,
  the lock is released; everything else happens with the lock free, and the exclusive
  lock is never taken.
\<close>

datatype guard = Free | Locked | Stepped

fun shared_per_step :: "guard \<Rightarrow> event list \<Rightarrow> bool" where
  "shared_per_step g [] = (g = Free)"
| "shared_per_step g (Db_lock_shared # tr) = (g = Free \<and> shared_per_step Locked tr)"
| "shared_per_step g (Step stmt # tr) = (g = Locked \<and> shared_per_step Stepped tr)"
| "shared_per_step g (Db_unlock_shared # tr) = (g = Stepped \<and> shared_per_step Free tr)"
| "shared_per_step g (Db_lock # tr) = False"
| "shared_per_step g (Db_unlock # tr) = False"
| "shared_per_step g (e # tr) = (g = Free \<and> shared_per_step g tr)"

text \<open>
  A state with more events, and the events of \<open>n\<close> retries from the \<open>k\<close>-th on: a
  step that found the store busy, the message, the sleep.
\<close>

definition emits :: "event list \<Rightarrow> BookArchive \<Rightarrow> BookArchive" where
  "emits evs st = st\<lparr>trace := trace st @ evs\<rparr>"

definition retry_events :: "nat \<Rightarrow> nat \<Rightarrow> nat \<Rightarrow> event list" where
  "retry_events stmt k n =
     concat (map (\<lambda>j. [Step stmt, Log DEBUG (busy_message j), Sleep_ms (10 * 2 ^ j)]) [k..<k + n])"

text \<open>The events of \<open>n\<close> steps of a scan, each inside its own shared lock.\<close>

definition scan_events :: "nat \<Rightarrow> nat \<Rightarrow> event list" where
  "scan_events stmt n = concat (replicate n [Db_lock_shared, Step stmt, Db_unlock_shared])"

text \<open>
  The state in which an operation asks for its statement: after its own message
  \<open>said\<close> and the first message of the execution function it calls.
\<close>

definition entered_write :: "string \<Rightarrow> string list \<Rightarrow> string \<Rightarrow> BookArchive \<Rightarrow> BookArchive" where
  "entered_write sql params said st =
     log DEBUG (''Executing SQL: '' @ sql @ '' with '' @ to_string_nat (length params)
                  @ '' parameters'') (log INFO said st)"

definition entered_read :: "string \<Rightarrow> string \<Rightarrow> BookArchive \<Rightarrow> BookArchive" where
  "entered_read sql said st = log DEBUG (''Executing query: '' @ sql) (log INFO said st)"

text \<open>What a call returned and the trace it left.\<close>

definition write_report :: "(bool \<times> BookArchive) option \<Rightarrow> (bool \<times> event list) option" where
  "write_report r = map_option (\<lambda>(ok, st'). (ok, trace st')) r"

definition read_report :: "(Book list \<times> BookArchive) option \<Rightarrow> (Book list \<times> event list) option" where
  "read_report r = map_option (\<lambda>(books, st'). (books, trace st')) r"

text \<open>
  A store that accepts everything: the \<open>k\<close>-th prepare returns the handle \<open>k + 1\<close>.
  \<open>refusing\<close> is the same store with every prepare failing, \<open>second_bind_fails\<close>
  with every bind at position 2 failing, \<open>only_table\<close> with every \<^verbatim>\<open>sqlite3_exec\<close>
  failing but the creation of the table, \<open>no_table\<close> with the creation of the table
  failing. \<open>fresh\<close> is an archive after a successful
  start, with its trace cut.
\<close>

definition accepting :: sqlite where
  "accepting = \<lparr>open_rc = 0, exec_rc = (\<lambda>sql. 0), exec_errmsg = (\<lambda>sql. []),
     prepare_v2 = (\<lambda>k sql. (0, k + 1)), bind_text = (\<lambda>stmt i v. 0), errmsg = ''database is locked''\<rparr>"

definition refusing :: sqlite where
  "refusing = accepting\<lparr>prepare_v2 := (\<lambda>k sql. (1, 0)), errmsg := ''syntax error''\<rparr>"

definition second_bind_fails :: sqlite where
  "second_bind_fails = accepting\<lparr>bind_text := (\<lambda>stmt i v. if i = 2 then 25 else 0),
     errmsg := ''column index out of range''\<rparr>"

definition only_table :: sqlite where
  "only_table = accepting\<lparr>exec_rc := (\<lambda>sql. if sql = createTableSQL then 0 else 1),
     exec_errmsg := (\<lambda>sql. ''not an error'')\<rparr>"

definition no_table :: sqlite where
  "no_table = accepting\<lparr>exec_rc := (\<lambda>sql. if sql = createTableSQL then 1 else 0),
     exec_errmsg := (\<lambda>sql. ''disk I/O error'')\<rparr>"

definition fresh :: BookArchive where
  "fresh = \<lparr>db = True, db_filename = ''book_archive.db'', log_file_is_open = True,
     current_log_level = ERROR, stmt_cache = [], trace = []\<rparr>"

definition busy :: step_outcome where
  "busy = \<lparr>rc = 5, column_int_0 = 0, column_text_1 = None, column_text_2 = None\<rparr>"

definition finished :: step_outcome where
  "finished = \<lparr>rc = 101, column_int_0 = 0, column_text_1 = None, column_text_2 = None\<rparr>"

definition failed :: step_outcome where
  "failed = \<lparr>rc = 10, column_int_0 = 0, column_text_1 = None, column_text_2 = None\<rparr>"

definition row :: "int \<Rightarrow> string option \<Rightarrow> string option \<Rightarrow> step_outcome" where
  "row i t a = \<lparr>rc = 100, column_int_0 = i, column_text_1 = t, column_text_2 = a\<rparr>"

section \<open>Properties\<close>

subsection \<open>The trace only grows\<close>

lemma emit_fields [simp]:
  "trace (emit e st) = trace st @ [e]"
  "stmt_cache (emit e st) = stmt_cache st"
  "db (emit e st) = db st"
  "db_filename (emit e st) = db_filename st"
  "log_file_is_open (emit e st) = log_file_is_open st"
  "current_log_level (emit e st) = current_log_level st"
  by (simp_all add: emit_def)

lemma emits_fields [simp]:
  "trace (emits evs st) = trace st @ evs"
  "stmt_cache (emits evs st) = stmt_cache st"
  "db (emits evs st) = db st"
  "db_filename (emits evs st) = db_filename st"
  "log_file_is_open (emits evs st) = log_file_is_open st"
  "current_log_level (emits evs st) = current_log_level st"
  by (simp_all add: emits_def)

lemma emits_emits [simp]: "emits b (emits a st) = emits (a @ b) st"
  by (simp add: emits_def)

lemma emits_Nil [simp]: "emits [] st = st"
  by (simp add: emits_def)

lemma emit_emits: "emit e st = emits [e] st"
  by (simp add: emit_def emits_def)

lemma log_emits: "log level message st = emits [Log level message] st"
  by (simp add: log_def emit_emits)

lemmas codes = SQLITE_OK_def SQLITE_BUSY_def SQLITE_ROW_def SQLITE_DONE_def SQLITE_MAX_RETRIES_def

lemmas eval_defs = executeSQLWithParams_def executeQuery_def reset_and_bind_def
  getPreparedStatement_def find_shared_def find_or_prepare_def log_def Let_def prepare_calls_def
  busy_message_def to_string_nat.simps digit_char_def

lemmas samples = accepting_def refusing_def second_bind_fails_def only_table_def no_table_def fresh_def busy_def finished_def failed_def row_def

subsection \<open>The retry loop of a write\<close>

lemma retry_events_0 [simp]: "retry_events stmt k 0 = []"
  by (simp add: retry_events_def)

lemma retry_events_Suc:
  "retry_events stmt k (Suc n) =
     [Step stmt, Log DEBUG (busy_message k), Sleep_ms (10 * 2 ^ k)] @ retry_events stmt (Suc k) n"
  by (simp add: retry_events_def upt_rec)

lemma retry_events_5:
  "retry_events stmt 0 5 =
     [Step stmt, Log DEBUG (busy_message 0), Sleep_ms 10,
      Step stmt, Log DEBUG (busy_message 1), Sleep_ms 20,
      Step stmt, Log DEBUG (busy_message 2), Sleep_ms 40,
      Step stmt, Log DEBUG (busy_message 3), Sleep_ms 80,
      Step stmt, Log DEBUG (busy_message 4), Sleep_ms 160]"
proof -
  have "[0..<5] = [0, 1, 2, 3, 4::nat]"
    by (simp add: upt_rec eval_nat_numeral)
  then show ?thesis
    by (simp add: retry_events_def)
qed

lemma write_loop_busy:
  "\<forall>r\<in>set bs. rc r = SQLITE_BUSY \<Longrightarrow> retries + length bs \<le> SQLITE_MAX_RETRIES \<Longrightarrow>
   executeSQLWithParams_loop stmt (bs @ rest) retries st =
   executeSQLWithParams_loop stmt rest (retries + length bs)
     (emits (retry_events stmt retries (length bs)) st)"
proof (induction bs arbitrary: retries st)
  case Nil
  then show ?case by simp
next
  case (Cons b bs)
  let ?once = "[Step stmt, Log DEBUG (busy_message retries), Sleep_ms (10 * 2 ^ retries)]"
  have "executeSQLWithParams_loop stmt ((b # bs) @ rest) retries st =
        executeSQLWithParams_loop stmt (bs @ rest) (Suc retries) (emits ?once st)"
    using Cons.prems by (simp add: emit_emits log_emits Let_def)
  also have "\<dots> = executeSQLWithParams_loop stmt rest (Suc retries + length bs)
          (emits (retry_events stmt (Suc retries) (length bs)) (emits ?once st))"
    using Cons.prems by (intro Cons.IH) auto
  finally show ?case by (simp add: retry_events_Suc)
qed

lemma write_loop_last:
  "rc r \<noteq> SQLITE_BUSY \<or> retries = SQLITE_MAX_RETRIES \<Longrightarrow>
   executeSQLWithParams_loop stmt (r # rest) retries st = Some (rc r, emits [Step stmt] st)"
  by (auto simp add: emit_emits Let_def)

text \<open>
  C1, as the code has it. Once the statement is bound: when the store answers busy to
  six steps in a row, \<open>executeSQLWithParams\<close> returns false, and what it did after
  the binding was to take the exclusive lock, step six times, sleeping 10, 20, 40, 80
  and 160 ms between the steps, release the lock and log the failure. When the store
  answers busy at most five times and then done, it returns true after that many
  retries and one more step, all inside the one exclusive section.
\<close>

theorem executeSQLWithParams_retry_budget:
  assumes "reset_and_bind env sql params
             (log DEBUG (''Executing SQL: '' @ sql @ '' with '' @ to_string_nat (length params)
                           @ '' parameters'') st) = Inr (stmt, st3)"
    and "\<forall>r\<in>set bs. rc r = SQLITE_BUSY"
  shows "(length bs = 6 \<longrightarrow>
            executeSQLWithParams env sql params (bs @ rest) st =
              Some (False, emits
                [Db_lock,
                 Step stmt, Log DEBUG (busy_message 0), Sleep_ms 10,
                 Step stmt, Log DEBUG (busy_message 1), Sleep_ms 20,
                 Step stmt, Log DEBUG (busy_message 2), Sleep_ms 40,
                 Step stmt, Log DEBUG (busy_message 3), Sleep_ms 80,
                 Step stmt, Log DEBUG (busy_message 4), Sleep_ms 160,
                 Step stmt,
                 Db_unlock,
                 Log ERROR (''Failed to execute SQL: '' @ errmsg env)] st3))
       \<and> (length bs \<le> 5 \<and> rc d = SQLITE_DONE \<longrightarrow>
            executeSQLWithParams env sql params (bs @ d # rest) st =
              Some (True, emits (Db_lock # retry_events stmt 0 (length bs) @ [Step stmt, Db_unlock]) st3))"
proof (intro conjI impI)
  assume "length bs = 6"
  then obtain bs5 b where bs: "bs = bs5 @ [b]" and len5: "length bs5 = 5"
    by (cases bs rule: rev_cases) auto
  have "executeSQLWithParams_loop stmt (bs @ rest) 0 (emit Db_lock st3) =
        executeSQLWithParams_loop stmt (b # rest) 5 (emits (retry_events stmt 0 5) (emit Db_lock st3))"
    using write_loop_busy [of bs5 0 stmt "b # rest" "emit Db_lock st3"] assms(2) len5
    by (simp add: bs SQLITE_MAX_RETRIES_def)
  also have "\<dots> = Some (SQLITE_BUSY, emits [Step stmt] (emits (retry_events stmt 0 5) (emit Db_lock st3)))"
    using write_loop_last [of b 5 stmt rest] assms(2) by (simp add: bs SQLITE_MAX_RETRIES_def)
  finally show "executeSQLWithParams env sql params (bs @ rest) st =
              Some (False, emits
                [Db_lock,
                 Step stmt, Log DEBUG (busy_message 0), Sleep_ms 10,
                 Step stmt, Log DEBUG (busy_message 1), Sleep_ms 20,
                 Step stmt, Log DEBUG (busy_message 2), Sleep_ms 40,
                 Step stmt, Log DEBUG (busy_message 3), Sleep_ms 80,
                 Step stmt, Log DEBUG (busy_message 4), Sleep_ms 160,
                 Step stmt,
                 Db_unlock,
                 Log ERROR (''Failed to execute SQL: '' @ errmsg env)] st3)"
    using assms(1)
    by (simp add: executeSQLWithParams_def emit_emits log_emits retry_events_5
        SQLITE_BUSY_def SQLITE_DONE_def)
next
  assume a: "length bs \<le> 5 \<and> rc d = SQLITE_DONE"
  have "executeSQLWithParams_loop stmt (bs @ d # rest) 0 (emit Db_lock st3) =
        executeSQLWithParams_loop stmt (d # rest) (length bs)
          (emits (retry_events stmt 0 (length bs)) (emit Db_lock st3))"
    using write_loop_busy [of bs 0 stmt "d # rest" "emit Db_lock st3"] assms(2) a
    by (simp add: SQLITE_MAX_RETRIES_def)
  also have "\<dots> = Some (SQLITE_DONE,
      emits [Step stmt] (emits (retry_events stmt 0 (length bs)) (emit Db_lock st3)))"
    using write_loop_last [of d "length bs" stmt rest] a
    by (simp add: SQLITE_BUSY_def SQLITE_DONE_def)
  finally show "executeSQLWithParams env sql params (bs @ d # rest) st =
              Some (True, emits (Db_lock # retry_events stmt 0 (length bs) @ [Step stmt, Db_unlock]) st3)"
    using assms(1)
    by (simp add: executeSQLWithParams_def emit_emits log_emits)
qed

theorem executeSQLWithParams_retry_budget_witness:
  "write_report (executeSQLWithParams accepting deleteBook_sql [''7'']
                   ([busy, busy, busy, busy, busy, busy] @ [finished]) fresh) =
     Some (False,
       [Log DEBUG (''Executing SQL: '' @ deleteBook_sql @ '' with 1 parameters''),
        Cache_lock_shared, Cache_unlock_shared, Cache_lock, Prepare deleteBook_sql 0 1, Cache_unlock,
        Reset 1, Clear_bindings 1, Bind_text 1 1 ''7'' SQLITE_TRANSIENT,
        Db_lock,
        Step 1, Log DEBUG ''Database busy, retrying... (1/5)'', Sleep_ms 10,
        Step 1, Log DEBUG ''Database busy, retrying... (2/5)'', Sleep_ms 20,
        Step 1, Log DEBUG ''Database busy, retrying... (3/5)'', Sleep_ms 40,
        Step 1, Log DEBUG ''Database busy, retrying... (4/5)'', Sleep_ms 80,
        Step 1, Log DEBUG ''Database busy, retrying... (5/5)'', Sleep_ms 160,
        Step 1,
        Db_unlock,
        Log ERROR ''Failed to execute SQL: database is locked''])
   \<and> write_report (executeSQLWithParams accepting deleteBook_sql [''7'']
                     ([busy, busy] @ finished # []) fresh) =
     Some (True,
       [Log DEBUG (''Executing SQL: '' @ deleteBook_sql @ '' with 1 parameters''),
        Cache_lock_shared, Cache_unlock_shared, Cache_lock, Prepare deleteBook_sql 0 1, Cache_unlock,
        Reset 1, Clear_bindings 1, Bind_text 1 1 ''7'' SQLITE_TRANSIENT,
        Db_lock,
        Step 1, Log DEBUG ''Database busy, retrying... (1/5)'', Sleep_ms 10,
        Step 1, Log DEBUG ''Database busy, retrying... (2/5)'', Sleep_ms 20,
        Step 1,
        Db_unlock])"
proof -
  let ?st3 = "emits
     [Log DEBUG (''Executing SQL: '' @ deleteBook_sql @ '' with 1 parameters''),
      Cache_lock_shared, Cache_unlock_shared, Cache_lock, Prepare deleteBook_sql 0 1, Cache_unlock,
      Reset 1, Clear_bindings 1, Bind_text 1 1 ''7'' SQLITE_TRANSIENT]
     (fresh\<lparr>stmt_cache := [(deleteBook_sql, 1)]\<rparr>)"
  have ready: "reset_and_bind accepting deleteBook_sql [''7'']
      (log DEBUG (''Executing SQL: '' @ deleteBook_sql @ '' with ''
         @ to_string_nat (length [''7'']) @ '' parameters'') fresh) = Inr (1, ?st3)"
    by (simp add: eval_defs codes samples emit_def emits_def)
  have six: "\<forall>r\<in>set [busy, busy, busy, busy, busy, busy]. rc r = SQLITE_BUSY"
    and two: "\<forall>r\<in>set [busy, busy]. rc r = SQLITE_BUSY"
    and fin: "rc finished = SQLITE_DONE"
    by (simp_all add: busy_def finished_def codes)
  show ?thesis
    using executeSQLWithParams_retry_budget [OF ready six, of "[finished]" finished]
      executeSQLWithParams_retry_budget [OF ready two, of "[]" finished] fin
    by (simp add: write_report_def retry_events_Suc busy_message_def to_string_nat.simps
        digit_char_def SQLITE_MAX_RETRIES_def fresh_def accepting_def)
qed

text \<open>
  C1 as the claim has it fails: with a store that is busy at every step the write gives
  up after the sixth \<^verbatim>\<open>sqlite3_step\<close>, not after the fifth. The five sleeps stand
  between six attempts.
\<close>

theorem executeSQLWithParams_always_busy_counterexample:
  "write_report (executeSQLWithParams accepting deleteBook_sql [''7'']
                   [busy, busy, busy, busy, busy, busy, busy, busy] fresh) =
     Some (False,
       [Log DEBUG (''Executing SQL: '' @ deleteBook_sql @ '' with 1 parameters''),
        Cache_lock_shared, Cache_unlock_shared, Cache_lock, Prepare deleteBook_sql 0 1, Cache_unlock,
        Reset 1, Clear_bindings 1, Bind_text 1 1 ''7'' SQLITE_TRANSIENT,
        Db_lock,
        Step 1, Log DEBUG ''Database busy, retrying... (1/5)'', Sleep_ms 10,
        Step 1, Log DEBUG ''Database busy, retrying... (2/5)'', Sleep_ms 20,
        Step 1, Log DEBUG ''Database busy, retrying... (3/5)'', Sleep_ms 40,
        Step 1, Log DEBUG ''Database busy, retrying... (4/5)'', Sleep_ms 80,
        Step 1, Log DEBUG ''Database busy, retrying... (5/5)'', Sleep_ms 160,
        Step 1,
        Db_unlock,
        Log ERROR ''Failed to execute SQL: database is locked''])
   \<and> map_option (step_calls \<circ> snd)
        (write_report (executeSQLWithParams accepting deleteBook_sql [''7'']
                         [busy, busy, busy, busy, busy, busy, busy, busy] fresh)) \<noteq> Some 5"
  by (simp add: write_report_def eval_defs codes samples)

subsection \<open>The loop of a scan\<close>

lemma sleeps_append [simp]: "sleeps (a @ b) = sleeps a @ sleeps b"
  by (induction a rule: sleeps.induct) auto

lemma step_calls_append [simp]: "step_calls (a @ b) = step_calls a + step_calls b"
  by (induction a rule: step_calls.induct) auto

lemma logged_errors_append [simp]: "logged_errors (a @ b) = logged_errors a @ logged_errors b"
  by (induction a rule: logged_errors.induct) auto

lemma shared_per_step_append:
  "shared_per_step g a \<Longrightarrow> shared_per_step Free b \<Longrightarrow> shared_per_step g (a @ b)"
  by (induction g a rule: shared_per_step.induct) auto

text \<open>
  Whatever the store answers, a scan that ends has slept a prefix of 10, 20, 40, 80, 160:
  the counter \<open>retries\<close> only grows, and every step stood alone inside a shared lock.
\<close>

lemma read_loop_trace:
  "executeQuery_loop env stmt script retries results st = Some (books, st') \<Longrightarrow>
   retries \<le> SQLITE_MAX_RETRIES \<Longrightarrow>
   \<exists>evs n. st' = emits evs st \<and> retries + n \<le> SQLITE_MAX_RETRIES
     \<and> sleeps evs = map (\<lambda>k. 10 * 2 ^ k) [retries..<retries + n]
     \<and> shared_per_step Free evs \<and> 0 < step_calls evs"
proof (induction script arbitrary: retries results st)
  case Nil
  then show ?case by simp
next
  case (Cons r script)
  let ?triple = "[Db_lock_shared, Step stmt, Db_unlock_shared]"
  consider (row) "rc r = SQLITE_ROW"
    | (busy) "rc r \<noteq> SQLITE_ROW" "rc r = SQLITE_BUSY" "retries < SQLITE_MAX_RETRIES"
    | (stop) "rc r \<noteq> SQLITE_ROW" "\<not> (rc r = SQLITE_BUSY \<and> retries < SQLITE_MAX_RETRIES)"
    by blast
  then show ?case
  proof cases
    case row
    with Cons.prems have "executeQuery_loop env stmt script retries (results @ [book_of_row r])
        (emits ?triple st) = Some (books, st')"
      by (simp add: emit_emits Let_def)
    from Cons.IH [OF this Cons.prems(2)] obtain evs n where
      "st' = emits evs (emits ?triple st)" "retries + n \<le> SQLITE_MAX_RETRIES"
      "sleeps evs = map (\<lambda>k. 10 * 2 ^ k) [retries..<retries + n]" "shared_per_step Free evs"
      by blast
    then have "st' = emits (?triple @ evs) st \<and> retries + n \<le> SQLITE_MAX_RETRIES
        \<and> sleeps (?triple @ evs) = map (\<lambda>k. 10 * 2 ^ k) [retries..<retries + n]
        \<and> shared_per_step Free (?triple @ evs) \<and> 0 < step_calls (?triple @ evs)"
      by simp
    then show ?thesis by blast
  next
    case busy
    let ?once = "?triple @ [Log DEBUG (busy_message retries), Sleep_ms (10 * 2 ^ retries)]"
    from busy Cons.prems have "executeQuery_loop env stmt script (Suc retries) results
        (emits ?once st) = Some (books, st')"
      by (simp add: emit_emits log_emits Let_def)
    moreover have "Suc retries \<le> SQLITE_MAX_RETRIES"
      using busy by simp
    ultimately obtain evs n where
      evs: "st' = emits evs (emits ?once st)" "Suc retries + n \<le> SQLITE_MAX_RETRIES"
      "sleeps evs = map (\<lambda>k. 10 * 2 ^ k) [Suc retries..<Suc retries + n]" "shared_per_step Free evs"
      using Cons.IH by blast
    have "[retries..<retries + Suc n] = retries # [Suc retries..<Suc retries + n]"
      by (simp add: upt_rec)
    with evs have "st' = emits (?once @ evs) st \<and> retries + Suc n \<le> SQLITE_MAX_RETRIES
        \<and> sleeps (?once @ evs) = map (\<lambda>k. 10 * 2 ^ k) [retries..<retries + Suc n]
        \<and> shared_per_step Free (?once @ evs) \<and> 0 < step_calls (?once @ evs)"
      by simp
    then show ?thesis by blast
  next
    case stop
    then have "st' = emits ?triple st
        \<or> st' = emits (?triple @ [Log ERROR (''Failed to execute query: '' @ errmsg env)]) st"
      using Cons.prems(1) by (auto simp add: emit_emits log_emits Let_def split: if_splits)
    then have "\<exists>evs. st' = emits evs st \<and> retries + 0 \<le> SQLITE_MAX_RETRIES
        \<and> sleeps evs = map (\<lambda>k. 10 * 2 ^ k) [retries..<retries + 0]
        \<and> shared_per_step Free evs \<and> 0 < step_calls evs"
      using Cons.prems(2) by auto
    then show ?thesis by blast
  qed
qed

text \<open>The records returned are the rows read, marshalled, in the order they were read.\<close>

lemma read_loop_books:
  "executeQuery_loop env stmt script retries results st = Some (books, st') \<Longrightarrow>
   \<exists>rows. books = results @ map book_of_row rows \<and> set rows \<subseteq> {r \<in> set script. rc r = SQLITE_ROW}"
proof (induction script arbitrary: retries results st)
  case Nil
  then show ?case by simp
next
  case (Cons r script)
  show ?case
  proof (cases "rc r = SQLITE_ROW")
    case True
    with Cons.prems obtain rows where
      "books = (results @ [book_of_row r]) @ map book_of_row rows"
      "set rows \<subseteq> {r \<in> set script. rc r = SQLITE_ROW}"
      using Cons.IH by (fastforce simp add: Let_def)
    with True have "books = results @ map book_of_row (r # rows)
        \<and> set (r # rows) \<subseteq> {x \<in> set (r # script). rc x = SQLITE_ROW}"
      by auto
    then show ?thesis by blast
  next
    case False
    show ?thesis
    proof (cases "rc r = SQLITE_BUSY \<and> retries < SQLITE_MAX_RETRIES")
      case True
      with False Cons.prems obtain rows where
        "books = results @ map book_of_row rows" "set rows \<subseteq> {r \<in> set script. rc r = SQLITE_ROW}"
        using Cons.IH by (fastforce simp add: Let_def)
      then have "books = results @ map book_of_row rows
          \<and> set rows \<subseteq> {x \<in> set (r # script). rc x = SQLITE_ROW}"
        by auto
      then show ?thesis by blast
    next
      case stop: False
      with False Cons.prems have "books = results @ map book_of_row []"
        by (auto simp add: Let_def split: if_splits)
      then show ?thesis by (metis empty_set empty_subsetI)
    qed
  qed
qed

text \<open>
  A stretch of rows and busy answers within the budget is consumed whole: the rows are
  appended, the busy answers counted, nothing is logged as an error.
\<close>

lemma read_loop_prefix:
  "\<forall>r\<in>set pre. rc r = SQLITE_ROW \<or> rc r = SQLITE_BUSY \<Longrightarrow>
   retries + length (filter (\<lambda>r. rc r = SQLITE_BUSY) pre) \<le> SQLITE_MAX_RETRIES \<Longrightarrow>
   \<exists>evs. executeQuery_loop env stmt (pre @ rest) retries results st =
          executeQuery_loop env stmt rest (retries + length (filter (\<lambda>r. rc r = SQLITE_BUSY) pre))
            (results @ map book_of_row (filter (\<lambda>r. rc r = SQLITE_ROW) pre)) (emits evs st)
        \<and> logged_errors evs = []"
proof (induction pre arbitrary: retries results st)
  case Nil
  have "executeQuery_loop env stmt ([] @ rest) retries results st =
      executeQuery_loop env stmt rest (retries + length (filter (\<lambda>r. rc r = SQLITE_BUSY) []))
        (results @ map book_of_row (filter (\<lambda>r. rc r = SQLITE_ROW) [])) (emits [] st)
      \<and> logged_errors [] = []"
    by simp
  then show ?case by blast
next
  case (Cons r pre)
  let ?triple = "[Db_lock_shared, Step stmt, Db_unlock_shared]"
  show ?case
  proof (cases "rc r = SQLITE_ROW")
    case True
    then have nb: "rc r \<noteq> SQLITE_BUSY"
      by (simp add: codes)
    from Cons.prems nb obtain evs where
      "executeQuery_loop env stmt (pre @ rest) retries (results @ [book_of_row r]) (emits ?triple st) =
       executeQuery_loop env stmt rest (retries + length (filter (\<lambda>r. rc r = SQLITE_BUSY) pre))
         ((results @ [book_of_row r]) @ map book_of_row (filter (\<lambda>r. rc r = SQLITE_ROW) pre))
         (emits evs (emits ?triple st))" "logged_errors evs = []"
      using Cons.IH [of retries "results @ [book_of_row r]" "emits ?triple st"] by auto
    with True nb have "executeQuery_loop env stmt ((r # pre) @ rest) retries results st =
        executeQuery_loop env stmt rest (retries + length (filter (\<lambda>r. rc r = SQLITE_BUSY) (r # pre)))
          (results @ map book_of_row (filter (\<lambda>r. rc r = SQLITE_ROW) (r # pre)))
          (emits (?triple @ evs) st)
        \<and> logged_errors (?triple @ evs) = []"
      by (simp add: emit_emits Let_def)
    then show ?thesis by blast
  next
    case False
    with Cons.prems have b: "rc r = SQLITE_BUSY" and lt: "retries < SQLITE_MAX_RETRIES"
      by auto
    let ?once = "?triple @ [Log DEBUG (busy_message retries), Sleep_ms (10 * 2 ^ retries)]"
    from Cons.prems b obtain evs where
      "executeQuery_loop env stmt (pre @ rest) (Suc retries) results (emits ?once st) =
       executeQuery_loop env stmt rest (Suc retries + length (filter (\<lambda>r. rc r = SQLITE_BUSY) pre))
         (results @ map book_of_row (filter (\<lambda>r. rc r = SQLITE_ROW) pre))
         (emits evs (emits ?once st))" "logged_errors evs = []"
      using Cons.IH [of "Suc retries" results "emits ?once st"] by auto
    with False b lt have "executeQuery_loop env stmt ((r # pre) @ rest) retries results st =
        executeQuery_loop env stmt rest (retries + length (filter (\<lambda>r. rc r = SQLITE_BUSY) (r # pre)))
          (results @ map book_of_row (filter (\<lambda>r. rc r = SQLITE_ROW) (r # pre)))
          (emits (?once @ evs) st)
        \<and> logged_errors (?once @ evs) = []"
      by (simp add: emit_emits log_emits Let_def)
    then show ?thesis by blast
  qed
qed

lemma read_loop_last:
  "rc t \<noteq> SQLITE_ROW \<Longrightarrow> rc t = SQLITE_BUSY \<longrightarrow> retries = SQLITE_MAX_RETRIES \<Longrightarrow>
   executeQuery_loop env stmt (t # rest) retries results st =
     Some (results,
       emits ([Db_lock_shared, Step stmt, Db_unlock_shared]
                @ (if rc t = SQLITE_DONE then []
                   else [Log ERROR (''Failed to execute query: '' @ errmsg env)])) st)"
  by (auto simp add: emit_emits log_emits Let_def codes)

lemma executeQuery_scan:
  assumes ready: "reset_and_bind env sql params (log DEBUG (''Executing query: '' @ sql) st) = Inr (stmt, st3)"
    and pre: "\<forall>r\<in>set pre. rc r = SQLITE_ROW \<or> rc r = SQLITE_BUSY"
    and budget: "length (filter (\<lambda>r. rc r = SQLITE_BUSY) pre) \<le> SQLITE_MAX_RETRIES"
    and last: "rc t \<noteq> SQLITE_ROW"
      "rc t = SQLITE_BUSY \<longrightarrow> length (filter (\<lambda>r. rc r = SQLITE_BUSY) pre) = SQLITE_MAX_RETRIES"
  shows "\<exists>evs. executeQuery env sql params (pre @ t # rest) st =
            Some (map book_of_row (filter (\<lambda>r. rc r = SQLITE_ROW) pre), emits evs st3)
          \<and> logged_errors evs =
              (if rc t = SQLITE_DONE then [] else [''Failed to execute query: '' @ errmsg env])"
proof -
  let ?books = "map book_of_row (filter (\<lambda>r. rc r = SQLITE_ROW) pre)"
  let ?k = "length (filter (\<lambda>r. rc r = SQLITE_BUSY) pre)"
  let ?end = "[Db_lock_shared, Step stmt, Db_unlock_shared]
                @ (if rc t = SQLITE_DONE then []
                   else [Log ERROR (''Failed to execute query: '' @ errmsg env)])"
  let ?said = "if ?books \<noteq> []
               then Log DEBUG (''Query returned '' @ to_string_nat (length ?books) @ '' results'')
               else Log DEBUG ''Query returned no results''"
  from read_loop_prefix [of pre 0 env stmt "t # rest" "[]" st3] pre budget obtain evs where
    evs: "executeQuery_loop env stmt (pre @ t # rest) 0 [] st3 =
          executeQuery_loop env stmt (t # rest) ?k ?books (emits evs st3)"
      "logged_errors evs = []"
    by auto
  have "executeQuery_loop env stmt (t # rest) ?k ?books (emits evs st3) =
      Some (?books, emits ?end (emits evs st3))"
    using last by (intro read_loop_last) auto
  with evs(1) have loop: "executeQuery_loop env stmt (pre @ t # rest) 0 [] st3 =
      Some (?books, emits (evs @ ?end) st3)"
    by simp
  have "executeQuery env sql params (pre @ t # rest) st = Some (?books, emits (evs @ ?end @ [?said]) st3)"
    using ready loop by (simp add: executeQuery_def log_emits)
  moreover have "logged_errors (evs @ ?end @ [?said]) =
      (if rc t = SQLITE_DONE then [] else [''Failed to execute query: '' @ errmsg env])"
    using evs(2) by simp
  ultimately show ?thesis by blast
qed




text \<open>
  C6. Once the statement is bound: when the store answers with rows (and busy answers
  within the budget) and then with a code that ends the scan, \<open>executeQuery\<close> returns
  one record for each row read before that code, in order. When the code is
  \<open>SQLITE_DONE\<close> no error is logged; when it is any other code (or a busy answer after
  the last retry), the rows read so far are still returned and the error is logged once.
\<close>

theorem executeQuery_partial_results:
  assumes "reset_and_bind env sql params (log DEBUG (''Executing query: '' @ sql) st) = Inr (stmt, st3)"
    and "\<forall>r\<in>set pre. rc r = SQLITE_ROW \<or> rc r = SQLITE_BUSY"
    and "length (filter (\<lambda>r. rc r = SQLITE_BUSY) pre) \<le> 5"
    and "rc t \<noteq> SQLITE_ROW"
    and "rc t = SQLITE_BUSY \<longrightarrow> length (filter (\<lambda>r. rc r = SQLITE_BUSY) pre) = 5"
  shows "\<exists>st'. executeQuery env sql params (pre @ t # rest) st =
                  Some (map book_of_row (filter (\<lambda>r. rc r = SQLITE_ROW) pre), st')
           \<and> logged_errors (drop (length (trace st3)) (trace st')) =
               (if rc t = SQLITE_DONE then [] else [''Failed to execute query: '' @ errmsg env])"
proof -
  from executeQuery_scan [OF assms(1,2), of t rest] assms(3-5) obtain evs where
    "executeQuery env sql params (pre @ t # rest) st =
       Some (map book_of_row (filter (\<lambda>r. rc r = SQLITE_ROW) pre), emits evs st3)"
    "logged_errors evs = (if rc t = SQLITE_DONE then [] else [''Failed to execute query: '' @ errmsg env])"
    by (auto simp add: SQLITE_MAX_RETRIES_def)
  then have "executeQuery env sql params (pre @ t # rest) st =
       Some (map book_of_row (filter (\<lambda>r. rc r = SQLITE_ROW) pre), emits evs st3)
     \<and> logged_errors (drop (length (trace st3)) (trace (emits evs st3))) =
         (if rc t = SQLITE_DONE then [] else [''Failed to execute query: '' @ errmsg env])"
    by simp
  then show ?thesis by blast
qed

theorem executeQuery_partial_results_witness:
  "map_option fst (read_report (executeQuery accepting displayBooks_sql []
       ([row 1 (Some ''A'') (Some ''B''), busy, row 2 (Some ''C'') (Some ''D'')] @ failed # [finished]) fresh)) =
     Some [\<lparr>id_field = 1, title = ''A'', author = ''B''\<rparr>, \<lparr>id_field = 2, title = ''C'', author = ''D''\<rparr>]
   \<and> map_option (logged_errors \<circ> snd) (read_report (executeQuery accepting displayBooks_sql []
       ([row 1 (Some ''A'') (Some ''B''), busy, row 2 (Some ''C'') (Some ''D'')] @ failed # [finished]) fresh)) =
     Some [''Failed to execute query: database is locked'']
   \<and> map_option fst (read_report (executeQuery accepting displayBooks_sql []
       ([row 1 (Some ''A'') (Some ''B''), busy, row 2 (Some ''C'') (Some ''D'')] @ finished # []) fresh)) =
     Some [\<lparr>id_field = 1, title = ''A'', author = ''B''\<rparr>, \<lparr>id_field = 2, title = ''C'', author = ''D''\<rparr>]
   \<and> map_option (logged_errors \<circ> snd) (read_report (executeQuery accepting displayBooks_sql []
       ([row 1 (Some ''A'') (Some ''B''), busy, row 2 (Some ''C'') (Some ''D'')] @ finished # []) fresh)) =
     Some []"
proof -
  let ?st3 = "emits
     [Log DEBUG (''Executing query: '' @ displayBooks_sql),
      Cache_lock_shared, Cache_unlock_shared, Cache_lock, Prepare displayBooks_sql 0 1, Cache_unlock,
      Reset 1, Clear_bindings 1]
     (fresh\<lparr>stmt_cache := [(displayBooks_sql, 1)]\<rparr>)"
  let ?pre = "[row 1 (Some ''A'') (Some ''B''), busy, row 2 (Some ''C'') (Some ''D'')]"
  have ready: "reset_and_bind accepting displayBooks_sql []
      (log DEBUG (''Executing query: '' @ displayBooks_sql) fresh) = Inr (1, ?st3)"
    by (simp add: eval_defs codes samples emit_def emits_def)
  have pre: "\<forall>r\<in>set ?pre. rc r = SQLITE_ROW \<or> rc r = SQLITE_BUSY"
    and budget: "length (filter (\<lambda>r. rc r = SQLITE_BUSY) ?pre) \<le> 5"
    and bad: "rc failed \<noteq> SQLITE_ROW" "rc failed = SQLITE_BUSY \<longrightarrow> length (filter (\<lambda>r. rc r = SQLITE_BUSY) ?pre) = 5"
    and good: "rc finished \<noteq> SQLITE_ROW" "rc finished = SQLITE_BUSY \<longrightarrow> length (filter (\<lambda>r. rc r = SQLITE_BUSY) ?pre) = 5"
    by (simp_all add: codes samples)
  have books: "map book_of_row (filter (\<lambda>r. rc r = SQLITE_ROW) ?pre) =
      [\<lparr>id_field = 1, title = ''A'', author = ''B''\<rparr>, \<lparr>id_field = 2, title = ''C'', author = ''D''\<rparr>]"
    by (simp add: book_of_row_def codes samples)
  from executeQuery_partial_results [OF ready pre budget bad, of "[finished]"]
  obtain st1 where 1: "executeQuery accepting displayBooks_sql [] (?pre @ failed # [finished]) fresh =
      Some (map book_of_row (filter (\<lambda>r. rc r = SQLITE_ROW) ?pre), st1)"
    "logged_errors (drop (length (trace ?st3)) (trace st1)) =
      (if rc failed = SQLITE_DONE then [] else [''Failed to execute query: '' @ errmsg accepting])"
    by blast
  from executeQuery_partial_results [OF ready pre budget good, of "[]"]
  obtain st2 where 2: "executeQuery accepting displayBooks_sql [] (?pre @ finished # []) fresh =
      Some (map book_of_row (filter (\<lambda>r. rc r = SQLITE_ROW) ?pre), st2)"
    "logged_errors (drop (length (trace ?st3)) (trace st2)) =
      (if rc finished = SQLITE_DONE then [] else [''Failed to execute query: '' @ errmsg accepting])"
    by blast
  have "logged_errors (trace st1) = [''Failed to execute query: database is locked'']"
    using 1(1) by (simp add: eval_defs codes samples book_of_row_def) (auto simp add: emit_def)
  moreover have "logged_errors (trace st2) = []"
    using 2(1) by (simp add: eval_defs codes samples book_of_row_def) (auto simp add: emit_def)
  ultimately show ?thesis
    using 1(1) 2(1) books by (simp add: read_report_def)
qed

lemma read_loop_returns:
  "\<exists>r\<in>set script. rc r \<noteq> SQLITE_ROW \<and> rc r \<noteq> SQLITE_BUSY \<Longrightarrow>
   \<exists>books st'. executeQuery_loop env stmt script retries results st = Some (books, st')"
proof (induction script arbitrary: retries results st)
  case Nil
  then show ?case by simp
next
  case (Cons r script)
  show ?case
  proof (cases "rc r = SQLITE_ROW \<or> (rc r = SQLITE_BUSY \<and> retries < SQLITE_MAX_RETRIES)")
    case True
    with Cons.prems have "\<exists>r\<in>set script. rc r \<noteq> SQLITE_ROW \<and> rc r \<noteq> SQLITE_BUSY"
      by auto
    from Cons.IH [OF this] True show ?thesis
      by (auto simp add: Let_def codes)
  next
    case False
    then show ?thesis
      by (auto simp add: Let_def)
  qed
qed

lemma write_loop_returns:
  "(\<exists>r\<in>set script. rc r \<noteq> SQLITE_BUSY)
     \<or> (script \<noteq> [] \<and> SQLITE_MAX_RETRIES < retries + length script) \<Longrightarrow>
   \<exists>code st'. executeSQLWithParams_loop stmt script retries st = Some (code, st')"
proof (induction script arbitrary: retries st)
  case Nil
  then show ?case by simp
next
  case (Cons r script)
  show ?case
  proof (cases "rc r = SQLITE_BUSY \<and> retries < SQLITE_MAX_RETRIES")
    case True
    with Cons.prems have "(\<exists>r\<in>set script. rc r \<noteq> SQLITE_BUSY)
        \<or> (script \<noteq> [] \<and> SQLITE_MAX_RETRIES < (retries + 1) + length script)"
      by (cases script) auto
    from Cons.IH [OF this] True show ?thesis
      by (simp add: Let_def)
  next
    case False
    then show ?thesis
      by (auto simp add: Let_def)
  qed
qed

text \<open>
  Both functions return whenever the store's answers suffice: a read as soon as the
  script holds an answer that is neither a row nor busy, a write as soon as it holds an
  answer that is not busy or more than five answers.
\<close>

lemma executeQuery_returns:
  assumes "\<exists>r\<in>set script. rc r \<noteq> SQLITE_ROW \<and> rc r \<noteq> SQLITE_BUSY"
  shows "\<exists>books st'. executeQuery env sql params script st = Some (books, st')"
proof (cases "reset_and_bind env sql params (log DEBUG (''Executing query: '' @ sql) st)")
  case (Inl st3)
  then show ?thesis
    by (simp add: executeQuery_def)
next
  case (Inr ready)
  obtain stmt st3 where "ready = (stmt, st3)"
    by (cases ready)
  with Inr read_loop_returns [OF assms, of env stmt 0 "[]" st3] show ?thesis
    by (auto simp add: executeQuery_def)
qed

lemma executeSQLWithParams_returns:
  assumes "(\<exists>r\<in>set script. rc r \<noteq> SQLITE_BUSY) \<or> 5 < length script"
  shows "\<exists>ok st'. executeSQLWithParams env sql params script st = Some (ok, st')"
proof (cases "reset_and_bind env sql params
    (log DEBUG (''Executing SQL: '' @ sql @ '' with '' @ to_string_nat (length params)
                  @ '' parameters'') st)")
  case (Inl st3)
  then show ?thesis
    by (auto simp add: executeSQLWithParams_def)
next
  case (Inr ready)
  obtain stmt st3 where "ready = (stmt, st3)"
    by (cases ready)
  moreover from assms have "(\<exists>r\<in>set script. rc r \<noteq> SQLITE_BUSY)
      \<or> (script \<noteq> [] \<and> SQLITE_MAX_RETRIES < 0 + length script)"
    by (auto simp add: SQLITE_MAX_RETRIES_def)
  from write_loop_returns [OF this, of stmt "emit Db_lock st3"] obtain code st4 where
    "executeSQLWithParams_loop stmt script 0 (emit Db_lock st3) = Some (code, st4)"
    by blast
  ultimately show ?thesis
    using Inr by (auto simp add: executeSQLWithParams_def Let_def)
qed

text \<open>
  \<open>log\<close> writes a message of level ERROR whenever the file is open, in either build and
  at any current level; with the file closed it writes nothing.
\<close>

lemma log_writes_errors:
  "log_writes debug_mode current True ERROR"
  "\<not> log_writes debug_mode current False level"
  by (cases current; simp add: log_writes_def)+

text \<open>
  C10. Every record \<open>executeQuery\<close> returns is the image of a row the store gave: its
  id is the integer column, its title and author the text columns, with the empty
  string where the store gave a null pointer. And it does return, whatever the columns
  hold, as soon as the store's answers contain one that ends the scan.
\<close>

theorem executeQuery_null_text_is_empty:
  "(executeQuery env sql params script st = Some (books, st') \<longrightarrow>
      (\<forall>b\<in>set books. \<exists>r\<in>set script. rc r = SQLITE_ROW
           \<and> id_field b = column_int_0 r
           \<and> title b = (case column_text_1 r of None \<Rightarrow> [] | Some t \<Rightarrow> t)
           \<and> author b = (case column_text_2 r of None \<Rightarrow> [] | Some a \<Rightarrow> a)))
   \<and> ((\<exists>r\<in>set script. rc r \<noteq> SQLITE_ROW \<and> rc r \<noteq> SQLITE_BUSY) \<longrightarrow>
      (\<exists>books st'. executeQuery env sql params script st = Some (books, st')))"
proof (intro conjI impI)
  assume run: "executeQuery env sql params script st = Some (books, st')"
  show "\<forall>b\<in>set books. \<exists>r\<in>set script. rc r = SQLITE_ROW
           \<and> id_field b = column_int_0 r
           \<and> title b = (case column_text_1 r of None \<Rightarrow> [] | Some t \<Rightarrow> t)
           \<and> author b = (case column_text_2 r of None \<Rightarrow> [] | Some a \<Rightarrow> a)"
  proof (cases "reset_and_bind env sql params (log DEBUG (''Executing query: '' @ sql) st)")
    case (Inl st3)
    with run have "books = []"
      by (simp add: executeQuery_def)
    then show ?thesis by simp
  next
    case (Inr ready)
    then obtain stmt st3 where
      "reset_and_bind env sql params (log DEBUG (''Executing query: '' @ sql) st) = Inr (stmt, st3)"
      by (cases ready) auto
    with run obtain st4 where "executeQuery_loop env stmt script 0 [] st3 = Some (books, st4)"
      by (auto simp add: executeQuery_def split: option.splits)
    from read_loop_books [OF this] obtain rows where
      "books = map book_of_row rows" "set rows \<subseteq> {r \<in> set script. rc r = SQLITE_ROW}"
      by auto
    then show ?thesis
      by (auto simp add: book_of_row_def split: option.splits)
  qed
next
  assume "\<exists>r\<in>set script. rc r \<noteq> SQLITE_ROW \<and> rc r \<noteq> SQLITE_BUSY"
  then show "\<exists>books st'. executeQuery env sql params script st = Some (books, st')"
    by (rule executeQuery_returns)
qed

theorem executeQuery_null_text_is_empty_witness:
  "map_option fst (read_report (executeQuery accepting searchBook_sql [''%x%'', ''%x%'']
       [row 1 None (Some ''B''), row 2 (Some ''C'') None, finished] fresh)) =
     Some [\<lparr>id_field = 1, title = [], author = ''B''\<rparr>, \<lparr>id_field = 2, title = ''C'', author = []\<rparr>]
   \<and> (\<exists>r\<in>set [row 1 None (Some ''B''), row 2 (Some ''C'') None, finished]. rc r = SQLITE_ROW
         \<and> column_text_1 r = None
         \<and> title \<lparr>id_field = 1, title = [], author = ''B''\<rparr> =
             (case column_text_1 r of None \<Rightarrow> [] | Some t \<Rightarrow> t))"
proof -
  let ?script = "[row 1 None (Some ''B''), row 2 (Some ''C'') None, finished]"
  let ?books = "[\<lparr>id_field = 1, title = [], author = ''B''\<rparr>, \<lparr>id_field = 2, title = ''C'', author = []\<rparr>]"
  have ends: "\<exists>r\<in>set ?script. rc r \<noteq> SQLITE_ROW \<and> rc r \<noteq> SQLITE_BUSY"
    by (simp add: samples codes)
  from executeQuery_null_text_is_empty [THEN conjunct2, rule_format, OF ends]
  have "\<exists>books st'. executeQuery accepting searchBook_sql [''%x%'', ''%x%''] ?script fresh =
      Some (books, st')" .
  obtain st' where run: "executeQuery accepting searchBook_sql [''%x%'', ''%x%''] ?script fresh =
      Some (?books, st')"
    by (simp add: eval_defs codes samples book_of_row_def)
  from executeQuery_null_text_is_empty [THEN conjunct1, THEN mp, OF run]
  have "\<exists>r\<in>set ?script. rc r = SQLITE_ROW
      \<and> id_field \<lparr>id_field = 1, title = [], author = ''B''\<rparr> = column_int_0 r
      \<and> title \<lparr>id_field = 1, title = [], author = ''B''\<rparr> = (case column_text_1 r of None \<Rightarrow> [] | Some t \<Rightarrow> t)
      \<and> author \<lparr>id_field = 1, title = [], author = ''B''\<rparr> = (case column_text_2 r of None \<Rightarrow> [] | Some a \<Rightarrow> a)"
    by simp
  then have "\<exists>r\<in>set ?script. rc r = SQLITE_ROW \<and> column_text_1 r = None
      \<and> title \<lparr>id_field = 1, title = [], author = ''B''\<rparr> = (case column_text_1 r of None \<Rightarrow> [] | Some t \<Rightarrow> t)"
    by (auto simp add: samples codes)
  with run show ?thesis
    by (simp add: read_report_def)
qed

subsection \<open>Locks\<close>

lemma write_loop_trace:
  "executeSQLWithParams_loop stmt script retries st = Some (code, st') \<Longrightarrow>
   \<exists>evs. st' = emits (evs @ [Step stmt]) st \<and> (\<forall>e\<in>set evs. loop_event e)"
proof (induction script arbitrary: retries st)
  case Nil
  then show ?case by simp
next
  case (Cons r script)
  show ?case
  proof (cases "rc r = SQLITE_BUSY \<and> retries < SQLITE_MAX_RETRIES")
    case True
    let ?once = "[Step stmt, Log DEBUG (busy_message retries), Sleep_ms (10 * 2 ^ retries)]"
    from True Cons.prems have "executeSQLWithParams_loop stmt script (retries + 1) (emits ?once st) =
        Some (code, st')"
      by (simp add: emit_emits log_emits Let_def)
    from Cons.IH [OF this] obtain evs where
      "st' = emits (evs @ [Step stmt]) (emits ?once st)" "\<forall>e\<in>set evs. loop_event e"
      by blast
    then have "st' = emits ((?once @ evs) @ [Step stmt]) st \<and> (\<forall>e\<in>set (?once @ evs). loop_event e)"
      by simp
    then show ?thesis by blast
  next
    case False
    with Cons.prems have "st' = emits ([] @ [Step stmt]) st \<and> (\<forall>e\<in>set []. loop_event e)"
      by (auto simp add: emit_emits Let_def)
    then show ?thesis by blast
  qed
qed

text \<open>
  C3, the part a trace can say. A write that reached the stepping took the exclusive lock
  once, and everything between taking and releasing it is the retry loop: steps, the
  retry messages and the sleeps; nothing steps or sleeps after the release. A read that
  reached the stepping never took the exclusive lock; each of its steps stands alone
  between taking and releasing the shared lock, and its messages and sleeps happen with
  the lock released. That other readers are then not kept out follows from what a shared
  lock is, which the model does not contain.
\<close>

theorem lock_discipline:
  "(reset_and_bind env sql params
        (log DEBUG (''Executing SQL: '' @ sql @ '' with '' @ to_string_nat (length params)
                      @ '' parameters'') st) = Inr (stmt, st3)
      \<and> executeSQLWithParams env sql params script st = Some (ok, st') \<longrightarrow>
      (\<exists>evs tail. trace st' = trace st3 @ Db_lock # evs @ Db_unlock # tail
          \<and> (\<forall>e\<in>set evs. loop_event e) \<and> 0 < step_calls evs
          \<and> step_calls tail = 0 \<and> sleeps tail = []))
   \<and> (reset_and_bind env sql params (log DEBUG (''Executing query: '' @ sql) st) = Inr (stmt, st3)
      \<and> executeQuery env sql params script st = Some (books, st'') \<longrightarrow>
      (\<exists>evs. trace st'' = trace st3 @ evs \<and> shared_per_step Free evs \<and> 0 < step_calls evs))"
proof (intro conjI impI)
  assume a: "reset_and_bind env sql params
        (log DEBUG (''Executing SQL: '' @ sql @ '' with '' @ to_string_nat (length params)
                      @ '' parameters'') st) = Inr (stmt, st3)
      \<and> executeSQLWithParams env sql params script st = Some (ok, st')"
  then obtain code st4 where loop: "executeSQLWithParams_loop stmt script 0 (emit Db_lock st3) = Some (code, st4)"
    and st': "st' = (if code \<noteq> SQLITE_DONE
                    then emits [Db_unlock, Log ERROR (''Failed to execute SQL: '' @ errmsg env)] st4
                    else emits [Db_unlock] st4)"
    by (auto simp add: executeSQLWithParams_def emit_emits log_emits Let_def split: option.splits if_splits)
  from write_loop_trace [OF loop] obtain evs where
    evs: "st4 = emits (evs @ [Step stmt]) (emit Db_lock st3)" "\<forall>e\<in>set evs. loop_event e"
    by blast
  let ?tail = "if code \<noteq> SQLITE_DONE then [Log ERROR (''Failed to execute SQL: '' @ errmsg env)] else []"
  have "trace st' = trace st3 @ Db_lock # (evs @ [Step stmt]) @ Db_unlock # ?tail
      \<and> (\<forall>e\<in>set (evs @ [Step stmt]). loop_event e) \<and> 0 < step_calls (evs @ [Step stmt])
      \<and> step_calls ?tail = 0 \<and> sleeps ?tail = []"
    using st' evs by simp
  then show "\<exists>evs tail. trace st' = trace st3 @ Db_lock # evs @ Db_unlock # tail
          \<and> (\<forall>e\<in>set evs. loop_event e) \<and> 0 < step_calls evs
          \<and> step_calls tail = 0 \<and> sleeps tail = []"
    by blast
next
  assume a: "reset_and_bind env sql params (log DEBUG (''Executing query: '' @ sql) st) = Inr (stmt, st3)
      \<and> executeQuery env sql params script st = Some (books, st'')"
  then obtain st4 where loop: "executeQuery_loop env stmt script 0 [] st3 = Some (books, st4)"
    and st'': "st'' = emits [if books \<noteq> []
                 then Log DEBUG (''Query returned '' @ to_string_nat (length books) @ '' results'')
                 else Log DEBUG ''Query returned no results''] st4"
    by (auto simp add: executeQuery_def log_emits split: option.splits)
  from read_loop_trace [OF loop] obtain evs where
    evs: "st4 = emits evs st3" "shared_per_step Free evs" "0 < step_calls evs"
    by auto
  let ?said = "[if books \<noteq> []
                 then Log DEBUG (''Query returned '' @ to_string_nat (length books) @ '' results'')
                 else Log DEBUG ''Query returned no results'']"
  have "shared_per_step Free ?said"
    by simp
  with evs have "shared_per_step Free (evs @ ?said)"
    by (intro shared_per_step_append)
  with st'' evs have "trace st'' = trace st3 @ (evs @ ?said) \<and> shared_per_step Free (evs @ ?said)
      \<and> 0 < step_calls (evs @ ?said)"
    by simp
  then show "\<exists>evs. trace st'' = trace st3 @ evs \<and> shared_per_step Free evs \<and> 0 < step_calls evs"
    by blast
qed

theorem lock_discipline_witness:
  "write_report (executeSQLWithParams accepting deleteBook_sql [''7''] [busy, finished] fresh) =
     Some (True,
       [Log DEBUG (''Executing SQL: '' @ deleteBook_sql @ '' with 1 parameters''),
        Cache_lock_shared, Cache_unlock_shared, Cache_lock, Prepare deleteBook_sql 0 1, Cache_unlock,
        Reset 1, Clear_bindings 1, Bind_text 1 1 ''7'' SQLITE_TRANSIENT,
        Db_lock,
        Step 1, Log DEBUG ''Database busy, retrying... (1/5)'', Sleep_ms 10,
        Step 1,
        Db_unlock])
   \<and> read_report (executeQuery accepting displayBooks_sql []
        [busy, row 1 (Some ''A'') (Some ''B''), finished] fresh) =
     Some ([\<lparr>id_field = 1, title = ''A'', author = ''B''\<rparr>],
       [Log DEBUG (''Executing query: '' @ displayBooks_sql),
        Cache_lock_shared, Cache_unlock_shared, Cache_lock, Prepare displayBooks_sql 0 1, Cache_unlock,
        Reset 1, Clear_bindings 1,
        Db_lock_shared, Step 1, Db_unlock_shared,
        Log DEBUG ''Database busy, retrying... (1/5)'', Sleep_ms 10,
        Db_lock_shared, Step 1, Db_unlock_shared,
        Db_lock_shared, Step 1, Db_unlock_shared,
        Log DEBUG ''Query returned 1 results''])
   \<and> shared_per_step Free
       [Db_lock_shared, Step 1, Db_unlock_shared,
        Log DEBUG ''Database busy, retrying... (1/5)'', Sleep_ms 10,
        Db_lock_shared, Step 1, Db_unlock_shared,
        Db_lock_shared, Step 1, Db_unlock_shared,
        Log DEBUG ''Query returned 1 results'']"
proof -
  let ?w3 = "emits
     [Log DEBUG (''Executing SQL: '' @ deleteBook_sql @ '' with 1 parameters''),
      Cache_lock_shared, Cache_unlock_shared, Cache_lock, Prepare deleteBook_sql 0 1, Cache_unlock,
      Reset 1, Clear_bindings 1, Bind_text 1 1 ''7'' SQLITE_TRANSIENT]
     (fresh\<lparr>stmt_cache := [(deleteBook_sql, 1)]\<rparr>)"
  let ?r3 = "emits
     [Log DEBUG (''Executing query: '' @ displayBooks_sql),
      Cache_lock_shared, Cache_unlock_shared, Cache_lock, Prepare displayBooks_sql 0 1, Cache_unlock,
      Reset 1, Clear_bindings 1]
     (fresh\<lparr>stmt_cache := [(displayBooks_sql, 1)]\<rparr>)"
  let ?wevs = "[Db_lock, Step 1, Log DEBUG ''Database busy, retrying... (1/5)'', Sleep_ms 10, Step 1, Db_unlock]"
  let ?revs = "[Db_lock_shared, Step 1, Db_unlock_shared,
        Log DEBUG ''Database busy, retrying... (1/5)'', Sleep_ms 10,
        Db_lock_shared, Step 1, Db_unlock_shared,
        Db_lock_shared, Step 1, Db_unlock_shared,
        Log DEBUG ''Query returned 1 results'']"
  have w_ready: "reset_and_bind accepting deleteBook_sql [''7'']
      (log DEBUG (''Executing SQL: '' @ deleteBook_sql @ '' with ''
         @ to_string_nat (length [''7'']) @ '' parameters'') fresh) = Inr (1, ?w3)"
    by (simp add: eval_defs codes samples emit_def emits_def)
  have w_run: "executeSQLWithParams accepting deleteBook_sql [''7''] [busy, finished] fresh =
      Some (True, emits ?wevs ?w3)"
    by (simp add: eval_defs codes samples emit_def emits_def)
  have r_ready: "reset_and_bind accepting displayBooks_sql []
      (log DEBUG (''Executing query: '' @ displayBooks_sql) fresh) = Inr (1, ?r3)"
    by (simp add: eval_defs codes samples emit_def emits_def)
  have r_run: "executeQuery accepting displayBooks_sql []
      [busy, row 1 (Some ''A'') (Some ''B''), finished] fresh =
      Some ([\<lparr>id_field = 1, title = ''A'', author = ''B''\<rparr>], emits ?revs ?r3)"
    by (simp add: eval_defs codes samples emit_def emits_def book_of_row_def)
  from lock_discipline [THEN conjunct1, rule_format, OF conjI [OF w_ready w_run]]
  obtain evs tail where "trace (emits ?wevs ?w3) = trace ?w3 @ Db_lock # evs @ Db_unlock # tail"
    by blast
  from lock_discipline [THEN conjunct2, rule_format, OF conjI [OF r_ready r_run]]
  obtain evs' where "trace (emits ?revs ?r3) = trace ?r3 @ evs'" "shared_per_step Free evs'"
    by blast
  then have "shared_per_step Free ?revs"
    by simp
  then show ?thesis
    using w_run r_run by (simp add: write_report_def read_report_def fresh_def)
qed

subsection \<open>Binding\<close>

lemma upt_Suc_shift: "map f [0..<Suc n] = f 0 # map (\<lambda>j. f (Suc j)) [0..<n]"
  by (simp add: upt_rec [of 0 "Suc n"] map_Suc_upt [symmetric] del: upt_Suc)

lemma bind_params_ok:
  "\<forall>j<length ps. bind_text env stmt (i + j + 1) (ps ! j) = SQLITE_OK \<Longrightarrow>
   bind_params env stmt i ps st =
     Inr (emits (map (\<lambda>j. Bind_text stmt (i + j + 1) (ps ! j) SQLITE_TRANSIENT) [0..<length ps]) st)"
proof (induction ps arbitrary: i st)
  case Nil
  then show ?case by simp
next
  case (Cons p ps)
  from Cons.prems have first: "bind_text env stmt (i + 1) p = SQLITE_OK"
    by fastforce
  from Cons.prems have "\<forall>j<length ps. bind_text env stmt (Suc i + j + 1) (ps ! j) = SQLITE_OK"
    by fastforce
  from Cons.IH [OF this, of "emits [Bind_text stmt (i + 1) p SQLITE_TRANSIENT] st"] first
  show ?case
    by (simp add: emit_emits Let_def upt_Suc_shift del: upt_Suc)
qed




subsection \<open>The statement cache\<close>

lemma prepared_texts_append [simp]: "prepared_texts (a @ b) = prepared_texts a @ prepared_texts b"
  by (induction a rule: prepared_texts.induct) auto

lemma compiled_texts_append [simp]: "compiled_texts (a @ b) = compiled_texts a @ compiled_texts b"
  by (induction a rule: compiled_texts.induct) auto

lemma find_shared_eq:
  "find_shared sql st = (map_of (stmt_cache st) sql, emits [Cache_lock_shared, Cache_unlock_shared] st)"
  by (simp add: find_shared_def emit_emits)

lemma find_or_prepare_hit:
  "map_of (stmt_cache st) sql = Some h \<Longrightarrow>
   find_or_prepare env sql st = (h, emits [Cache_lock, Cache_unlock] st)"
  by (simp add: find_or_prepare_def emit_emits)

lemma find_or_prepare_compiled:
  "map_of (stmt_cache st) sql = None \<Longrightarrow>
   prepare_v2 env (prepare_calls (trace st)) sql = (SQLITE_OK, h) \<Longrightarrow>
   find_or_prepare env sql st =
     (h, (emits [Cache_lock, Prepare sql SQLITE_OK h, Cache_unlock] st)
            \<lparr>stmt_cache := (sql, h) # stmt_cache st\<rparr>)"
  by (simp add: find_or_prepare_def emit_def emits_def prepare_calls_def)

lemma find_or_prepare_failed:
  "map_of (stmt_cache st) sql = None \<Longrightarrow>
   prepare_v2 env (prepare_calls (trace st)) sql = (code, h) \<Longrightarrow> code \<noteq> SQLITE_OK \<Longrightarrow>
   find_or_prepare env sql st =
     (0, emits [Cache_lock, Prepare sql code h,
                Log ERROR (''Failed to prepare statement: '' @ errmsg env @ '' for SQL: '' @ sql),
                Cache_unlock] st)"
  by (simp add: find_or_prepare_def emit_emits log_emits prepare_calls_def)

text \<open>
  What one section of one thread keeps: no text was compiled twice, every compiled text
  is a key of the map, no key was removed or rebound, and a thread that returned a
  non-null handle holds the handle the map has for its text.
\<close>

lemma thread_step_keeps:
  assumes "distinct (compiled_texts (trace st))"
    and "set (compiled_texts (trace st)) \<subseteq> fst ` set (stmt_cache st)"
    and "thread_step env th st = (th', st')"
  shows "distinct (compiled_texts (trace st'))
       \<and> set (compiled_texts (trace st')) \<subseteq> fst ` set (stmt_cache st')
       \<and> (\<forall>sql h. map_of (stmt_cache st) sql = Some h \<longrightarrow> map_of (stmt_cache st') sql = Some h)
       \<and> fst th' = fst th
       \<and> (\<forall>h. snd th' = Returned h \<and> snd th \<noteq> Returned h \<and> h \<noteq> 0 \<longrightarrow>
             map_of (stmt_cache st') (fst th) = Some h)"
proof -
  obtain sql pc where th: "th = (sql, pc)"
    by (cases th)
  show ?thesis
  proof (cases pc)
    case Entry
    with th assms show ?thesis
      by (auto simp add: find_shared_eq split: option.splits)
  next
    case (Returned h)
    with th assms show ?thesis
      by auto
  next
    case Missed
    show ?thesis
    proof (cases "map_of (stmt_cache st) sql")
      case (Some h)
      with th Missed assms show ?thesis
        by (auto simp add: find_or_prepare_hit)
    next
      case None
      then have fresh_key: "sql \<notin> fst ` set (stmt_cache st)"
        by (simp add: map_of_eq_None_iff)
      obtain code h where p: "prepare_v2 env (prepare_calls (trace st)) sql = (code, h)"
        by (cases "prepare_v2 env (prepare_calls (trace st)) sql")
      show ?thesis
      proof (cases "code = SQLITE_OK")
        case True
        with p None have "find_or_prepare env sql st =
            (h, (emits [Cache_lock, Prepare sql SQLITE_OK h, Cache_unlock] st)
                   \<lparr>stmt_cache := (sql, h) # stmt_cache st\<rparr>)"
          by (simp add: find_or_prepare_compiled)
        with th Missed assms fresh_key None show ?thesis
          by (auto simp add: emits_def)
      next
        case False
        with p None have "find_or_prepare env sql st =
            (0, emits [Cache_lock, Prepare sql code h,
                Log ERROR (''Failed to prepare statement: '' @ errmsg env @ '' for SQL: '' @ sql),
                Cache_unlock] st)"
          by (simp add: find_or_prepare_failed)
        with th Missed assms False show ?thesis
          by auto
      qed
    qed
  qed
qed

lemma run_threads_keeps:
  assumes "distinct (compiled_texts (trace st))"
    and "set (compiled_texts (trace st)) \<subseteq> fst ` set (stmt_cache st)"
    and "\<forall>th\<in>set threads. \<forall>h. snd th = Returned h \<and> h \<noteq> 0 \<longrightarrow> map_of (stmt_cache st) (fst th) = Some h"
    and "run_threads env schedule threads st = (threads', st')"
  shows "distinct (compiled_texts (trace st'))
       \<and> set (compiled_texts (trace st')) \<subseteq> fst ` set (stmt_cache st')
       \<and> (\<forall>sql h. map_of (stmt_cache st) sql = Some h \<longrightarrow> map_of (stmt_cache st') sql = Some h)
       \<and> (\<forall>th\<in>set threads'. \<forall>h. snd th = Returned h \<and> h \<noteq> 0 \<longrightarrow>
             map_of (stmt_cache st') (fst th) = Some h)
       \<and> map fst threads' = map fst threads"
  using assms
proof (induction schedule arbitrary: threads st)
  case Nil
  then show ?case by simp
next
  case (Cons t schedule)
  show ?case
  proof (cases "t < length threads")
    case False
    with Cons.prems(4) have "run_threads env schedule threads st = (threads', st')"
      by simp
    from Cons.IH [OF Cons.prems(1-3) this] show ?thesis .
  next
    case True
    obtain th1 st1 where step: "thread_step env (threads ! t) st = (th1, st1)"
      by (cases "thread_step env (threads ! t) st")
    with True Cons.prems(4) have rest: "run_threads env schedule (threads[t := th1]) st1 = (threads', st')"
      by simp
    from thread_step_keeps [OF Cons.prems(1,2) step] have
      k1: "distinct (compiled_texts (trace st1))"
      and k2: "set (compiled_texts (trace st1)) \<subseteq> fst ` set (stmt_cache st1)"
      and k3: "\<forall>sql h. map_of (stmt_cache st) sql = Some h \<longrightarrow> map_of (stmt_cache st1) sql = Some h"
      and k4: "fst th1 = fst (threads ! t)"
      and k5: "\<forall>h. snd th1 = Returned h \<and> snd (threads ! t) \<noteq> Returned h \<and> h \<noteq> 0 \<longrightarrow>
             map_of (stmt_cache st1) (fst (threads ! t)) = Some h"
      by blast+
    have k6: "\<forall>th\<in>set (threads[t := th1]). \<forall>h. snd th = Returned h \<and> h \<noteq> 0 \<longrightarrow>
        map_of (stmt_cache st1) (fst th) = Some h"
    proof (intro ballI allI impI)
      fix th h
      assume th: "th \<in> set (threads[t := th1])" and r: "snd th = Returned h \<and> h \<noteq> 0"
      from th have "th = th1 \<or> th \<in> set threads"
        using set_update_subset_insert by fastforce
      then show "map_of (stmt_cache st1) (fst th) = Some h"
      proof
        assume eq: "th = th1"
        show ?thesis
        proof (cases "snd (threads ! t) = Returned h")
          case True
          with Cons.prems(3) \<open>t < length threads\<close> r have "map_of (stmt_cache st) (fst (threads ! t)) = Some h"
            using nth_mem by blast
          with k3 k4 eq show ?thesis by simp
        next
          case False
          with k5 k4 r eq show ?thesis by simp
        qed
      next
        assume "th \<in> set threads"
        with Cons.prems(3) r have "map_of (stmt_cache st) (fst th) = Some h"
          by blast
        with k3 show ?thesis by blast
      qed
    qed
    from Cons.IH [OF k1 k2 k6 rest] k3 k4 True show ?thesis
      by (auto simp add: map_update list_update_same_conv)
  qed
qed

text \<open>The function itself is a thread that runs its two sections one after the other.\<close>

lemma getPreparedStatement_as_thread:
  "getPreparedStatement env sql st = (h, st') \<longleftrightarrow>
   run_threads env [0, 0] [(sql, Entry)] st = ([(sql, Returned h)], st')"
  by (auto simp add: getPreparedStatement_def Let_def split: prod.splits option.splits)

text \<open>
  C4, as the code has it. Let any number of callers of \<open>getPreparedStatement\<close> run,
  their critical sections interleaved in any order, from a state in which no text was
  compiled twice and every compiled text is cached. Then afterwards no text has been
  compiled twice, every entry the map had is still there with the same handle, and
  every caller that got a non-null handle got the one the map holds for its text. A
  caller that missed under the shared lock and finds the text under the exclusive lock
  returns it and prepares nothing. A text that is absent and compiles is prepared once
  under the exclusive lock and entered. A text whose preparation fails is not entered: the
  caller gets the null pointer, the map is unchanged, and the next request for the text
  prepares it again. \<open>cleanupStatements\<close> leaves the map empty.
\<close>

theorem statement_cache_compiles_once:
  "(distinct (compiled_texts (trace st))
      \<and> set (compiled_texts (trace st)) \<subseteq> fst ` set (stmt_cache st)
      \<and> (\<forall>th\<in>set threads. snd th = Entry)
      \<and> run_threads env schedule threads st = (threads', st') \<longrightarrow>
      distinct (compiled_texts (trace st'))
      \<and> (\<forall>sql h. map_of (stmt_cache st) sql = Some h \<longrightarrow> map_of (stmt_cache st') sql = Some h)
      \<and> (\<forall>th\<in>set threads'. \<forall>h. snd th = Returned h \<and> h \<noteq> 0 \<longrightarrow>
            map_of (stmt_cache st') (fst th) = Some h))
   \<and> (map_of (stmt_cache st) sql = Some h \<longrightarrow>
        thread_step env (sql, Missed) st = ((sql, Returned h), emits [Cache_lock, Cache_unlock] st)
        \<and> getPreparedStatement env sql st = (h, emits [Cache_lock_shared, Cache_unlock_shared] st))
   \<and> (map_of (stmt_cache st) sql = None
        \<and> prepare_v2 env (prepare_calls (trace st)) sql = (SQLITE_OK, h) \<longrightarrow>
        getPreparedStatement env sql st =
          (h, (emits [Cache_lock_shared, Cache_unlock_shared, Cache_lock, Prepare sql SQLITE_OK h,
                      Cache_unlock] st)\<lparr>stmt_cache := (sql, h) # stmt_cache st\<rparr>))
   \<and> (map_of (stmt_cache st) sql = None
        \<and> prepare_v2 env (prepare_calls (trace st)) sql = (code, h) \<and> code \<noteq> SQLITE_OK \<longrightarrow>
        getPreparedStatement env sql st =
          (0, emits [Cache_lock_shared, Cache_unlock_shared, Cache_lock, Prepare sql code h,
                     Log ERROR (''Failed to prepare statement: '' @ errmsg env @ '' for SQL: '' @ sql),
                     Cache_unlock] st))
   \<and> stmt_cache (cleanupStatements st) = []"
proof (intro conjI impI)
  assume a: "distinct (compiled_texts (trace st))
      \<and> set (compiled_texts (trace st)) \<subseteq> fst ` set (stmt_cache st)
      \<and> (\<forall>th\<in>set threads. snd th = Entry)
      \<and> run_threads env schedule threads st = (threads', st')"
  then have "\<forall>th\<in>set threads. \<forall>h. snd th = Returned h \<and> h \<noteq> 0 \<longrightarrow>
      map_of (stmt_cache st) (fst th) = Some h"
    by simp
  with a run_threads_keeps [of st threads env schedule threads' st']
  show "distinct (compiled_texts (trace st'))"
    and "\<forall>sql h. map_of (stmt_cache st) sql = Some h \<longrightarrow> map_of (stmt_cache st') sql = Some h"
    and "\<forall>th\<in>set threads'. \<forall>h. snd th = Returned h \<and> h \<noteq> 0 \<longrightarrow>
            map_of (stmt_cache st') (fst th) = Some h"
    by blast+
next
  assume "map_of (stmt_cache st) sql = Some h"
  then show "thread_step env (sql, Missed) st = ((sql, Returned h), emits [Cache_lock, Cache_unlock] st)"
    and "getPreparedStatement env sql st = (h, emits [Cache_lock_shared, Cache_unlock_shared] st)"
    by (simp_all add: find_or_prepare_hit getPreparedStatement_def find_shared_eq)
next
  assume a: "map_of (stmt_cache st) sql = None
        \<and> prepare_v2 env (prepare_calls (trace st)) sql = (SQLITE_OK, h)"
  let ?st1 = "emits [Cache_lock_shared, Cache_unlock_shared] st"
  have "prepare_calls (trace ?st1) = prepare_calls (trace st)"
    by (simp add: prepare_calls_def)
  with a have "find_or_prepare env sql ?st1 =
      (h, (emits [Cache_lock, Prepare sql SQLITE_OK h, Cache_unlock] ?st1)
             \<lparr>stmt_cache := (sql, h) # stmt_cache ?st1\<rparr>)"
    by (intro find_or_prepare_compiled) simp_all
  with a show "getPreparedStatement env sql st =
          (h, (emits [Cache_lock_shared, Cache_unlock_shared, Cache_lock, Prepare sql SQLITE_OK h,
                      Cache_unlock] st)\<lparr>stmt_cache := (sql, h) # stmt_cache st\<rparr>)"
    by (simp add: getPreparedStatement_def find_shared_eq)
next
  assume a: "map_of (stmt_cache st) sql = None
        \<and> prepare_v2 env (prepare_calls (trace st)) sql = (code, h) \<and> code \<noteq> SQLITE_OK"
  let ?st1 = "emits [Cache_lock_shared, Cache_unlock_shared] st"
  have "prepare_calls (trace ?st1) = prepare_calls (trace st)"
    by (simp add: prepare_calls_def)
  with a have "find_or_prepare env sql ?st1 =
      (0, emits [Cache_lock, Prepare sql code h,
                Log ERROR (''Failed to prepare statement: '' @ errmsg env @ '' for SQL: '' @ sql),
                Cache_unlock] ?st1)"
    by (intro find_or_prepare_failed) simp_all
  with a show "getPreparedStatement env sql st =
          (0, emits [Cache_lock_shared, Cache_unlock_shared, Cache_lock, Prepare sql code h,
                     Log ERROR (''Failed to prepare statement: '' @ errmsg env @ '' for SQL: '' @ sql),
                     Cache_unlock] st)"
    by (simp add: getPreparedStatement_def find_shared_eq)
next
  show "stmt_cache (cleanupStatements st) = []"
    by (simp add: cleanupStatements_def Let_def)
qed

theorem statement_cache_compiles_once_witness:
  "run_threads accepting [0, 1, 2, 1, 0, 2]
      [(addBook_sql, Entry), (addBook_sql, Entry), (addBook_sql, Entry)] fresh =
     ([(addBook_sql, Returned 1), (addBook_sql, Returned 1), (addBook_sql, Returned 1)],
      emits
        [Cache_lock_shared, Cache_unlock_shared,
         Cache_lock_shared, Cache_unlock_shared,
         Cache_lock_shared, Cache_unlock_shared,
         Cache_lock, Prepare addBook_sql 0 1, Cache_unlock,
         Cache_lock, Cache_unlock,
         Cache_lock, Cache_unlock]
        (fresh\<lparr>stmt_cache := [(addBook_sql, 1)]\<rparr>))
   \<and> compiled_texts
        [Cache_lock_shared, Cache_unlock_shared,
         Cache_lock_shared, Cache_unlock_shared,
         Cache_lock_shared, Cache_unlock_shared,
         Cache_lock, Prepare addBook_sql 0 1, Cache_unlock,
         Cache_lock, Cache_unlock,
         Cache_lock, Cache_unlock] = [addBook_sql]
   \<and> getPreparedStatement accepting addBook_sql (fresh\<lparr>stmt_cache := [(addBook_sql, 1)]\<rparr>) =
        (1, emits [Cache_lock_shared, Cache_unlock_shared] (fresh\<lparr>stmt_cache := [(addBook_sql, 1)]\<rparr>))
   \<and> getPreparedStatement accepting addBook_sql fresh =
        (1, (emits [Cache_lock_shared, Cache_unlock_shared, Cache_lock, Prepare addBook_sql 0 1,
                    Cache_unlock] fresh)\<lparr>stmt_cache := [(addBook_sql, 1)]\<rparr>)
   \<and> getPreparedStatement refusing addBook_sql fresh =
        (0, emits [Cache_lock_shared, Cache_unlock_shared, Cache_lock, Prepare addBook_sql 1 0,
                   Log ERROR (''Failed to prepare statement: syntax error for SQL: '' @ addBook_sql),
                   Cache_unlock] fresh)"
proof -
  let ?threads = "[(addBook_sql, Entry), (addBook_sql, Entry), (addBook_sql, Entry)]"
  let ?threads' = "[(addBook_sql, Returned 1), (addBook_sql, Returned 1), (addBook_sql, Returned 1)]"
  let ?evs = "[Cache_lock_shared, Cache_unlock_shared,
         Cache_lock_shared, Cache_unlock_shared,
         Cache_lock_shared, Cache_unlock_shared,
         Cache_lock, Prepare addBook_sql 0 1, Cache_unlock,
         Cache_lock, Cache_unlock,
         Cache_lock, Cache_unlock]"
  let ?st' = "emits ?evs (fresh\<lparr>stmt_cache := [(addBook_sql, 1)]\<rparr>)"
  have start: "distinct (compiled_texts (trace fresh))
      \<and> set (compiled_texts (trace fresh)) \<subseteq> fst ` set (stmt_cache fresh)
      \<and> (\<forall>th\<in>set ?threads. snd th = Entry)"
    by (simp add: fresh_def)
  have run: "run_threads accepting [0, 1, 2, 1, 0, 2] ?threads fresh = (?threads', ?st')"
    by (simp add: find_shared_def find_or_prepare_def prepare_calls_def Let_def codes
        accepting_def fresh_def emit_def emits_def eval_nat_numeral)
  from statement_cache_compiles_once [THEN conjunct1, rule_format, OF conjI [OF conjunct1 [OF start]
        conjI [OF conjunct1 [OF conjunct2 [OF start]] conjI [OF conjunct2 [OF conjunct2 [OF start]] run]]]]
  have "distinct (compiled_texts (trace ?st'))"
    by blast
  have cached: "map_of (stmt_cache (fresh\<lparr>stmt_cache := [(addBook_sql, 1)]\<rparr>)) addBook_sql = Some 1"
    by simp
  have refused: "map_of (stmt_cache fresh) addBook_sql = None
      \<and> prepare_v2 refusing (prepare_calls (trace fresh)) addBook_sql = (1, 0) \<and> 1 \<noteq> SQLITE_OK"
    by (simp add: fresh_def refusing_def accepting_def codes)
  from statement_cache_compiles_once [THEN conjunct2, THEN conjunct1, rule_format, OF cached]
  have hit: "getPreparedStatement env addBook_sql (fresh\<lparr>stmt_cache := [(addBook_sql, 1)]\<rparr>) =
      (1, emits [Cache_lock_shared, Cache_unlock_shared] (fresh\<lparr>stmt_cache := [(addBook_sql, 1)]\<rparr>))" for env
    by blast
  have accepted: "map_of (stmt_cache fresh) addBook_sql = None
      \<and> prepare_v2 accepting (prepare_calls (trace fresh)) addBook_sql = (SQLITE_OK, 1)"
    by (simp add: fresh_def accepting_def codes prepare_calls_def)
  from statement_cache_compiles_once [THEN conjunct2, THEN conjunct2, THEN conjunct1, rule_format, OF accepted]
  have first: "getPreparedStatement accepting addBook_sql fresh =
      (1, (emits [Cache_lock_shared, Cache_unlock_shared, Cache_lock, Prepare addBook_sql SQLITE_OK 1,
                  Cache_unlock] fresh)\<lparr>stmt_cache := (addBook_sql, 1) # stmt_cache fresh\<rparr>)" .
  from statement_cache_compiles_once [THEN conjunct2, THEN conjunct2, THEN conjunct2, THEN conjunct1,
      rule_format, OF refused]
  have miss: "getPreparedStatement refusing addBook_sql fresh =
      (0, emits [Cache_lock_shared, Cache_unlock_shared, Cache_lock, Prepare addBook_sql 1 0,
                 Log ERROR (''Failed to prepare statement: '' @ errmsg refusing @ '' for SQL: '' @ addBook_sql),
                 Cache_unlock] fresh)" .
  have "compiled_texts ?evs = [addBook_sql]"
    by (simp add: codes)
  with run hit first miss show ?thesis
    by (simp add: refusing_def accepting_def fresh_def codes)
qed

text \<open>
  C4 as the claim has it fails for a text the store refuses to compile: nothing is
  cached, and the second request for the same text calls \<^verbatim>\<open>sqlite3_prepare_v2\<close> again.
\<close>

theorem getPreparedStatement_recompiles_counterexample:
  "trace (snd (getPreparedStatement refusing addBook_sql
                 (snd (getPreparedStatement refusing addBook_sql fresh)))) =
     [Cache_lock_shared, Cache_unlock_shared, Cache_lock, Prepare addBook_sql 1 0,
      Log ERROR (''Failed to prepare statement: syntax error for SQL: '' @ addBook_sql),
      Cache_unlock,
      Cache_lock_shared, Cache_unlock_shared, Cache_lock, Prepare addBook_sql 1 0,
      Log ERROR (''Failed to prepare statement: syntax error for SQL: '' @ addBook_sql),
      Cache_unlock]
   \<and> prepared_texts (trace (snd (getPreparedStatement refusing addBook_sql
                 (snd (getPreparedStatement refusing addBook_sql fresh))))) =
     [addBook_sql, addBook_sql]
   \<and> stmt_cache (snd (getPreparedStatement refusing addBook_sql
                 (snd (getPreparedStatement refusing addBook_sql fresh)))) = []"
  by (simp add: eval_defs codes samples)

subsection \<open>Construction and teardown\<close>

lemma executed_append [simp]: "executed (a @ b) = executed a @ executed b"
  by (induction a rule: executed.induct) auto

lemma bound_values_append [simp]: "bound_values (a @ b) = bound_values a @ bound_values b"
  by (induction a rule: bound_values.induct) auto

lemma set_pragmas_eq:
  "set_pragmas env ps st =
     emits (concat (map (\<lambda>p. Exec p # (if exec_rc env p \<noteq> SQLITE_OK
                                          then [Log ERROR (''Failed to set pragma: '' @ exec_errmsg env p)]
                                          else [])) ps)) st"
  by (induction ps arbitrary: st) (simp_all add: emit_emits log_emits Let_def)

lemma executed_pragmas:
  "executed (concat (map (\<lambda>p. Exec p # (if exec_rc env p \<noteq> SQLITE_OK
                                          then [Log ERROR (''Failed to set pragma: '' @ exec_errmsg env p)]
                                          else [])) ps)) = ps"
  by (induction ps) simp_all

lemma emits_update_db: "emits evs (st\<lparr>db := b\<rparr>) = (emits evs st)\<lparr>db := b\<rparr>"
  by (simp add: emits_def)

text \<open>
  C7. With the connection open: when the table can be created, \<open>initializeDatabase\<close>
  reports success whatever the pragmas and the index creation return, it has run every
  pragma, the table and the index statement in that order, each failing pragma and a
  failing index creation are logged at level ERROR, and the constructor returns an
  object. When the table cannot be created it reports failure after logging the error,
  the index is not attempted, the constructor throws, and \<open>main\<close> exits with code 1.
\<close>

theorem initializeDatabase_fatality:
  "(open_rc env = SQLITE_OK \<and> exec_rc env createTableSQL = SQLITE_OK \<longrightarrow>
      fst (initializeDatabase env st) = True
      \<and> executed (drop (length (trace st)) (trace (snd (initializeDatabase env st)))) =
          pragmas @ [createTableSQL, createIndexSQL]
      \<and> (\<forall>p\<in>set pragmas. exec_rc env p \<noteq> SQLITE_OK \<longrightarrow>
            Log ERROR (''Failed to set pragma: '' @ exec_errmsg env p)
              \<in> set (trace (snd (initializeDatabase env st))))
      \<and> (exec_rc env createIndexSQL \<noteq> SQLITE_OK \<longrightarrow>
            Log ERROR (''Failed to create index: '' @ exec_errmsg env createIndexSQL)
              \<in> set (trace (snd (initializeDatabase env st))))
      \<and> (\<exists>a. BookArchive_constructor env log_opens db_file log_level = Inr a))
   \<and> (open_rc env = SQLITE_OK \<and> exec_rc env createTableSQL \<noteq> SQLITE_OK \<longrightarrow>
      fst (initializeDatabase env st) = False
      \<and> executed (drop (length (trace st)) (trace (snd (initializeDatabase env st)))) =
          pragmas @ [createTableSQL]
      \<and> Log ERROR (''Failed to create table: '' @ exec_errmsg env createTableSQL)
          \<in> set (trace (snd (initializeDatabase env st)))
      \<and> (\<exists>a. BookArchive_constructor env log_opens db_file log_level = Inl a
            \<and> Throw (''Failed to initialize database: '' @ db_file) \<in> set (trace a))
      \<and> fst (main_try env log_opens db_file log_level run) = 1)"
proof (intro conjI impI)
  let ?ps = "concat (map (\<lambda>p. Exec p # (if exec_rc env p \<noteq> SQLITE_OK
                                          then [Log ERROR (''Failed to set pragma: '' @ exec_errmsg env p)]
                                          else [])) pragmas)"
  let ?ix = "if exec_rc env createIndexSQL \<noteq> SQLITE_OK
             then [Log ERROR (''Failed to create index: '' @ exec_errmsg env createIndexSQL)] else []"
  have logged: "Log ERROR (''Failed to set pragma: '' @ exec_errmsg env p) \<in> set ?ps"
    if "p \<in> set pragmas" "exec_rc env p \<noteq> SQLITE_OK" for p
    using that by auto
  {
    assume ok: "open_rc env = SQLITE_OK \<and> exec_rc env createTableSQL = SQLITE_OK"
    have init: "initializeDatabase env s =
        (True, (emits ([Db_lock, Open_db (db_filename s)] @ ?ps
                  @ [Exec createTableSQL, Exec createIndexSQL] @ ?ix @ [Db_unlock]) s)\<lparr>db := True\<rparr>)" for s
      using ok by (simp add: initializeDatabase_def set_pragmas_eq emit_emits log_emits Let_def
          emits_update_db)
    show "fst (initializeDatabase env st) = True"
      by (simp add: init)
    show "executed (drop (length (trace st)) (trace (snd (initializeDatabase env st)))) =
          pragmas @ [createTableSQL, createIndexSQL]"
      by (simp add: init executed_pragmas)
    show "\<forall>p\<in>set pragmas. exec_rc env p \<noteq> SQLITE_OK \<longrightarrow>
            Log ERROR (''Failed to set pragma: '' @ exec_errmsg env p)
              \<in> set (trace (snd (initializeDatabase env st)))"
      using logged by (simp add: init)
    show "Log ERROR (''Failed to create index: '' @ exec_errmsg env createIndexSQL)
              \<in> set (trace (snd (initializeDatabase env st)))"
      if "exec_rc env createIndexSQL \<noteq> SQLITE_OK"
      using that by (simp add: init)
    show "\<exists>a. BookArchive_constructor env log_opens db_file log_level = Inr a"
      by (simp add: BookArchive_constructor_def init Let_def)
  }
  {
    assume bad: "open_rc env = SQLITE_OK \<and> exec_rc env createTableSQL \<noteq> SQLITE_OK"
    have init: "initializeDatabase env s =
        (False, (emits ([Db_lock, Open_db (db_filename s)] @ ?ps
                  @ [Exec createTableSQL,
                     Log ERROR (''Failed to create table: '' @ exec_errmsg env createTableSQL),
                     Db_unlock]) s)\<lparr>db := True\<rparr>)" for s
      using bad by (simp add: initializeDatabase_def set_pragmas_eq emit_emits log_emits Let_def
          emits_update_db)
    show "fst (initializeDatabase env st) = False"
      by (simp add: init)
    show "executed (drop (length (trace st)) (trace (snd (initializeDatabase env st)))) =
          pragmas @ [createTableSQL]"
      by (simp add: init executed_pragmas)
    show "Log ERROR (''Failed to create table: '' @ exec_errmsg env createTableSQL)
          \<in> set (trace (snd (initializeDatabase env st)))"
      by (simp add: init)
    show "\<exists>a. BookArchive_constructor env log_opens db_file log_level = Inl a
            \<and> Throw (''Failed to initialize database: '' @ db_file) \<in> set (trace a)"
      by (auto simp add: BookArchive_constructor_def init member_destructors_def Let_def)
    show "fst (main_try env log_opens db_file log_level run) = 1"
      by (simp add: main_try_def BookArchive_constructor_def init Let_def)
  }
qed

theorem initializeDatabase_fatality_witness:
  "initializeDatabase only_table (fresh\<lparr>db := False\<rparr>) =
     (True, emits
        [Db_lock, Open_db ''book_archive.db'',
         Exec ''PRAGMA foreign_keys = ON;'', Log ERROR ''Failed to set pragma: not an error'',
         Exec ''PRAGMA journal_mode = WAL;'', Log ERROR ''Failed to set pragma: not an error'',
         Exec ''PRAGMA synchronous = NORMAL;'', Log ERROR ''Failed to set pragma: not an error'',
         Exec ''PRAGMA cache_size = 1000;'', Log ERROR ''Failed to set pragma: not an error'',
         Exec ''PRAGMA temp_store = MEMORY;'', Log ERROR ''Failed to set pragma: not an error'',
         Exec createTableSQL,
         Exec createIndexSQL, Log ERROR ''Failed to create index: not an error'',
         Db_unlock] fresh)
   \<and> initializeDatabase no_table (fresh\<lparr>db := False\<rparr>) =
     (False, emits
        [Db_lock, Open_db ''book_archive.db'',
         Exec ''PRAGMA foreign_keys = ON;'',
         Exec ''PRAGMA journal_mode = WAL;'',
         Exec ''PRAGMA synchronous = NORMAL;'',
         Exec ''PRAGMA cache_size = 1000;'',
         Exec ''PRAGMA temp_store = MEMORY;'',
         Exec createTableSQL, Log ERROR ''Failed to create table: disk I/O error'',
         Db_unlock] fresh)
   \<and> fst (main_try no_table True ''book_archive.db'' ERROR Run_returns) = 1"
proof -
  have good: "open_rc only_table = SQLITE_OK \<and> exec_rc only_table createTableSQL = SQLITE_OK"
    and bad: "open_rc no_table = SQLITE_OK \<and> exec_rc no_table createTableSQL \<noteq> SQLITE_OK"
    by (simp_all add: samples codes)
  from initializeDatabase_fatality [THEN conjunct1, rule_format, OF good,
      of "fresh\<lparr>db := False\<rparr>" True "''book_archive.db''" ERROR]
  have "fst (initializeDatabase only_table (fresh\<lparr>db := False\<rparr>)) = True"
    by blast
  moreover from initializeDatabase_fatality [THEN conjunct2, rule_format, OF bad,
      of "fresh\<lparr>db := False\<rparr>" True "''book_archive.db''" ERROR Run_returns]
  have "fst (initializeDatabase no_table (fresh\<lparr>db := False\<rparr>)) = False"
    and "fst (main_try no_table True ''book_archive.db'' ERROR Run_returns) = 1"
    by blast+
  moreover have "snd (initializeDatabase only_table (fresh\<lparr>db := False\<rparr>)) = emits
        [Db_lock, Open_db ''book_archive.db'',
         Exec ''PRAGMA foreign_keys = ON;'', Log ERROR ''Failed to set pragma: not an error'',
         Exec ''PRAGMA journal_mode = WAL;'', Log ERROR ''Failed to set pragma: not an error'',
         Exec ''PRAGMA synchronous = NORMAL;'', Log ERROR ''Failed to set pragma: not an error'',
         Exec ''PRAGMA cache_size = 1000;'', Log ERROR ''Failed to set pragma: not an error'',
         Exec ''PRAGMA temp_store = MEMORY;'', Log ERROR ''Failed to set pragma: not an error'',
         Exec createTableSQL,
         Exec createIndexSQL, Log ERROR ''Failed to create index: not an error'',
         Db_unlock] fresh"
    by (simp add: initializeDatabase_def pragmas_def createTableSQL_def createIndexSQL_def
        log_def Let_def codes samples emit_def emits_def)
  moreover have "snd (initializeDatabase no_table (fresh\<lparr>db := False\<rparr>)) = emits
        [Db_lock, Open_db ''book_archive.db'',
         Exec ''PRAGMA foreign_keys = ON;'',
         Exec ''PRAGMA journal_mode = WAL;'',
         Exec ''PRAGMA synchronous = NORMAL;'',
         Exec ''PRAGMA cache_size = 1000;'',
         Exec ''PRAGMA temp_store = MEMORY;'',
         Exec createTableSQL, Log ERROR ''Failed to create table: disk I/O error'',
         Db_unlock] fresh"
    by (simp add: initializeDatabase_def pragmas_def createTableSQL_def createIndexSQL_def
        log_def Let_def codes samples emit_def emits_def)
  ultimately show ?thesis
    by (metis prod.collapse)
qed

lemma finalize_all_eq:
  "finalize_all cache st = emits (map Finalize (filter (\<lambda>h. h \<noteq> 0) (map snd cache))) st"
  by (induction cache arbitrary: st) (auto simp add: emit_emits)

text \<open>
  The order of the destructor: the message, every non-null handle of the map finalized
  under the lock of the cache, then the connection closed if there is one, then the log
  file closed if it is open.
\<close>

lemma BookArchive_destructor_order:
  "trace (BookArchive_destructor st) =
     trace st @ [Log INFO ''Shutting down Book Archive'', Cache_lock]
       @ map Finalize (filter (\<lambda>h. h \<noteq> 0) (map snd (stmt_cache st)))
       @ [Cache_unlock]
       @ (if db st then [Close_db] else [])
       @ (if log_file_is_open st then [Close_log] else [])"
  by (simp add: BookArchive_destructor_def cleanupStatements_def finalize_all_eq log_emits
      emit_emits Let_def)

lemma BookArchive_destructor_releases:
  "stmt_cache (BookArchive_destructor st) = []"
  "\<not> db (BookArchive_destructor st)"
  "\<not> log_file_is_open (BookArchive_destructor st)"
  by (simp_all add: BookArchive_destructor_def cleanupStatements_def Let_def)

text \<open>
  The paths on which the destructor runs: a normal return of the command loop, an
  exception that leaves it, and SIGINT or SIGTERM while the global pointer is set. With
  the pointer null the handler ends the process at once.
\<close>

lemma teardown_paths:
  "BookArchive_constructor env log_opens db_file log_level = Inr a \<Longrightarrow> run a = Run_returns a' \<Longrightarrow>
     main_try env log_opens db_file log_level run = (0, BookArchive_destructor a')"
  "BookArchive_constructor env log_opens db_file log_level = Inr a \<Longrightarrow> run a = Run_throws msg a' \<Longrightarrow>
     main_try env log_opens db_file log_level run = (1, BookArchive_destructor (emit (Throw msg) a'))"
  "signalHandler SIGINT (Some a) = Some (0, Some (BookArchive_destructor a))"
  "signalHandler SIGTERM (Some a) = Some (0, Some (BookArchive_destructor a))"
  "signalHandler SIGINT None = Some (0, None)"
  "signalHandler SIGTERM None = Some (0, None)"
  by (simp_all add: main_try_def signalHandler_def)

text \<open>
  C8 fails on the code when the table cannot be created. \<open>initializeDatabase\<close> has
  opened the connection and returns false without closing it (the branch for a failed
  open does close it); the constructor throws, so \<^verbatim>\<open>g_archive\<close> is still null in the
  handler of \<open>main\<close>, which deletes nothing. The process ends with code 1, the trace
  holds no \<open>Close_db\<close>, and \<open>db\<close> is still set.
\<close>

theorem failed_construction_leaves_connection_open:
  "main_try no_table True ''book_archive.db'' ERROR Run_returns =
     (1, \<lparr>db = True, db_filename = ''book_archive.db'', log_file_is_open = False,
          current_log_level = ERROR, stmt_cache = [],
          trace =
            [Open_log, Db_lock, Open_db ''book_archive.db'',
             Exec ''PRAGMA foreign_keys = ON;'',
             Exec ''PRAGMA journal_mode = WAL;'',
             Exec ''PRAGMA synchronous = NORMAL;'',
             Exec ''PRAGMA cache_size = 1000;'',
             Exec ''PRAGMA temp_store = MEMORY;'',
             Exec createTableSQL,
             Log ERROR ''Failed to create table: disk I/O error'',
             Db_unlock,
             Throw ''Failed to initialize database: book_archive.db'',
             Close_log]\<rparr>)
   \<and> Close_db \<notin> set (trace (snd (main_try no_table True ''book_archive.db'' ERROR Run_returns)))"
  by (simp add: main_try_def BookArchive_constructor_def member_destructors_def
      initializeDatabase_def pragmas_def createTableSQL_def createIndexSQL_def
      log_def Let_def codes samples emit_def)

subsection \<open>What reaches the store\<close>

lemma sql_texts_append [simp]: "sql_texts (a @ b) = sql_texts a @ sql_texts b"
  by (induction a rule: sql_texts.induct) auto

lemma loop_events_quiet:
  "\<forall>e\<in>set evs. loop_event e \<Longrightarrow> sql_texts evs = [] \<and> bound_values evs = []"
proof (induction evs)
  case Nil
  then show ?case by simp
next
  case (Cons e evs)
  then show ?case by (cases e) simp_all
qed

lemma read_loop_quiet:
  "executeQuery_loop env stmt script retries results st = Some (books, st') \<Longrightarrow>
   \<exists>evs. st' = emits evs st \<and> sql_texts evs = [] \<and> bound_values evs = []"
proof (induction script arbitrary: retries results st)
  case Nil
  then show ?case by simp
next
  case (Cons r script)
  let ?triple = "[Db_lock_shared, Step stmt, Db_unlock_shared]"
  let ?once = "?triple @ [Log DEBUG (busy_message retries), Sleep_ms (10 * 2 ^ retries)]"
  let ?bad = "?triple @ [Log ERROR (''Failed to execute query: '' @ errmsg env)]"
  from Cons.prems consider
    (row) "executeQuery_loop env stmt script retries (results @ [book_of_row r]) (emits ?triple st)
             = Some (books, st')"
    | (busy) "executeQuery_loop env stmt script (retries + 1) results (emits ?once st) = Some (books, st')"
    | (stop) "st' = emits ?triple st \<or> st' = emits ?bad st"
    by (auto simp add: emit_emits log_emits Let_def split: if_splits)
  then show ?case
  proof cases
    case row
    from Cons.IH [OF this] obtain evs where
      "st' = emits evs (emits ?triple st)" "sql_texts evs = []" "bound_values evs = []"
      by blast
    then have "st' = emits (?triple @ evs) st \<and> sql_texts (?triple @ evs) = []
        \<and> bound_values (?triple @ evs) = []"
      by simp
    then show ?thesis by blast
  next
    case busy
    from Cons.IH [OF this] obtain evs where
      "st' = emits evs (emits ?once st)" "sql_texts evs = []" "bound_values evs = []"
      by blast
    then have "st' = emits (?once @ evs) st \<and> sql_texts (?once @ evs) = []
        \<and> bound_values (?once @ evs) = []"
      by simp
    then show ?thesis by blast
  next
    case stop
    then have "(st' = emits ?triple st \<and> sql_texts ?triple = [] \<and> bound_values ?triple = [])
        \<or> (st' = emits ?bad st \<and> sql_texts ?bad = [] \<and> bound_values ?bad = [])"
      by auto
    then show ?thesis by blast
  qed
qed

lemma zip_upt_Cons:
  "zip [Suc i..<Suc (Suc (i + n))] (p # ps) = (Suc i, p) # zip [Suc (Suc i)..<Suc (Suc (i + n))] ps"
  by (simp add: upt_rec [of "Suc i"] del: upt_Suc)

lemma bind_params_texts:
  "\<exists>evs n. (bind_params env stmt i ps st = Inl (emits evs st)
             \<or> bind_params env stmt i ps st = Inr (emits evs st))
     \<and> sql_texts evs = []
     \<and> bound_values evs = take n (zip [Suc i..<Suc i + length ps] ps)"
proof (induction ps arbitrary: i st)
  case Nil
  have "(bind_params env stmt i [] st = Inl (emits [] st)
         \<or> bind_params env stmt i [] st = Inr (emits [] st))
      \<and> sql_texts [] = [] \<and> bound_values [] = take 0 (zip [Suc i..<Suc i + length []] [])"
    by simp
  then show ?case by blast
next
  case (Cons p ps)
  let ?b = "Bind_text stmt (i + 1) p SQLITE_TRANSIENT"
  show ?case
  proof (cases "bind_text env stmt (i + 1) p \<noteq> SQLITE_OK")
    case True
    let ?evs = "[?b, Log ERROR (''Failed to bind parameter '' @ to_string_nat (i + 1) @ '': '' @ errmsg env)]"
    from True have "bind_params env stmt i (p # ps) st = Inl (emits ?evs st)"
      by (simp add: emit_emits log_emits Let_def)
    moreover have "bound_values ?evs = take 1 (zip [Suc i..<Suc i + length (p # ps)] (p # ps))"
      by (simp add: zip_upt_Cons del: upt_Suc)
    moreover have "sql_texts ?evs = []"
      by simp
    ultimately show ?thesis by blast
  next
    case False
    from Cons.IH [of "Suc i" "emits [?b] st"] obtain evs n where
      evs: "bind_params env stmt (Suc i) ps (emits [?b] st) = Inl (emits evs (emits [?b] st))
          \<or> bind_params env stmt (Suc i) ps (emits [?b] st) = Inr (emits evs (emits [?b] st))"
      "sql_texts evs = []"
      "bound_values evs = take n (zip [Suc (Suc i)..<Suc (Suc i) + length ps] ps)"
      by blast
    from False evs(1) have "bind_params env stmt i (p # ps) st = Inl (emits (?b # evs) st)
        \<or> bind_params env stmt i (p # ps) st = Inr (emits (?b # evs) st)"
      by (simp add: emit_emits Let_def)
    moreover from evs(3) have "bound_values (?b # evs) =
        take (Suc n) (zip [Suc i..<Suc i + length (p # ps)] (p # ps))"
      by (simp add: zip_upt_Cons del: upt_Suc)
    moreover from evs(2) have "sql_texts (?b # evs) = []"
      by simp
    ultimately show ?thesis by blast
  qed
qed

lemma getPreparedStatement_texts:
  assumes "getPreparedStatement env sql st = (h, st')"
  shows "\<exists>evs. trace st' = trace st @ evs
           \<and> sql_texts evs = (if map_of (stmt_cache st) sql = None then [sql] else [])
           \<and> bound_values evs = []"
proof (cases "map_of (stmt_cache st) sql")
  case (Some c)
  with assms have "st' = emits [Cache_lock_shared, Cache_unlock_shared] st"
    by (simp add: getPreparedStatement_def find_shared_eq)
  with Some have "trace st' = trace st @ [Cache_lock_shared, Cache_unlock_shared]
      \<and> sql_texts [Cache_lock_shared, Cache_unlock_shared] =
          (if map_of (stmt_cache st) sql = None then [sql] else [])
      \<and> bound_values [Cache_lock_shared, Cache_unlock_shared] = []"
    by simp
  then show ?thesis by blast
next
  case None
  let ?st1 = "emits [Cache_lock_shared, Cache_unlock_shared] st"
  obtain code c where p: "prepare_v2 env (prepare_calls (trace ?st1)) sql = (code, c)"
    by (cases "prepare_v2 env (prepare_calls (trace ?st1)) sql")
  from None have miss: "map_of (stmt_cache ?st1) sql = None"
    by simp
  from assms None have run: "find_or_prepare env sql ?st1 = (h, st')"
    by (simp add: getPreparedStatement_def find_shared_eq)
  show ?thesis
  proof (cases "code = SQLITE_OK")
    case True
    with p miss run have "trace st' = trace st @ [Cache_lock_shared, Cache_unlock_shared,
        Cache_lock, Prepare sql SQLITE_OK c, Cache_unlock]"
      by (auto simp add: find_or_prepare_compiled)
    with None have "trace st' = trace st @ [Cache_lock_shared, Cache_unlock_shared,
        Cache_lock, Prepare sql SQLITE_OK c, Cache_unlock]
      \<and> sql_texts [Cache_lock_shared, Cache_unlock_shared,
        Cache_lock, Prepare sql SQLITE_OK c, Cache_unlock] =
          (if map_of (stmt_cache st) sql = None then [sql] else [])
      \<and> bound_values [Cache_lock_shared, Cache_unlock_shared,
        Cache_lock, Prepare sql SQLITE_OK c, Cache_unlock] = []"
      by simp
    then show ?thesis by blast
  next
    case False
    let ?evs = "[Cache_lock_shared, Cache_unlock_shared, Cache_lock, Prepare sql code c,
        Log ERROR (''Failed to prepare statement: '' @ errmsg env @ '' for SQL: '' @ sql),
        Cache_unlock]"
    from False p miss run have "trace st' = trace st @ ?evs"
      by (auto simp add: find_or_prepare_failed)
    with None have "trace st' = trace st @ ?evs
      \<and> sql_texts ?evs = (if map_of (stmt_cache st) sql = None then [sql] else [])
      \<and> bound_values ?evs = []"
      by simp
    then show ?thesis by blast
  qed
qed

lemma reset_and_bind_texts:
  assumes "s = (case reset_and_bind env sql params st of Inl st' \<Rightarrow> st' | Inr (stmt, st') \<Rightarrow> st')"
  shows "\<exists>evs n. trace s = trace st @ evs
           \<and> sql_texts evs = (if map_of (stmt_cache st) sql = None then [sql] else [])
           \<and> bound_values evs = take n (zip [1..<Suc (length params)] params)"
proof -
  obtain h st1 where g: "getPreparedStatement env sql st = (h, st1)"
    by (cases "getPreparedStatement env sql st")
  from getPreparedStatement_texts [OF g] obtain evs1 where
    evs1: "trace st1 = trace st @ evs1"
      "sql_texts evs1 = (if map_of (stmt_cache st) sql = None then [sql] else [])"
      "bound_values evs1 = []"
    by blast
  show ?thesis
  proof (cases "h = 0")
    case True
    with g assms have "s = st1"
      by (simp add: reset_and_bind_def)
    with evs1 have "trace s = trace st @ evs1
        \<and> sql_texts evs1 = (if map_of (stmt_cache st) sql = None then [sql] else [])
        \<and> bound_values evs1 = take 0 (zip [1..<Suc (length params)] params)"
      by simp
    then show ?thesis by blast
  next
    case False
    let ?st2 = "emits [Reset h, Clear_bindings h] st1"
    from bind_params_texts [of env h 0 params ?st2] obtain evs n where
      evs: "bind_params env h 0 params ?st2 = Inl (emits evs ?st2)
          \<or> bind_params env h 0 params ?st2 = Inr (emits evs ?st2)"
      "sql_texts evs = []"
      "bound_values evs = take n (zip [Suc 0..<Suc 0 + length params] params)"
      by blast
    from False g assms evs(1) have "s = emits evs ?st2"
      by (auto simp add: reset_and_bind_def emit_emits)
    with evs1 evs(2,3) have "trace s = trace st @ (evs1 @ [Reset h, Clear_bindings h] @ evs)
        \<and> sql_texts (evs1 @ [Reset h, Clear_bindings h] @ evs) =
            (if map_of (stmt_cache st) sql = None then [sql] else [])
        \<and> bound_values (evs1 @ [Reset h, Clear_bindings h] @ evs) =
            take n (zip [1..<Suc (length params)] params)"
      by simp
    then show ?thesis by blast
  qed
qed

lemma passes_onlyI:
  assumes "trace st' = trace st @ evs"
    and "sql_texts evs = (if map_of (stmt_cache st) sql = None then [sql] else [])"
    and "bound_values evs = take n (zip [1..<Suc (length params)] params)"
  shows "passes_only sql params st st'"
proof -
  let ?zs = "zip [1..<Suc (length params)] params"
  have added: "drop (length (trace st)) (trace st') = evs"
    and before: "take (length (trace st)) (trace st') = trace st"
    using assms(1) by simp_all
  have "take (length (take n ?zs)) ?zs = take n ?zs"
    by (cases "n \<le> length ?zs") (simp_all add: min_def del: upt_Suc)
  with assms(3) have "bound_values evs = take (length (bound_values evs)) ?zs"
    by (simp del: upt_Suc)
  with assms(2) added before show ?thesis
    unfolding passes_only_def sent_def Let_def by (simp del: upt_Suc)
qed

lemma executeSQLWithParams_passes:
  assumes "executeSQLWithParams env sql params script st = Some (ok, st')"
  shows "\<exists>evs n. trace st' = trace st @ evs
           \<and> sql_texts evs = (if map_of (stmt_cache st) sql = None then [sql] else [])
           \<and> bound_values evs = take n (zip [1..<Suc (length params)] params)"
proof -
  let ?said = "Log DEBUG (''Executing SQL: '' @ sql @ '' with '' @ to_string_nat (length params)
                            @ '' parameters'')"
  let ?st0 = "emits [?said] st"
  let ?r = "reset_and_bind env sql params ?st0"
  let ?s = "case ?r of Inl st3 \<Rightarrow> st3 | Inr (stmt, st3) \<Rightarrow> st3"
  from reset_and_bind_texts [of ?s env sql params ?st0] obtain evs n where
    evs: "trace ?s = trace ?st0 @ evs"
      "sql_texts evs = (if map_of (stmt_cache st) sql = None then [sql] else [])"
      "bound_values evs = take n (zip [1..<Suc (length params)] params)"
    by auto
  have "\<exists>more. trace st' = trace ?s @ more \<and> sql_texts more = [] \<and> bound_values more = []"
  proof (cases ?r)
    case (Inl st3)
    with assms have "trace st' = trace ?s @ [] \<and> sql_texts [] = [] \<and> bound_values [] = []"
      by (simp add: executeSQLWithParams_def log_emits)
    then show ?thesis by blast
  next
    case (Inr ready)
    obtain stmt st3 where ready: "ready = (stmt, st3)"
      by (cases ready)
    with Inr assms obtain code st4 where
      loop: "executeSQLWithParams_loop stmt script 0 (emit Db_lock st3) = Some (code, st4)"
      and st': "st' = emits (Db_unlock # (if code \<noteq> SQLITE_DONE
                    then [Log ERROR (''Failed to execute SQL: '' @ errmsg env)] else [])) st4"
      by (auto simp add: executeSQLWithParams_def emit_emits log_emits Let_def
          split: option.splits if_splits)
    from write_loop_trace [OF loop] obtain inner where
      inner: "st4 = emits (inner @ [Step stmt]) (emit Db_lock st3)" "\<forall>e\<in>set inner. loop_event e"
      by blast
    let ?more = "Db_lock # inner @ Step stmt # Db_unlock # (if code \<noteq> SQLITE_DONE
                    then [Log ERROR (''Failed to execute SQL: '' @ errmsg env)] else [])"
    from loop_events_quiet [OF inner(2)] have "sql_texts ?more = [] \<and> bound_values ?more = []"
      by simp
    moreover from st' inner(1) Inr ready have "trace st' = trace ?s @ ?more"
      by simp
    ultimately show ?thesis by blast
  qed
  then obtain more where "trace st' = trace ?s @ more" "sql_texts more = []" "bound_values more = []"
    by blast
  with evs have "trace st' = trace st @ (?said # evs @ more)
      \<and> sql_texts (?said # evs @ more) = (if map_of (stmt_cache st) sql = None then [sql] else [])
      \<and> bound_values (?said # evs @ more) = take n (zip [1..<Suc (length params)] params)"
    by simp
  then show ?thesis by blast
qed

lemma executeQuery_passes:
  assumes "executeQuery env sql params script st = Some (books, st')"
  shows "\<exists>evs n. trace st' = trace st @ evs
           \<and> sql_texts evs = (if map_of (stmt_cache st) sql = None then [sql] else [])
           \<and> bound_values evs = take n (zip [1..<Suc (length params)] params)"
proof -
  let ?said = "Log DEBUG (''Executing query: '' @ sql)"
  let ?st0 = "emits [?said] st"
  let ?r = "reset_and_bind env sql params ?st0"
  let ?s = "case ?r of Inl st3 \<Rightarrow> st3 | Inr (stmt, st3) \<Rightarrow> st3"
  from reset_and_bind_texts [of ?s env sql params ?st0] obtain evs n where
    evs: "trace ?s = trace ?st0 @ evs"
      "sql_texts evs = (if map_of (stmt_cache st) sql = None then [sql] else [])"
      "bound_values evs = take n (zip [1..<Suc (length params)] params)"
    by auto
  have "\<exists>more. trace st' = trace ?s @ more \<and> sql_texts more = [] \<and> bound_values more = []"
  proof (cases ?r)
    case (Inl st3)
    with assms have "trace st' = trace ?s @ [] \<and> sql_texts [] = [] \<and> bound_values [] = []"
      by (simp add: executeQuery_def log_emits)
    then show ?thesis by blast
  next
    case (Inr ready)
    obtain stmt st3 where ready: "ready = (stmt, st3)"
      by (cases ready)
    let ?count = "if books \<noteq> []
                  then Log DEBUG (''Query returned '' @ to_string_nat (length books) @ '' results'')
                  else Log DEBUG ''Query returned no results''"
    from ready Inr assms obtain st4 where
      loop: "executeQuery_loop env stmt script 0 [] st3 = Some (books, st4)"
      and st': "st' = emits [?count] st4"
      by (auto simp add: executeQuery_def log_emits split: option.splits)
    from read_loop_quiet [OF loop] obtain inner where
      inner: "st4 = emits inner st3" "sql_texts inner = []" "bound_values inner = []"
      by blast
    then have "sql_texts (inner @ [?count]) = [] \<and> bound_values (inner @ [?count]) = []"
      by simp
    moreover from st' inner(1) Inr ready have "trace st' = trace ?s @ (inner @ [?count])"
      by simp
    ultimately show ?thesis by blast
  qed
  then obtain more where "trace st' = trace ?s @ more" "sql_texts more = []" "bound_values more = []"
    by blast
  with evs have "trace st' = trace st @ (?said # evs @ more)
      \<and> sql_texts (?said # evs @ more) = (if map_of (stmt_cache st) sql = None then [sql] else [])
      \<and> bound_values (?said # evs @ more) = take n (zip [1..<Suc (length params)] params)"
    by simp
  then show ?thesis by blast
qed

text \<open>A write operation is its message, the engine call and, after a failure, one more message.\<close>

lemma write_operation_passes:
  assumes "(case executeSQLWithParams env sql params script (log INFO said st) of
              None \<Rightarrow> None
            | Some (ok, st1) \<Rightarrow>
                if \<not> ok then Some (False, log ERROR complaint st1) else Some (True, st1)) = Some (ok', st')"
  shows "passes_only sql params st st'"
proof -
  from assms obtain ok st1 where
    run: "executeSQLWithParams env sql params script (emits [Log INFO said] st) = Some (ok, st1)"
    and st': "st' = emits (if \<not> ok then [Log ERROR complaint] else []) st1"
    by (auto simp add: log_emits split: option.splits if_splits)
  from executeSQLWithParams_passes [OF run] obtain evs n where
    "trace st1 = trace (emits [Log INFO said] st) @ evs"
    "sql_texts evs = (if map_of (stmt_cache st) sql = None then [sql] else [])"
    "bound_values evs = take n (zip [1..<Suc (length params)] params)"
    by auto
  with st' have "trace st' = trace st @ (Log INFO said # evs @ (if \<not> ok then [Log ERROR complaint] else []))"
    and "sql_texts (Log INFO said # evs @ (if \<not> ok then [Log ERROR complaint] else [])) =
      (if map_of (stmt_cache st) sql = None then [sql] else [])"
    and "bound_values (Log INFO said # evs @ (if \<not> ok then [Log ERROR complaint] else [])) =
      take n (zip [1..<Suc (length params)] params)"
    by simp_all
  then show ?thesis
    by (rule passes_onlyI)
qed

lemma read_operation_passes:
  assumes "executeQuery env sql params script (log INFO said st) = Some (books, st')"
  shows "passes_only sql params st st'"
proof -
  from executeQuery_passes [of env sql params script "emits [Log INFO said] st" books st'] assms
  obtain evs n where
    "trace st' = trace (emits [Log INFO said] st) @ evs"
    "sql_texts evs = (if map_of (stmt_cache st) sql = None then [sql] else [])"
    "bound_values evs = take n (zip [1..<Suc (length params)] params)"
    by (auto simp add: log_emits)
  then have "trace st' = trace st @ (Log INFO said # evs)"
    and "sql_texts (Log INFO said # evs) = (if map_of (stmt_cache st) sql = None then [sql] else [])"
    and "bound_values (Log INFO said # evs) = take n (zip [1..<Suc (length params)] params)"
    by simp_all
  then show ?thesis
    by (rule passes_onlyI)
qed

text \<open>
  The good path of a write, event by event: with a statement in hand and every bind
  accepted, a script of at most five busy answers followed by an answer that is not busy
  ends the call; it has reset the statement, bound every parameter in order, stepped
  inside one exclusive section, and reports whether the last answer was \<open>SQLITE_DONE\<close>.
\<close>

lemma executeSQLWithParams_exact:
  assumes "getPreparedStatement env sql
             (log DEBUG (''Executing SQL: '' @ sql @ '' with '' @ to_string_nat (length params)
                           @ '' parameters'') st) = (h, st1)"
    and "h \<noteq> 0"
    and "\<forall>j<length params. bind_text env h (j + 1) (params ! j) = SQLITE_OK"
    and "\<forall>r\<in>set bs. rc r = SQLITE_BUSY" and "length bs \<le> 5" and "rc d \<noteq> SQLITE_BUSY"
  shows "executeSQLWithParams env sql params (bs @ d # rest) st =
     Some (rc d = SQLITE_DONE,
       emits ([Reset h, Clear_bindings h]
              @ map (\<lambda>j. Bind_text h (j + 1) (params ! j) SQLITE_TRANSIENT) [0..<length params]
              @ Db_lock # retry_events h 0 (length bs) @ [Step h, Db_unlock]
              @ (if rc d = SQLITE_DONE then []
                 else [Log ERROR (''Failed to execute SQL: '' @ errmsg env)])) st1)"
proof -
  let ?binds = "map (\<lambda>j. Bind_text h (j + 1) (params ! j) SQLITE_TRANSIENT) [0..<length params]"
  let ?st3 = "emits ([Reset h, Clear_bindings h] @ ?binds) st1"
  have "bind_params env h 0 params (emits [Reset h, Clear_bindings h] st1) = Inr (emits ?binds
      (emits [Reset h, Clear_bindings h] st1))"
    using bind_params_ok [of params env h 0 "emits [Reset h, Clear_bindings h] st1"] assms(3)
    by simp
  with assms(1,2) have ready: "reset_and_bind env sql params
      (log DEBUG (''Executing SQL: '' @ sql @ '' with '' @ to_string_nat (length params)
                    @ '' parameters'') st) = Inr (h, ?st3)"
    by (simp add: reset_and_bind_def emit_emits)
  have "executeSQLWithParams_loop h (bs @ d # rest) 0 (emit Db_lock ?st3) =
      executeSQLWithParams_loop h (d # rest) (length bs)
        (emits (retry_events h 0 (length bs)) (emit Db_lock ?st3))"
    using write_loop_busy [of bs 0 h "d # rest" "emit Db_lock ?st3"] assms(4,5)
    by (simp add: SQLITE_MAX_RETRIES_def)
  also have "\<dots> = Some (rc d, emits [Step h]
      (emits (retry_events h 0 (length bs)) (emit Db_lock ?st3)))"
    using write_loop_last [of d "length bs" h rest] assms(6) by simp
  finally show ?thesis
    using ready by (simp add: executeSQLWithParams_def emit_emits log_emits)
qed

lemma scan_events_snoc:
  "scan_events stmt n @ [Db_lock_shared, Step stmt, Db_unlock_shared] = scan_events stmt (Suc n)"
  by (induction n) (simp_all add: scan_events_def)

lemma read_loop_rows:
  "\<forall>r\<in>set rows. rc r = SQLITE_ROW \<Longrightarrow>
   executeQuery_loop env stmt (rows @ rest) retries results st =
   executeQuery_loop env stmt rest retries (results @ map book_of_row rows)
     (emits (scan_events stmt (length rows)) st)"
proof (induction rows arbitrary: results st)
  case Nil
  then show ?case by (simp add: scan_events_def)
next
  case (Cons r rows)
  let ?triple = "[Db_lock_shared, Step stmt, Db_unlock_shared]"
  have "executeQuery_loop env stmt ((r # rows) @ rest) retries results st =
      executeQuery_loop env stmt (rows @ rest) retries (results @ [book_of_row r]) (emits ?triple st)"
    using Cons.prems by (simp add: emit_emits Let_def)
  also have "\<dots> = executeQuery_loop env stmt rest retries
      ((results @ [book_of_row r]) @ map book_of_row rows)
      (emits (scan_events stmt (length rows)) (emits ?triple st))"
    using Cons.prems by (intro Cons.IH) simp
  finally show ?case by (simp add: scan_events_def)
qed

text \<open>
  The good path of a read: with a statement in hand and every bind accepted, a script of
  rows followed by an answer that is neither a row nor busy ends the call; it has reset
  the statement, bound every parameter in order, made one guarded step for each answer,
  and returns the rows.
\<close>

lemma executeQuery_exact:
  assumes "getPreparedStatement env sql (log DEBUG (''Executing query: '' @ sql) st) = (h, st1)"
    and "h \<noteq> 0"
    and "\<forall>j<length params. bind_text env h (j + 1) (params ! j) = SQLITE_OK"
    and "\<forall>r\<in>set rows. rc r = SQLITE_ROW" and "rc d \<noteq> SQLITE_ROW" and "rc d \<noteq> SQLITE_BUSY"
  shows "executeQuery env sql params (rows @ d # rest) st =
     Some (map book_of_row rows,
       emits ([Reset h, Clear_bindings h]
              @ map (\<lambda>j. Bind_text h (j + 1) (params ! j) SQLITE_TRANSIENT) [0..<length params]
              @ scan_events h (Suc (length rows))
              @ (if rc d = SQLITE_DONE then []
                 else [Log ERROR (''Failed to execute query: '' @ errmsg env)])
              @ [Log DEBUG (if rows \<noteq> []
                            then ''Query returned '' @ to_string_nat (length rows) @ '' results''
                            else ''Query returned no results'')]) st1)"
proof -
  let ?binds = "map (\<lambda>j. Bind_text h (j + 1) (params ! j) SQLITE_TRANSIENT) [0..<length params]"
  let ?st3 = "emits ([Reset h, Clear_bindings h] @ ?binds) st1"
  let ?triple = "[Db_lock_shared, Step h, Db_unlock_shared]"
  have "bind_params env h 0 params (emits [Reset h, Clear_bindings h] st1) = Inr (emits ?binds
      (emits [Reset h, Clear_bindings h] st1))"
    using bind_params_ok [of params env h 0 "emits [Reset h, Clear_bindings h] st1"] assms(3)
    by simp
  with assms(1,2) have ready: "reset_and_bind env sql params
      (log DEBUG (''Executing query: '' @ sql) st) = Inr (h, ?st3)"
    by (simp add: reset_and_bind_def emit_emits)
  have "executeQuery_loop env h (rows @ d # rest) 0 [] ?st3 =
      executeQuery_loop env h (d # rest) 0 ([] @ map book_of_row rows)
        (emits (scan_events h (length rows)) ?st3)"
    using assms(4) by (rule read_loop_rows)
  also have "\<dots> = Some ([] @ map book_of_row rows,
      emits (?triple @ (if rc d = SQLITE_DONE then []
                        else [Log ERROR (''Failed to execute query: '' @ errmsg env)]))
        (emits (scan_events h (length rows)) ?st3))"
    using assms(5,6) by (intro read_loop_last) simp_all
  finally have loop: "executeQuery_loop env h (rows @ d # rest) 0 [] ?st3 =
      Some (map book_of_row rows,
        emits (scan_events h (length rows) @ ?triple
                 @ (if rc d = SQLITE_DONE then []
                    else [Log ERROR (''Failed to execute query: '' @ errmsg env)])) ?st3)"
    by simp
  have "scan_events h (length rows) @ ?triple = scan_events h (Suc (length rows))"
    by (rule scan_events_snoc)
  with loop ready show ?thesis
    by (cases "rows = []") (simp_all add: executeQuery_def log_emits)
qed

lemma write_operation_exact:
  assumes "getPreparedStatement env sql (entered_write sql params said st) = (h, st1)"
    and "h \<noteq> 0"
    and "\<forall>j<length params. bind_text env h (j + 1) (params ! j) = SQLITE_OK"
    and "\<forall>r\<in>set bs. rc r = SQLITE_BUSY" and "length bs \<le> 5" and "rc d \<noteq> SQLITE_BUSY"
  shows "(case executeSQLWithParams env sql params (bs @ d # rest) (log INFO said st) of
            None \<Rightarrow> None
          | Some (ok, s) \<Rightarrow>
              if \<not> ok then Some (False, log ERROR complaint s) else Some (True, s)) =
     Some (rc d = SQLITE_DONE,
       emits ([Reset h, Clear_bindings h]
              @ map (\<lambda>j. Bind_text h (j + 1) (params ! j) SQLITE_TRANSIENT) [0..<length params]
              @ Db_lock # retry_events h 0 (length bs) @ [Step h, Db_unlock]
              @ (if rc d = SQLITE_DONE then []
                 else [Log ERROR (''Failed to execute SQL: '' @ errmsg env), Log ERROR complaint])) st1)"
  using executeSQLWithParams_exact [of env sql params "log INFO said st" h st1 bs d rest] assms
  by (simp add: entered_write_def log_emits)

lemma read_operation_exact:
  assumes "getPreparedStatement env sql (entered_read sql said st) = (h, st1)"
    and "h \<noteq> 0"
    and "\<forall>j<length params. bind_text env h (j + 1) (params ! j) = SQLITE_OK"
    and "\<forall>r\<in>set rows. rc r = SQLITE_ROW" and "rc d \<noteq> SQLITE_ROW" and "rc d \<noteq> SQLITE_BUSY"
  shows "executeQuery env sql params (rows @ d # rest) (log INFO said st) =
     Some (map book_of_row rows,
       emits ([Reset h, Clear_bindings h]
              @ map (\<lambda>j. Bind_text h (j + 1) (params ! j) SQLITE_TRANSIENT) [0..<length params]
              @ scan_events h (Suc (length rows))
              @ (if rc d = SQLITE_DONE then []
                 else [Log ERROR (''Failed to execute query: '' @ errmsg env)])
              @ [Log DEBUG (if rows \<noteq> []
                            then ''Query returned '' @ to_string_nat (length rows) @ '' results''
                            else ''Query returned no results'')]) st1)"
  using executeQuery_exact [of env sql "log INFO said st" h st1 params rows d rest] assms
  by (simp add: entered_read_def)

lemma passes_only_sent:
  "passes_only sql params st st1 \<Longrightarrow> passes_only sql params2 st st2 \<Longrightarrow> sent st st1 = sent st st2"
  by (simp add: passes_only_def Let_def)

text \<open>
  C9. For each of the five operations and whatever its arguments:

  (1) On the good path (a statement in hand, every bind accepted, a script that ends the
  stepping) the call is known event by event from the moment it has its statement: it
  resets the statement, binds its arguments, each once, at the positions of its
  parameter list with \<open>SQLITE_TRANSIENT\<close>, and steps; nothing else reaches the store.

  (2) On every path the only SQL text handed to the store, by prepare or by exec, is the
  operation's constant template, prepared once when the cache did not hold it and not at
  all otherwise, and the values bound are the first so many of the parameter list.

  (3) Two runs of one operation from the same state, on any arguments and scripts, hand
  the store the same text.
\<close>

theorem operations_pass_fixed_templates:
  "(getPreparedStatement env addBook_sql
       (entered_write addBook_sql [to_string id_arg, title_arg, author_arg]
          (''Adding book: ID='' @ to_string id_arg @ '', Title='' @ quote @ title_arg
             @ quote @ '', Author='' @ quote @ author_arg @ quote) st) = (h, st1)
      \<and> h \<noteq> 0
      \<and> bind_text env h 1 (to_string id_arg) = SQLITE_OK
      \<and> bind_text env h 2 title_arg = SQLITE_OK
      \<and> bind_text env h 3 author_arg = SQLITE_OK
      \<and> (\<forall>r\<in>set bs. rc r = SQLITE_BUSY) \<and> length bs \<le> 5 \<and> rc d \<noteq> SQLITE_BUSY \<longrightarrow>
      addBook env id_arg title_arg author_arg (bs @ d # rest) st =
        Some (rc d = SQLITE_DONE,
          emits ([Reset h, Clear_bindings h,
                  Bind_text h 1 (to_string id_arg) SQLITE_TRANSIENT,
                  Bind_text h 2 title_arg SQLITE_TRANSIENT,
                  Bind_text h 3 author_arg SQLITE_TRANSIENT,
                  Db_lock] @ retry_events h 0 (length bs) @ [Step h, Db_unlock]
                 @ (if rc d = SQLITE_DONE then []
                    else [Log ERROR (''Failed to execute SQL: '' @ errmsg env),
                          Log ERROR ''Failed to add book''])) st1))
   \<and> (getPreparedStatement env searchBook_sql
       (entered_read searchBook_sql
          (''Searching for books with keyword: '' @ quote @ keyword @ quote) st) = (h, st1)
      \<and> h \<noteq> 0
      \<and> bind_text env h 1 (''%'' @ keyword @ ''%'') = SQLITE_OK
      \<and> bind_text env h 2 (''%'' @ keyword @ ''%'') = SQLITE_OK
      \<and> (\<forall>r\<in>set rows. rc r = SQLITE_ROW) \<and> rc d \<noteq> SQLITE_ROW \<and> rc d \<noteq> SQLITE_BUSY \<longrightarrow>
      searchBook env keyword (rows @ d # rest) st =
        Some (map book_of_row rows,
          emits ([Reset h, Clear_bindings h,
                  Bind_text h 1 (''%'' @ keyword @ ''%'') SQLITE_TRANSIENT,
                  Bind_text h 2 (''%'' @ keyword @ ''%'') SQLITE_TRANSIENT]
                 @ scan_events h (Suc (length rows))
                 @ (if rc d = SQLITE_DONE then []
                    else [Log ERROR (''Failed to execute query: '' @ errmsg env)])
                 @ [Log DEBUG (if rows \<noteq> []
                               then ''Query returned '' @ to_string_nat (length rows) @ '' results''
                               else ''Query returned no results'')]) st1))
   \<and> (getPreparedStatement env deleteBook_sql
       (entered_write deleteBook_sql [to_string id_arg]
          (''Deleting book with ID: '' @ to_string id_arg) st) = (h, st1)
      \<and> h \<noteq> 0
      \<and> bind_text env h 1 (to_string id_arg) = SQLITE_OK
      \<and> (\<forall>r\<in>set bs. rc r = SQLITE_BUSY) \<and> length bs \<le> 5 \<and> rc d \<noteq> SQLITE_BUSY \<longrightarrow>
      deleteBook env id_arg (bs @ d # rest) st =
        Some (rc d = SQLITE_DONE,
          emits ([Reset h, Clear_bindings h,
                  Bind_text h 1 (to_string id_arg) SQLITE_TRANSIENT,
                  Db_lock] @ retry_events h 0 (length bs) @ [Step h, Db_unlock]
                 @ (if rc d = SQLITE_DONE then []
                    else [Log ERROR (''Failed to execute SQL: '' @ errmsg env),
                          Log ERROR ''Failed to delete book''])) st1))
   \<and> (getPreparedStatement env updateBook_sql
       (entered_write updateBook_sql [newTitle, newAuthor, to_string id_arg]
          (''Updating book: ID='' @ to_string id_arg @ '', New Title='' @ quote @ newTitle
             @ quote @ '', New Author='' @ quote @ newAuthor @ quote) st) = (h, st1)
      \<and> h \<noteq> 0
      \<and> bind_text env h 1 newTitle = SQLITE_OK
      \<and> bind_text env h 2 newAuthor = SQLITE_OK
      \<and> bind_text env h 3 (to_string id_arg) = SQLITE_OK
      \<and> (\<forall>r\<in>set bs. rc r = SQLITE_BUSY) \<and> length bs \<le> 5 \<and> rc d \<noteq> SQLITE_BUSY \<longrightarrow>
      updateBook env id_arg newTitle newAuthor (bs @ d # rest) st =
        Some (rc d = SQLITE_DONE,
          emits ([Reset h, Clear_bindings h,
                  Bind_text h 1 newTitle SQLITE_TRANSIENT,
                  Bind_text h 2 newAuthor SQLITE_TRANSIENT,
                  Bind_text h 3 (to_string id_arg) SQLITE_TRANSIENT,
                  Db_lock] @ retry_events h 0 (length bs) @ [Step h, Db_unlock]
                 @ (if rc d = SQLITE_DONE then []
                    else [Log ERROR (''Failed to execute SQL: '' @ errmsg env),
                          Log ERROR ''Failed to update book''])) st1))
   \<and> (getPreparedStatement env displayBooks_sql
       (entered_read displayBooks_sql ''Displaying all books'' st) = (h, st1)
      \<and> h \<noteq> 0
      \<and> (\<forall>r\<in>set rows. rc r = SQLITE_ROW) \<and> rc d \<noteq> SQLITE_ROW \<and> rc d \<noteq> SQLITE_BUSY \<longrightarrow>
      displayBooks env (rows @ d # rest) st =
        Some (map book_of_row rows,
          emits ([Reset h, Clear_bindings h]
                 @ scan_events h (Suc (length rows))
                 @ (if rc d = SQLITE_DONE then []
                    else [Log ERROR (''Failed to execute query: '' @ errmsg env)])
                 @ [Log DEBUG (if rows \<noteq> []
                               then ''Query returned '' @ to_string_nat (length rows) @ '' results''
                               else ''Query returned no results'')]) st1))
   \<and> (addBook env id_arg title_arg author_arg script st = Some (ok, st') \<longrightarrow>
      passes_only addBook_sql [to_string id_arg, title_arg, author_arg] st st')
   \<and> (searchBook env keyword script st = Some (books, st') \<longrightarrow>
      passes_only searchBook_sql [''%'' @ keyword @ ''%'', ''%'' @ keyword @ ''%''] st st')
   \<and> (deleteBook env id_arg script st = Some (ok, st') \<longrightarrow>
      passes_only deleteBook_sql [to_string id_arg] st st')
   \<and> (updateBook env id_arg newTitle newAuthor script st = Some (ok, st') \<longrightarrow>
      passes_only updateBook_sql [newTitle, newAuthor, to_string id_arg] st st')
   \<and> (displayBooks env script st = Some (books, st') \<longrightarrow>
      passes_only displayBooks_sql [] st st')
   \<and> (addBook env id_arg title_arg author_arg script st = Some (ok, st')
      \<and> addBook env id_arg2 title_arg2 author_arg2 script2 st = Some (ok2, st2) \<longrightarrow>
      sent st st' = sent st st2)
   \<and> (searchBook env keyword script st = Some (books, st')
      \<and> searchBook env keyword2 script2 st = Some (books2, st2) \<longrightarrow>
      sent st st' = sent st st2)
   \<and> (deleteBook env id_arg script st = Some (ok, st')
      \<and> deleteBook env id_arg2 script2 st = Some (ok2, st2) \<longrightarrow>
      sent st st' = sent st st2)
   \<and> (updateBook env id_arg newTitle newAuthor script st = Some (ok, st')
      \<and> updateBook env id_arg2 newTitle2 newAuthor2 script2 st = Some (ok2, st2) \<longrightarrow>
      sent st st' = sent st st2)
   \<and> (displayBooks env script st = Some (books, st')
      \<and> displayBooks env script2 st = Some (books2, st2) \<longrightarrow>
      sent st st' = sent st st2)"
proof -
  have add_passes: "passes_only addBook_sql [to_string i, t, a] s s'"
    if "addBook env i t a sc s = Some (r, s')" for i t a sc s r s'
    using that unfolding addBook_def Let_def by (rule write_operation_passes)
  have delete_passes: "passes_only deleteBook_sql [to_string i] s s'"
    if "deleteBook env i sc s = Some (r, s')" for i sc s r s'
    using that unfolding deleteBook_def Let_def by (rule write_operation_passes)
  have update_passes: "passes_only updateBook_sql [t, a, to_string i] s s'"
    if "updateBook env i t a sc s = Some (r, s')" for i t a sc s r s'
    using that unfolding updateBook_def Let_def by (rule write_operation_passes)
  have search_passes: "passes_only searchBook_sql [''%'' @ k @ ''%'', ''%'' @ k @ ''%''] s s'"
    if "searchBook env k sc s = Some (r, s')" for k sc s r s'
    using that unfolding searchBook_def Let_def by (rule read_operation_passes)
  have display_passes: "passes_only displayBooks_sql [] s s'"
    if "displayBooks env sc s = Some (r, s')" for sc s r s'
    using that unfolding displayBooks_def by (rule read_operation_passes)
  have three: "(\<forall>j<length [x, y, z]. P j) \<longleftrightarrow> P 0 \<and> P 1 \<and> P 2" for x y z :: string and P
    by (auto simp add: less_Suc_eq numeral_2_eq_2)
  have two: "(\<forall>j<length [x, y]. P j) \<longleftrightarrow> P 0 \<and> P 1" for x y :: string and P
    by (auto simp add: less_Suc_eq)
  have upt3: "[0..<length [x, y, z]] = [0, 1, 2]" for x y z :: string
    by (simp add: upt_rec numeral_2_eq_2)
  have upt2: "[0..<length [x, y]] = [0, 1]" for x y :: string
    by (simp add: upt_rec)
  have add_exact: "addBook env id_arg title_arg author_arg (bs @ d # rest) st =
        Some (rc d = SQLITE_DONE,
          emits ([Reset h, Clear_bindings h,
                  Bind_text h 1 (to_string id_arg) SQLITE_TRANSIENT,
                  Bind_text h 2 title_arg SQLITE_TRANSIENT,
                  Bind_text h 3 author_arg SQLITE_TRANSIENT,
                  Db_lock] @ retry_events h 0 (length bs) @ [Step h, Db_unlock]
                 @ (if rc d = SQLITE_DONE then []
                    else [Log ERROR (''Failed to execute SQL: '' @ errmsg env),
                          Log ERROR ''Failed to add book''])) st1)"
    if "getPreparedStatement env addBook_sql
       (entered_write addBook_sql [to_string id_arg, title_arg, author_arg]
          (''Adding book: ID='' @ to_string id_arg @ '', Title='' @ quote @ title_arg
             @ quote @ '', Author='' @ quote @ author_arg @ quote) st) = (h, st1)
      \<and> h \<noteq> 0
      \<and> bind_text env h 1 (to_string id_arg) = SQLITE_OK
      \<and> bind_text env h 2 title_arg = SQLITE_OK
      \<and> bind_text env h 3 author_arg = SQLITE_OK
      \<and> (\<forall>r\<in>set bs. rc r = SQLITE_BUSY) \<and> length bs \<le> 5 \<and> rc d \<noteq> SQLITE_BUSY"
  proof -
    from that have "\<forall>j<length [to_string id_arg, title_arg, author_arg].
        bind_text env h (j + 1) ([to_string id_arg, title_arg, author_arg] ! j) = SQLITE_OK"
      unfolding three by (simp add: numeral_2_eq_2 numeral_3_eq_3)
    from write_operation_exact [where sql = addBook_sql and st = st and ?st1.0 = st1 and bs = bs and d = d
        and rest = rest and complaint = "''Failed to add book''", OF _ _ this]
      that
    show ?thesis
      unfolding addBook_def Let_def upt3 by (simp add: numeral_2_eq_2 numeral_3_eq_3)
  qed
  have delete_exact: "deleteBook env id_arg (bs @ d # rest) st =
        Some (rc d = SQLITE_DONE,
          emits ([Reset h, Clear_bindings h,
                  Bind_text h 1 (to_string id_arg) SQLITE_TRANSIENT,
                  Db_lock] @ retry_events h 0 (length bs) @ [Step h, Db_unlock]
                 @ (if rc d = SQLITE_DONE then []
                    else [Log ERROR (''Failed to execute SQL: '' @ errmsg env),
                          Log ERROR ''Failed to delete book''])) st1)"
    if "getPreparedStatement env deleteBook_sql
       (entered_write deleteBook_sql [to_string id_arg]
          (''Deleting book with ID: '' @ to_string id_arg) st) = (h, st1)
      \<and> h \<noteq> 0
      \<and> bind_text env h 1 (to_string id_arg) = SQLITE_OK
      \<and> (\<forall>r\<in>set bs. rc r = SQLITE_BUSY) \<and> length bs \<le> 5 \<and> rc d \<noteq> SQLITE_BUSY"
  proof -
    from that have "\<forall>j<length [to_string id_arg].
        bind_text env h (j + 1) ([to_string id_arg] ! j) = SQLITE_OK"
      by simp
    from write_operation_exact [where sql = deleteBook_sql and st = st and ?st1.0 = st1 and bs = bs and d = d
        and rest = rest and complaint = "''Failed to delete book''", OF _ _ this]
      that
    show ?thesis
      unfolding deleteBook_def Let_def by simp
  qed
  have update_exact: "updateBook env id_arg newTitle newAuthor (bs @ d # rest) st =
        Some (rc d = SQLITE_DONE,
          emits ([Reset h, Clear_bindings h,
                  Bind_text h 1 newTitle SQLITE_TRANSIENT,
                  Bind_text h 2 newAuthor SQLITE_TRANSIENT,
                  Bind_text h 3 (to_string id_arg) SQLITE_TRANSIENT,
                  Db_lock] @ retry_events h 0 (length bs) @ [Step h, Db_unlock]
                 @ (if rc d = SQLITE_DONE then []
                    else [Log ERROR (''Failed to execute SQL: '' @ errmsg env),
                          Log ERROR ''Failed to update book''])) st1)"
    if "getPreparedStatement env updateBook_sql
       (entered_write updateBook_sql [newTitle, newAuthor, to_string id_arg]
          (''Updating book: ID='' @ to_string id_arg @ '', New Title='' @ quote @ newTitle
             @ quote @ '', New Author='' @ quote @ newAuthor @ quote) st) = (h, st1)
      \<and> h \<noteq> 0
      \<and> bind_text env h 1 newTitle = SQLITE_OK
      \<and> bind_text env h 2 newAuthor = SQLITE_OK
      \<and> bind_text env h 3 (to_string id_arg) = SQLITE_OK
      \<and> (\<forall>r\<in>set bs. rc r = SQLITE_BUSY) \<and> length bs \<le> 5 \<and> rc d \<noteq> SQLITE_BUSY"
  proof -
    from that have "\<forall>j<length [newTitle, newAuthor, to_string id_arg].
        bind_text env h (j + 1) ([newTitle, newAuthor, to_string id_arg] ! j) = SQLITE_OK"
      unfolding three by (simp add: numeral_2_eq_2 numeral_3_eq_3)
    from write_operation_exact [where sql = updateBook_sql and st = st and ?st1.0 = st1 and bs = bs and d = d
        and rest = rest and complaint = "''Failed to update book''", OF _ _ this]
      that
    show ?thesis
      unfolding updateBook_def Let_def upt3 by (simp add: numeral_2_eq_2 numeral_3_eq_3)
  qed
  have search_exact: "searchBook env keyword (rows @ d # rest) st =
        Some (map book_of_row rows,
          emits ([Reset h, Clear_bindings h,
                  Bind_text h 1 (''%'' @ keyword @ ''%'') SQLITE_TRANSIENT,
                  Bind_text h 2 (''%'' @ keyword @ ''%'') SQLITE_TRANSIENT]
                 @ scan_events h (Suc (length rows))
                 @ (if rc d = SQLITE_DONE then []
                    else [Log ERROR (''Failed to execute query: '' @ errmsg env)])
                 @ [Log DEBUG (if rows \<noteq> []
                               then ''Query returned '' @ to_string_nat (length rows) @ '' results''
                               else ''Query returned no results'')]) st1)"
    if "getPreparedStatement env searchBook_sql
       (entered_read searchBook_sql
          (''Searching for books with keyword: '' @ quote @ keyword @ quote) st) = (h, st1)
      \<and> h \<noteq> 0
      \<and> bind_text env h 1 (''%'' @ keyword @ ''%'') = SQLITE_OK
      \<and> bind_text env h 2 (''%'' @ keyword @ ''%'') = SQLITE_OK
      \<and> (\<forall>r\<in>set rows. rc r = SQLITE_ROW) \<and> rc d \<noteq> SQLITE_ROW \<and> rc d \<noteq> SQLITE_BUSY"
  proof -
    from that have "\<forall>j<length [''%'' @ keyword @ ''%'', ''%'' @ keyword @ ''%''].
        bind_text env h (j + 1) ([''%'' @ keyword @ ''%'', ''%'' @ keyword @ ''%''] ! j) = SQLITE_OK"
      unfolding two by (simp add: numeral_2_eq_2)
    from read_operation_exact [where sql = searchBook_sql and st = st and ?st1.0 = st1 and rows = rows and d = d
        and rest = rest, OF _ _ this] that
    show ?thesis
      unfolding searchBook_def Let_def upt2 by (simp add: numeral_2_eq_2)
  qed
  have display_exact: "displayBooks env (rows @ d # rest) st =
        Some (map book_of_row rows,
          emits ([Reset h, Clear_bindings h]
                 @ scan_events h (Suc (length rows))
                 @ (if rc d = SQLITE_DONE then []
                    else [Log ERROR (''Failed to execute query: '' @ errmsg env)])
                 @ [Log DEBUG (if rows \<noteq> []
                               then ''Query returned '' @ to_string_nat (length rows) @ '' results''
                               else ''Query returned no results'')]) st1)"
    if "getPreparedStatement env displayBooks_sql
       (entered_read displayBooks_sql ''Displaying all books'' st) = (h, st1)
      \<and> h \<noteq> 0
      \<and> (\<forall>r\<in>set rows. rc r = SQLITE_ROW) \<and> rc d \<noteq> SQLITE_ROW \<and> rc d \<noteq> SQLITE_BUSY"
  proof -
    have "\<forall>j<length ([] :: string list). bind_text env h (j + 1) ([] ! j) = SQLITE_OK"
      by simp
    from read_operation_exact [where sql = displayBooks_sql and st = st and ?st1.0 = st1 and rows = rows and d = d
        and rest = rest, OF _ _ this] that
    show ?thesis
      unfolding displayBooks_def by simp
  qed
  show ?thesis
  proof (intro conjI impI)
    assume "addBook env id_arg title_arg author_arg script st = Some (ok, st')
      \<and> addBook env id_arg2 title_arg2 author_arg2 script2 st = Some (ok2, st2)"
    then show "sent st st' = sent st st2"
      by (metis add_passes passes_only_sent)
  next
    assume "searchBook env keyword script st = Some (books, st')
      \<and> searchBook env keyword2 script2 st = Some (books2, st2)"
    then show "sent st st' = sent st st2"
      by (metis search_passes passes_only_sent)
  next
    assume "deleteBook env id_arg script st = Some (ok, st')
      \<and> deleteBook env id_arg2 script2 st = Some (ok2, st2)"
    then show "sent st st' = sent st st2"
      by (metis delete_passes passes_only_sent)
  next
    assume "updateBook env id_arg newTitle newAuthor script st = Some (ok, st')
      \<and> updateBook env id_arg2 newTitle2 newAuthor2 script2 st = Some (ok2, st2)"
    then show "sent st st' = sent st st2"
      by (metis update_passes passes_only_sent)
  next
    assume "displayBooks env script st = Some (books, st')
      \<and> displayBooks env script2 st = Some (books2, st2)"
    then show "sent st st' = sent st st2"
      by (metis display_passes passes_only_sent)
  qed (rule add_exact search_exact delete_exact update_exact display_exact
        add_passes search_passes delete_passes update_passes display_passes, assumption)+
qed

theorem operations_pass_fixed_templates_witness:
  "write_report (addBook accepting 8 (''x'' @ quote @ ''); DROP TABLE books; --'') ''Mallory''
       [busy, finished] fresh) =
     Some (True,
       [Log INFO (''Adding book: ID=8, Title='' @ quote @ ''x'' @ quote @ ''); DROP TABLE books; --''
                    @ quote @ '', Author='' @ quote @ ''Mallory'' @ quote),
        Log DEBUG (''Executing SQL: '' @ addBook_sql @ '' with 3 parameters''),
        Cache_lock_shared, Cache_unlock_shared, Cache_lock, Prepare addBook_sql 0 1, Cache_unlock,
        Reset 1, Clear_bindings 1,
        Bind_text 1 1 ''8'' SQLITE_TRANSIENT,
        Bind_text 1 2 (''x'' @ quote @ ''); DROP TABLE books; --'') SQLITE_TRANSIENT,
        Bind_text 1 3 ''Mallory'' SQLITE_TRANSIENT,
        Db_lock, Step 1, Log DEBUG ''Database busy, retrying... (1/5)'', Sleep_ms 10, Step 1,
        Db_unlock])
   \<and> read_report (searchBook accepting ''o'' [row 3 (Some ''Solaris'') None, finished] fresh) =
     Some ([\<lparr>id_field = 3, title = ''Solaris'', author = []\<rparr>],
       [Log INFO (''Searching for books with keyword: '' @ quote @ ''o'' @ quote),
        Log DEBUG (''Executing query: '' @ searchBook_sql),
        Cache_lock_shared, Cache_unlock_shared, Cache_lock, Prepare searchBook_sql 0 1, Cache_unlock,
        Reset 1, Clear_bindings 1,
        Bind_text 1 1 ''%o%'' SQLITE_TRANSIENT, Bind_text 1 2 ''%o%'' SQLITE_TRANSIENT,
        Db_lock_shared, Step 1, Db_unlock_shared, Db_lock_shared, Step 1, Db_unlock_shared,
        Log DEBUG ''Query returned 1 results''])
   \<and> write_report (deleteBook accepting (- 4) [failed] fresh) =
     Some (False,
       [Log INFO ''Deleting book with ID: -4'',
        Log DEBUG (''Executing SQL: '' @ deleteBook_sql @ '' with 1 parameters''),
        Cache_lock_shared, Cache_unlock_shared, Cache_lock, Prepare deleteBook_sql 0 1, Cache_unlock,
        Reset 1, Clear_bindings 1,
        Bind_text 1 1 ''-4'' SQLITE_TRANSIENT,
        Db_lock, Step 1, Db_unlock,
        Log ERROR ''Failed to execute SQL: database is locked'',
        Log ERROR ''Failed to delete book''])
   \<and> write_report (updateBook accepting 12 ''T'' (''A'' @ quote @ '' OR 1=1'') [finished] fresh) =
     Some (True,
       [Log INFO (''Updating book: ID=12, New Title='' @ quote @ ''T'' @ quote @ '', New Author=''
                    @ quote @ ''A'' @ quote @ '' OR 1=1'' @ quote),
        Log DEBUG (''Executing SQL: '' @ updateBook_sql @ '' with 3 parameters''),
        Cache_lock_shared, Cache_unlock_shared, Cache_lock, Prepare updateBook_sql 0 1, Cache_unlock,
        Reset 1, Clear_bindings 1,
        Bind_text 1 1 ''T'' SQLITE_TRANSIENT,
        Bind_text 1 2 (''A'' @ quote @ '' OR 1=1'') SQLITE_TRANSIENT,
        Bind_text 1 3 ''12'' SQLITE_TRANSIENT,
        Db_lock, Step 1, Db_unlock])
   \<and> read_report (displayBooks accepting [finished] fresh) =
     Some ([],
       [Log INFO ''Displaying all books'',
        Log DEBUG (''Executing query: '' @ displayBooks_sql),
        Cache_lock_shared, Cache_unlock_shared, Cache_lock, Prepare displayBooks_sql 0 1, Cache_unlock,
        Reset 1, Clear_bindings 1,
        Db_lock_shared, Step 1, Db_unlock_shared,
        Log DEBUG ''Query returned no results''])
   \<and> map_option (sent fresh \<circ> snd) (addBook accepting 7 ''The Hobbit'' ''Tolkien'' [finished] fresh) =
     Some [addBook_sql]
   \<and> map_option (sent fresh \<circ> snd)
       (addBook accepting 8 (''x'' @ quote @ ''); DROP TABLE books; --'') ''Mallory''
          [busy, finished] fresh) =
     Some [addBook_sql]"
proof -
  let ?evil = "''x'' @ quote @ ''); DROP TABLE books; --''"
  let ?sly = "''A'' @ quote @ '' OR 1=1''"
  let ?add_said = "''Adding book: ID='' @ to_string 8 @ '', Title='' @ quote @ ?evil
             @ quote @ '', Author='' @ quote @ ''Mallory'' @ quote"
  let ?add7_said = "''Adding book: ID='' @ to_string 7 @ '', Title='' @ quote @ ''The Hobbit''
             @ quote @ '', Author='' @ quote @ ''Tolkien'' @ quote"
  let ?search_said = "''Searching for books with keyword: '' @ quote @ ''o'' @ quote"
  let ?delete_said = "''Deleting book with ID: '' @ to_string (- 4)"
  let ?update_said = "''Updating book: ID='' @ to_string 12 @ '', New Title='' @ quote @ ''T''
             @ quote @ '', New Author='' @ quote @ ?sly @ quote"
  let ?add1 = "emits
     [Log INFO ?add_said,
      Log DEBUG (''Executing SQL: '' @ addBook_sql @ '' with 3 parameters''),
      Cache_lock_shared, Cache_unlock_shared, Cache_lock, Prepare addBook_sql 0 1, Cache_unlock]
     (fresh\<lparr>stmt_cache := [(addBook_sql, 1)]\<rparr>)"
  let ?add7 = "emits
     [Log INFO ?add7_said,
      Log DEBUG (''Executing SQL: '' @ addBook_sql @ '' with 3 parameters''),
      Cache_lock_shared, Cache_unlock_shared, Cache_lock, Prepare addBook_sql 0 1, Cache_unlock]
     (fresh\<lparr>stmt_cache := [(addBook_sql, 1)]\<rparr>)"
  let ?search1 = "emits
     [Log INFO ?search_said,
      Log DEBUG (''Executing query: '' @ searchBook_sql),
      Cache_lock_shared, Cache_unlock_shared, Cache_lock, Prepare searchBook_sql 0 1, Cache_unlock]
     (fresh\<lparr>stmt_cache := [(searchBook_sql, 1)]\<rparr>)"
  let ?delete1 = "emits
     [Log INFO ?delete_said,
      Log DEBUG (''Executing SQL: '' @ deleteBook_sql @ '' with 1 parameters''),
      Cache_lock_shared, Cache_unlock_shared, Cache_lock, Prepare deleteBook_sql 0 1, Cache_unlock]
     (fresh\<lparr>stmt_cache := [(deleteBook_sql, 1)]\<rparr>)"
  let ?update1 = "emits
     [Log INFO ?update_said,
      Log DEBUG (''Executing SQL: '' @ updateBook_sql @ '' with 3 parameters''),
      Cache_lock_shared, Cache_unlock_shared, Cache_lock, Prepare updateBook_sql 0 1, Cache_unlock]
     (fresh\<lparr>stmt_cache := [(updateBook_sql, 1)]\<rparr>)"
  let ?display1 = "emits
     [Log INFO ''Displaying all books'',
      Log DEBUG (''Executing query: '' @ displayBooks_sql),
      Cache_lock_shared, Cache_unlock_shared, Cache_lock, Prepare displayBooks_sql 0 1, Cache_unlock]
     (fresh\<lparr>stmt_cache := [(displayBooks_sql, 1)]\<rparr>)"
  have add_prep: "getPreparedStatement accepting addBook_sql
      (entered_write addBook_sql [to_string 8, ?evil, ''Mallory''] ?add_said fresh) = (1, ?add1)"
    by (simp add: entered_write_def eval_defs codes samples emit_def emits_def)
  have add7_prep: "getPreparedStatement accepting addBook_sql
      (entered_write addBook_sql [to_string 7, ''The Hobbit'', ''Tolkien''] ?add7_said fresh) = (1, ?add7)"
    by (simp add: entered_write_def eval_defs codes samples emit_def emits_def)
  have search_prep: "getPreparedStatement accepting searchBook_sql
      (entered_read searchBook_sql ?search_said fresh) = (1, ?search1)"
    by (simp add: entered_read_def eval_defs codes samples emit_def emits_def)
  have delete_prep: "getPreparedStatement accepting deleteBook_sql
      (entered_write deleteBook_sql [to_string (- 4)] ?delete_said fresh) = (1, ?delete1)"
    by (simp add: entered_write_def eval_defs codes samples emit_def emits_def)
  have update_prep: "getPreparedStatement accepting updateBook_sql
      (entered_write updateBook_sql [''T'', ?sly, to_string 12] ?update_said fresh) = (1, ?update1)"
    by (simp add: entered_write_def eval_defs codes samples emit_def emits_def)
  have display_prep: "getPreparedStatement accepting displayBooks_sql
      (entered_read displayBooks_sql ''Displaying all books'' fresh) = (1, ?display1)"
    by (simp add: entered_read_def eval_defs codes samples emit_def emits_def)
  have binds: "bind_text accepting 1 i v = SQLITE_OK" for i v
    by (simp add: codes samples)
  have outcomes: "rc busy = SQLITE_BUSY" "rc finished = SQLITE_DONE" "rc finished \<noteq> SQLITE_BUSY"
    "rc finished \<noteq> SQLITE_ROW" "rc failed \<noteq> SQLITE_DONE" "rc failed \<noteq> SQLITE_BUSY"
    "rc (row 3 (Some ''Solaris'') None) = SQLITE_ROW"
    by (simp_all add: codes samples)
  have add_run: "addBook accepting 8 ?evil ''Mallory'' [busy, finished] fresh =
      Some (True, emits ([Reset 1, Clear_bindings 1,
          Bind_text 1 1 (to_string 8) SQLITE_TRANSIENT,
          Bind_text 1 2 ?evil SQLITE_TRANSIENT,
          Bind_text 1 3 ''Mallory'' SQLITE_TRANSIENT,
          Db_lock] @ retry_events 1 0 (Suc 0) @ [Step 1, Db_unlock]) ?add1)"
    using operations_pass_fixed_templates [where env = accepting and id_arg = 8 and title_arg = ?evil and author_arg = "''Mallory''"
          and st = fresh and h = 1 and ?st1.0 = ?add1 and bs = "[busy]" and d = finished and rest = "[]",
        THEN conjunct1]
      add_prep binds outcomes
    by simp
  have add7_run: "addBook accepting 7 ''The Hobbit'' ''Tolkien'' [finished] fresh =
      Some (True, emits ([Reset 1, Clear_bindings 1,
          Bind_text 1 1 (to_string 7) SQLITE_TRANSIENT,
          Bind_text 1 2 ''The Hobbit'' SQLITE_TRANSIENT,
          Bind_text 1 3 ''Tolkien'' SQLITE_TRANSIENT,
          Db_lock, Step 1, Db_unlock]) ?add7)"
    using operations_pass_fixed_templates [where env = accepting and id_arg = 7 and title_arg = "''The Hobbit''"
          and author_arg = "''Tolkien''"
          and st = fresh and h = 1 and ?st1.0 = ?add7 and bs = "[]" and d = finished and rest = "[]",
        THEN conjunct1]
      add7_prep binds outcomes
    by simp
  have search_run: "searchBook accepting ''o'' [row 3 (Some ''Solaris'') None, finished] fresh =
      Some ([book_of_row (row 3 (Some ''Solaris'') None)],
        emits ([Reset 1, Clear_bindings 1,
          Bind_text 1 1 ''%o%'' SQLITE_TRANSIENT, Bind_text 1 2 ''%o%'' SQLITE_TRANSIENT]
          @ scan_events 1 (Suc (Suc 0)) @ [Log DEBUG (''Query returned '' @ to_string_nat 1 @ '' results'')])
          ?search1)"
    using operations_pass_fixed_templates [where env = accepting and keyword = "''o''"
          and st = fresh and h = 1 and ?st1.0 = ?search1
          and rows = "[row 3 (Some ''Solaris'') None]" and d = finished and rest = "[]",
        THEN conjunct2, THEN conjunct1]
      search_prep binds outcomes
    by simp
  have delete_run: "deleteBook accepting (- 4) [failed] fresh =
      Some (False, emits ([Reset 1, Clear_bindings 1,
          Bind_text 1 1 (to_string (- 4)) SQLITE_TRANSIENT,
          Db_lock, Step 1, Db_unlock,
          Log ERROR (''Failed to execute SQL: '' @ errmsg accepting),
          Log ERROR ''Failed to delete book'']) ?delete1)"
    using operations_pass_fixed_templates [where env = accepting and id_arg = "- 4"
          and st = fresh and h = 1 and ?st1.0 = ?delete1 and bs = "[]" and d = failed and rest = "[]",
        THEN conjunct2, THEN conjunct2, THEN conjunct1]
      delete_prep binds outcomes
    by simp
  have update_run: "updateBook accepting 12 ''T'' ?sly [finished] fresh =
      Some (True, emits ([Reset 1, Clear_bindings 1,
          Bind_text 1 1 ''T'' SQLITE_TRANSIENT,
          Bind_text 1 2 ?sly SQLITE_TRANSIENT,
          Bind_text 1 3 (to_string 12) SQLITE_TRANSIENT,
          Db_lock, Step 1, Db_unlock]) ?update1)"
    using operations_pass_fixed_templates [where env = accepting and id_arg = 12 and newTitle = "''T''" and newAuthor = ?sly
          and st = fresh and h = 1 and ?st1.0 = ?update1 and bs = "[]" and d = finished and rest = "[]",
        THEN conjunct2, THEN conjunct2, THEN conjunct2, THEN conjunct1]
      update_prep binds outcomes
    by simp
  have display_run: "displayBooks accepting [finished] fresh =
      Some ([], emits ([Reset 1, Clear_bindings 1] @ scan_events 1 (Suc 0)
          @ [Log DEBUG ''Query returned no results'']) ?display1)"
    using operations_pass_fixed_templates [where env = accepting
          and st = fresh and h = 1 and ?st1.0 = ?display1 and rows = "[]" and d = finished and rest = "[]",
        THEN conjunct2, THEN conjunct2, THEN conjunct2, THEN conjunct2, THEN conjunct1]
      display_prep outcomes
    by simp
  have empty: "map_of (stmt_cache fresh) sql = None" for sql
    by (simp add: fresh_def)
  from operations_pass_fixed_templates [THEN conjunct2, THEN conjunct2, THEN conjunct2, THEN conjunct2,
      THEN conjunct2, THEN conjunct1, THEN mp, OF add7_run]
  have "passes_only addBook_sql [to_string 7, ''The Hobbit'', ''Tolkien''] fresh
      (emits ([Reset 1, Clear_bindings 1,
          Bind_text 1 1 (to_string 7) SQLITE_TRANSIENT,
          Bind_text 1 2 ''The Hobbit'' SQLITE_TRANSIENT,
          Bind_text 1 3 ''Tolkien'' SQLITE_TRANSIENT,
          Db_lock, Step 1, Db_unlock]) ?add7)" .
  with empty have sent7: "sent fresh (emits ([Reset 1, Clear_bindings 1,
          Bind_text 1 1 (to_string 7) SQLITE_TRANSIENT,
          Bind_text 1 2 ''The Hobbit'' SQLITE_TRANSIENT,
          Bind_text 1 3 ''Tolkien'' SQLITE_TRANSIENT,
          Db_lock, Step 1, Db_unlock]) ?add7) = [addBook_sql]"
    unfolding passes_only_def Let_def by simp
  from operations_pass_fixed_templates [THEN conjunct2, THEN conjunct2, THEN conjunct2, THEN conjunct2,
      THEN conjunct2, THEN conjunct2, THEN conjunct2, THEN conjunct2, THEN conjunct2, THEN conjunct2,
      THEN conjunct1, THEN mp, OF conjI [OF add_run add7_run]] sent7
  have sent8: "sent fresh (emits ([Reset 1, Clear_bindings 1,
          Bind_text 1 1 (to_string 8) SQLITE_TRANSIENT,
          Bind_text 1 2 ?evil SQLITE_TRANSIENT,
          Bind_text 1 3 ''Mallory'' SQLITE_TRANSIENT,
          Db_lock] @ retry_events 1 0 (Suc 0) @ [Step 1, Db_unlock]) ?add1) = [addBook_sql]"
    by simp
  have c1: "write_report (addBook accepting 8 ?evil ''Mallory'' [busy, finished] fresh) =
     Some (True,
       [Log INFO (''Adding book: ID=8, Title='' @ quote @ ''x'' @ quote @ ''); DROP TABLE books; --''
                    @ quote @ '', Author='' @ quote @ ''Mallory'' @ quote),
        Log DEBUG (''Executing SQL: '' @ addBook_sql @ '' with 3 parameters''),
        Cache_lock_shared, Cache_unlock_shared, Cache_lock, Prepare addBook_sql 0 1, Cache_unlock,
        Reset 1, Clear_bindings 1,
        Bind_text 1 1 ''8'' SQLITE_TRANSIENT,
        Bind_text 1 2 ?evil SQLITE_TRANSIENT,
        Bind_text 1 3 ''Mallory'' SQLITE_TRANSIENT,
        Db_lock, Step 1, Log DEBUG ''Database busy, retrying... (1/5)'', Sleep_ms 10, Step 1,
        Db_unlock])"
    unfolding add_run
    by (simp add: write_report_def retry_events_Suc busy_message_def to_string_def
        to_string_nat.simps digit_char_def codes fresh_def)
  have c2: "read_report (searchBook accepting ''o'' [row 3 (Some ''Solaris'') None, finished] fresh) =
     Some ([\<lparr>id_field = 3, title = ''Solaris'', author = []\<rparr>],
       [Log INFO (''Searching for books with keyword: '' @ quote @ ''o'' @ quote),
        Log DEBUG (''Executing query: '' @ searchBook_sql),
        Cache_lock_shared, Cache_unlock_shared, Cache_lock, Prepare searchBook_sql 0 1, Cache_unlock,
        Reset 1, Clear_bindings 1,
        Bind_text 1 1 ''%o%'' SQLITE_TRANSIENT, Bind_text 1 2 ''%o%'' SQLITE_TRANSIENT,
        Db_lock_shared, Step 1, Db_unlock_shared, Db_lock_shared, Step 1, Db_unlock_shared,
        Log DEBUG ''Query returned 1 results''])"
    unfolding search_run
    by (simp add: read_report_def scan_events_def book_of_row_def row_def
        to_string_nat.simps digit_char_def fresh_def)
  have c3: "write_report (deleteBook accepting (- 4) [failed] fresh) =
     Some (False,
       [Log INFO ''Deleting book with ID: -4'',
        Log DEBUG (''Executing SQL: '' @ deleteBook_sql @ '' with 1 parameters''),
        Cache_lock_shared, Cache_unlock_shared, Cache_lock, Prepare deleteBook_sql 0 1, Cache_unlock,
        Reset 1, Clear_bindings 1,
        Bind_text 1 1 ''-4'' SQLITE_TRANSIENT,
        Db_lock, Step 1, Db_unlock,
        Log ERROR ''Failed to execute SQL: database is locked'',
        Log ERROR ''Failed to delete book''])"
    unfolding delete_run
    by (simp add: write_report_def to_string_def to_string_nat.simps digit_char_def
        fresh_def accepting_def)
  have c4: "write_report (updateBook accepting 12 ''T'' ?sly [finished] fresh) =
     Some (True,
       [Log INFO (''Updating book: ID=12, New Title='' @ quote @ ''T'' @ quote @ '', New Author=''
                    @ quote @ ''A'' @ quote @ '' OR 1=1'' @ quote),
        Log DEBUG (''Executing SQL: '' @ updateBook_sql @ '' with 3 parameters''),
        Cache_lock_shared, Cache_unlock_shared, Cache_lock, Prepare updateBook_sql 0 1, Cache_unlock,
        Reset 1, Clear_bindings 1,
        Bind_text 1 1 ''T'' SQLITE_TRANSIENT,
        Bind_text 1 2 ?sly SQLITE_TRANSIENT,
        Bind_text 1 3 ''12'' SQLITE_TRANSIENT,
        Db_lock, Step 1, Db_unlock])"
    unfolding update_run
    by (simp add: write_report_def to_string_def to_string_nat.simps digit_char_def fresh_def)
  have c5: "read_report (displayBooks accepting [finished] fresh) =
     Some ([],
       [Log INFO ''Displaying all books'',
        Log DEBUG (''Executing query: '' @ displayBooks_sql),
        Cache_lock_shared, Cache_unlock_shared, Cache_lock, Prepare displayBooks_sql 0 1, Cache_unlock,
        Reset 1, Clear_bindings 1,
        Db_lock_shared, Step 1, Db_unlock_shared,
        Log DEBUG ''Query returned no results''])"
    unfolding display_run
    by (simp add: read_report_def scan_events_def fresh_def)
  have c6: "map_option (sent fresh \<circ> snd) (addBook accepting 7 ''The Hobbit'' ''Tolkien'' [finished] fresh) =
     Some [addBook_sql]"
    unfolding add7_run using sent7 by simp
  have c7: "map_option (sent fresh \<circ> snd) (addBook accepting 8 ?evil ''Mallory'' [busy, finished] fresh) =
     Some [addBook_sql]"
    unfolding add_run using sent8 by simp
  from c1 c2 c3 c4 c5 c6 c7 show ?thesis
    by (intro conjI)
qed

end
